(* ===== verification/Go_Base.thy ===== *)
theory Go_Base
  imports Main "HOL-Library.Word"
begin

text \<open>
  The prelude of the development: what the Go sources use of the language and of its standard
  library, as executable HOL functions, and the generic lemmas every component shares.

  \<^item> Go strings are byte sequences: \<open>string\<close> (a \<open>char list\<close>, one \<open>char\<close> per byte).
  \<^item> \<open>for _, r := range s\<close>, \<open>unicode/utf8\<close>, \<open>unicode.IsSpace\<close>, \<open>unicode.IsControl\<close> and
    \<open>strings.TrimSpace\<close> are modelled on the UTF-8 decoding of those bytes, invalid bytes included
    (each decodes to \<open>U+FFFD\<close> with width 1).
  \<^item> \<open>time.Time\<close> is the number of nanoseconds since Go's zero time, so \<open>IsZero t\<close> is \<open>t = 0\<close>,
    \<open>After\<close> is \<open>>\<close> and \<open>Sub\<close> is subtraction.
  \<^item> Wire data is a list of \<open>8 word\<close>; \<open>encoding/hex\<close> is a function on such lists.
\<close>

named_theorems go_simps \<open>unfolding rules of the Go library functions\<close>

type_synonym byte = "8 word"
type_synonym bytes = "byte list"
type_synonym go_time = int
type_synonym rune = nat


subsection \<open>Runes: UTF-8 decoding as \<open>utf8.DecodeRune\<close> does it\<close>

abbreviation RuneError :: rune where "RuneError \<equiv> 0xFFFD"

definition cont_byte :: "nat \<Rightarrow> bool" where
  "cont_byte b \<longleftrightarrow> 0x80 \<le> b \<and> b \<le> 0xBF"

fun decode_rune2 :: "nat \<Rightarrow> nat list \<Rightarrow> rune \<times> nat" where
  "decode_rune2 b0 (b1 # _) =
     (if cont_byte b1 then ((b0 - 0xC0) * 64 + (b1 - 0x80), 2) else (RuneError, 1))"
| "decode_rune2 b0 _ = (RuneError, 1)"

fun decode_rune3 :: "nat \<Rightarrow> nat list \<Rightarrow> rune \<times> nat" where
  "decode_rune3 b0 (b1 # b2 # _) =
     (if cont_byte b1 \<and> cont_byte b2 \<and> (b0 = 0xE0 \<longrightarrow> 0xA0 \<le> b1) \<and> (b0 = 0xED \<longrightarrow> b1 \<le> 0x9F)
      then ((b0 - 0xE0) * 4096 + (b1 - 0x80) * 64 + (b2 - 0x80), 3) else (RuneError, 1))"
| "decode_rune3 b0 _ = (RuneError, 1)"

fun decode_rune4 :: "nat \<Rightarrow> nat list \<Rightarrow> rune \<times> nat" where
  "decode_rune4 b0 (b1 # b2 # b3 # _) =
     (if cont_byte b1 \<and> cont_byte b2 \<and> cont_byte b3
        \<and> (b0 = 0xF0 \<longrightarrow> 0x90 \<le> b1) \<and> (b0 = 0xF4 \<longrightarrow> b1 \<le> 0x8F)
      then ((b0 - 0xF0) * 262144 + (b1 - 0x80) * 4096 + (b2 - 0x80) * 64 + (b3 - 0x80), 4)
      else (RuneError, 1))"
| "decode_rune4 b0 _ = (RuneError, 1)"

fun decode_rune :: "nat list \<Rightarrow> rune \<times> nat" where
  "decode_rune [] = (RuneError, 0)"
| "decode_rune (b0 # bs) =
     (if b0 < 0x80 then (b0, 1)
      else if 0xC2 \<le> b0 \<and> b0 \<le> 0xDF then decode_rune2 b0 bs
      else if 0xE0 \<le> b0 \<and> b0 \<le> 0xEF then decode_rune3 b0 bs
      else if 0xF0 \<le> b0 \<and> b0 \<le> 0xF4 then decode_rune4 b0 bs
      else (RuneError, 1))"

text \<open>
  What a decoding step consumes: one byte, or the bytes of a multi-byte sequence, none of
  which is an ASCII byte.
\<close>

definition decoded :: "nat list \<Rightarrow> rune \<times> nat \<Rightarrow> bool" where
  "decoded bs rw \<longleftrightarrow> rw = (RuneError, 1) \<or>
     (1 < snd rw \<and> snd rw \<le> length bs \<and> list_all (\<lambda>b. 0x80 \<le> b) (take (snd rw) bs))"

lemma decoded_rune2: "0x80 \<le> b0 \<Longrightarrow> decoded (b0 # bs) (decode_rune2 b0 bs)"
  by (cases "(b0, bs)" rule: decode_rune2.cases) (auto simp: decoded_def cont_byte_def)

lemma decoded_rune3: "0x80 \<le> b0 \<Longrightarrow> decoded (b0 # bs) (decode_rune3 b0 bs)"
  by (cases "(b0, bs)" rule: decode_rune3.cases) (auto simp: decoded_def cont_byte_def)

lemma decoded_rune4: "0x80 \<le> b0 \<Longrightarrow> decoded (b0 # bs) (decode_rune4 b0 bs)"
  by (cases "(b0, bs)" rule: decode_rune4.cases) (auto simp: decoded_def cont_byte_def)

lemma decoded_rune:
  assumes "0x80 \<le> b0"
  shows "decoded (b0 # bs) (decode_rune (b0 # bs))"
  using decoded_rune2 [OF assms] decoded_rune3 [OF assms] decoded_rune4 [OF assms] assms
  by (simp add: decoded_def)

lemma decode_rune_width: "bs \<noteq> [] \<Longrightarrow> 0 < snd (decode_rune bs)"
  using decoded_rune [of "hd bs" "tl bs"]
  by (cases bs; cases "hd bs < 0x80") (auto simp: decoded_def simp del: decode_rune.simps(2),
      simp)

lemma decode_rune_shrinks: "bs \<noteq> [] \<Longrightarrow> length bs - snd (decode_rune bs) < length bs"
  using decode_rune_width [of bs] by (cases bs) auto

text \<open>The runes a \<open>for range\<close> loop over a string visits, each with its width in bytes.\<close>

function decode_runes :: "nat list \<Rightarrow> (rune \<times> nat) list" where
  "decode_runes bs =
     (if bs = [] then []
      else decode_rune bs # decode_runes (drop (snd (decode_rune bs)) bs))"
  by pat_completeness auto
termination
  by (relation "measure length") (auto simp: decode_rune_shrinks)

declare decode_runes.simps [simp del]

lemma decode_runes_Nil [simp]: "decode_runes [] = []"
  by (simp add: decode_runes.simps)

lemma decode_runes_Cons:
  "decode_runes (b # bs) =
     decode_rune (b # bs) # decode_runes (drop (snd (decode_rune (b # bs))) (b # bs))"
  by (subst decode_runes.simps) simp

definition string_bytes :: "string \<Rightarrow> nat list" where
  "string_bytes s = map of_char s"

definition string_runes :: "string \<Rightarrow> rune list" where
  "string_runes s = map fst (decode_runes (string_bytes s))"

definition ValidString :: "string \<Rightarrow> bool" where
  "ValidString s \<longleftrightarrow> list_all (\<lambda>(r, w). \<not> (r = RuneError \<and> w = 1)) (decode_runes (string_bytes s))"

definition IsSpace :: "rune \<Rightarrow> bool" where
  "IsSpace r \<longleftrightarrow> (9 \<le> r \<and> r \<le> 13) \<or> r = 0x20 \<or> r = 0x85 \<or> r = 0xA0 \<or> r = 0x1680
     \<or> (0x2000 \<le> r \<and> r \<le> 0x200A) \<or> r = 0x2028 \<or> r = 0x2029 \<or> r = 0x202F \<or> r = 0x205F \<or> r = 0x3000"

definition IsControl :: "rune \<Rightarrow> bool" where
  "IsControl r \<longleftrightarrow> r < 0x20 \<or> (0x7F \<le> r \<and> r \<le> 0x9F)"

text \<open>
  An ASCII byte of a string is always one of its runes: continuation bytes are at least
  \<open>0x80\<close>, so decoding never swallows an ASCII byte. This is what makes the rune-based
  checks of the program checks on bytes.
\<close>

lemma decode_rune_swallows_no_ascii:
  assumes "b \<in> set (take (snd (decode_rune bs)) bs)" and "b < 0x80"
  shows "fst (decode_rune bs) = b"
proof (cases bs)
  case Nil
  with assms show ?thesis by simp
next
  case (Cons b0 bs')
  show ?thesis
  proof (cases "b0 < 0x80")
    case True
    with Cons assms show ?thesis by simp
  next
    case False
    then have "decoded bs (decode_rune bs)" using Cons decoded_rune by simp
    with assms Cons False show ?thesis
      by (auto simp: decoded_def list_all_iff simp del: decode_rune.simps)
  qed
qed

lemma ascii_byte_is_rune: "b \<in> set bs \<Longrightarrow> b < 0x80 \<Longrightarrow> b \<in> fst ` set (decode_runes bs)"
proof (induction bs rule: decode_runes.induct)
  case (1 bs)
  then have ne: "bs \<noteq> []" by auto
  let ?w = "snd (decode_rune bs)"
  have "b \<in> set (take ?w bs @ drop ?w bs)" using "1.prems" by simp
  then consider "b \<in> set (take ?w bs)" | "b \<in> set (drop ?w bs)" by (auto simp del: append_take_drop_id)
  then show ?case
  proof cases
    case 1
    then have "fst (decode_rune bs) = b" using \<open>b < 0x80\<close> by (rule decode_rune_swallows_no_ascii)
    then show ?thesis using ne by (subst decode_runes.simps) auto
  next
    case 2
    then have "b \<in> fst ` set (decode_runes (drop ?w bs))" using "1.IH" ne "1.prems"(2) by blast
    then show ?thesis using ne by (subst decode_runes.simps) auto
  qed
qed

lemma ascii_char_is_rune: "c \<in> set s \<Longrightarrow> (of_char c :: nat) < 0x80 \<Longrightarrow> of_char c \<in> set (string_runes s)"
  using ascii_byte_is_rune [of "of_char c" "string_bytes s"]
  by (auto simp: string_runes_def string_bytes_def)

text \<open>On an ASCII string the runes are the bytes.\<close>

lemma decode_runes_ascii: "list_all (\<lambda>b. b < 0x80) bs \<Longrightarrow> decode_runes bs = map (\<lambda>b. (b, 1)) bs"
  by (induction bs) (simp_all add: decode_runes_Cons)

definition ascii :: "string \<Rightarrow> bool" where
  "ascii s \<longleftrightarrow> list_all (\<lambda>c. (of_char c :: nat) < 0x80) s"

lemma ascii_runes: "ascii s \<Longrightarrow> string_runes s = map of_char s \<and> ValidString s"
  using decode_runes_ascii [of "string_bytes s"]
  by (fastforce simp: ascii_def string_runes_def ValidString_def string_bytes_def list_all_iff comp_def)


subsection \<open>\<open>strings.TrimSpace\<close>\<close>

function trim_left_space :: "nat list \<Rightarrow> nat list" where
  "trim_left_space bs =
     (if bs \<noteq> [] \<and> IsSpace (fst (decode_rune bs))
      then trim_left_space (drop (snd (decode_rune bs)) bs) else bs)"
  by pat_completeness auto
termination
  by (relation "measure length") (auto simp: decode_rune_shrinks)

declare trim_left_space.simps [simp del]

text \<open>
  \<open>utf8.DecodeLastRune\<close>: an ASCII last byte is its own rune; otherwise the nearest rune start
  among the three bytes before the last one is decoded, and must reach exactly to the end.
\<close>

definition RuneStart :: "nat \<Rightarrow> bool" where
  "RuneStart b \<longleftrightarrow> \<not> cont_byte b"

definition decode_last_rune :: "nat list \<Rightarrow> rune \<times> nat" where
  "decode_last_rune bs =
     (let n = length bs; at = (\<lambda>w. w \<le> n \<and> RuneStart (bs ! (n - w)));
          from_end = (\<lambda>w. let rw = decode_rune (drop (n - w) bs)
                          in if snd rw = w then rw else (RuneError, 1))
      in if bs = [] then (RuneError, 0)
         else if last bs < 0x80 then (last bs, 1)
         else if at 2 then from_end 2
         else if at 3 then from_end 3
         else if at 4 then from_end 4
         else (RuneError, 1))"

lemma decode_last_rune_width: "bs \<noteq> [] \<Longrightarrow> 0 < snd (decode_last_rune bs)"
  by (auto simp: decode_last_rune_def Let_def)

function trim_right_space :: "nat list \<Rightarrow> nat list" where
  "trim_right_space bs =
     (if bs \<noteq> [] \<and> IsSpace (fst (decode_last_rune bs))
      then trim_right_space (take (length bs - snd (decode_last_rune bs)) bs) else bs)"
  by pat_completeness auto
termination
proof (relation "measure length")
  fix bs :: "nat list"
  assume "bs \<noteq> [] \<and> IsSpace (fst (decode_last_rune bs))"
  then show "(take (length bs - snd (decode_last_rune bs)) bs, bs) \<in> measure length"
    using decode_last_rune_width [of bs] by (cases bs) auto
qed simp

declare trim_right_space.simps [simp del]

text \<open>Trimming never removes an ASCII byte that is no space.\<close>

lemma trim_left_space_length: "length (trim_left_space bs) \<le> length bs"
proof (induction bs rule: trim_left_space.induct)
  case (1 bs)
  then show ?case by (subst trim_left_space.simps) (auto simp del: decode_rune.simps)
qed

lemma trim_left_space_keeps:
  "b < 0x80 \<Longrightarrow> \<not> IsSpace b \<Longrightarrow> b \<in> set bs \<Longrightarrow> b \<in> set (trim_left_space bs)"
proof (induction bs rule: trim_left_space.induct)
  case (1 bs)
  show ?case
  proof (cases "bs \<noteq> [] \<and> IsSpace (fst (decode_rune bs))")
    case True
    let ?w = "snd (decode_rune bs)"
    have "b \<notin> set (take ?w bs)" using decode_rune_swallows_no_ascii "1.prems" True by blast
    moreover have "b \<in> set (take ?w bs @ drop ?w bs)" using "1.prems"(3) by simp
    ultimately have "b \<in> set (drop ?w bs)" by (simp del: append_take_drop_id)
    then have "b \<in> set (trim_left_space (drop ?w bs))" using "1.IH" [OF True] "1.prems" by blast
    moreover have "trim_left_space bs = trim_left_space (drop ?w bs)"
      by (subst trim_left_space.simps) (rule if_P [OF True])
    ultimately show ?thesis by simp
  next
    case False
    then show ?thesis using "1.prems"(3) by (subst trim_left_space.simps) (simp only: if_False)
  qed
qed

lemma decode_last_rune_swallows_no_ascii:
  assumes "b < 0x80" and m: "b \<in> set (drop (length bs - snd (decode_last_rune bs)) bs)"
    and "IsSpace (fst (decode_last_rune bs))"
  shows "fst (decode_last_rune bs) = b"
proof -
  let ?rw = "decode_last_rune bs"
  have ne: "bs \<noteq> []" using m by auto
  have sp: "\<not> IsSpace RuneError" by (simp add: IsSpace_def)
  consider "?rw = (last bs, 1)" | "fst ?rw = RuneError"
    | w where "w \<le> length bs" "?rw = decode_rune (drop (length bs - w) bs)" "snd ?rw = w"
  proof -
    define n at from_end where "n = length bs" and "at = (\<lambda>w. w \<le> n \<and> RuneStart (bs ! (n - w)))"
      and "from_end = (\<lambda>w. let rw = decode_rune (drop (n - w) bs) in if snd rw = w then rw else (RuneError, 1))"
    have rw: "?rw = (if last bs < 0x80 then (last bs, 1) else if at 2 then from_end 2
        else if at 3 then from_end 3 else if at 4 then from_end 4 else (RuneError, 1))"
      using ne by (simp add: decode_last_rune_def Let_def n_def at_def from_end_def del: decode_rune.simps)
    have "?rw = (last bs, 1) \<or> fst ?rw = RuneError \<or> (\<exists>w \<le> n. ?rw = from_end w)"
    proof -
      consider "?rw = (last bs, 1)" | "?rw = (RuneError, 1)" | w where "at w" "?rw = from_end w"
        unfolding rw by (cases "last bs < 0x80"; cases "at 2"; cases "at 3"; cases "at 4") simp_all
      then show ?thesis by cases (simp_all add: at_def del: decode_rune.simps, blast)
    qed
    moreover have "fst (from_end w) = RuneError \<or> from_end w = decode_rune (drop (n - w) bs) \<and> snd (from_end w) = w"
      for w by (simp add: from_end_def Let_def del: decode_rune.simps)
    ultimately show thesis using that unfolding n_def by metis
  qed
  then show ?thesis
  proof cases
    case 1
    then have "b \<in> set (drop (length bs - 1) bs)" using m by simp
    then show ?thesis using 1 ne by (cases bs rule: rev_cases) auto
  next
    case 2
    then show ?thesis using assms(3) sp by simp
  next
    case 3
    then have "b \<in> set (take w (drop (length bs - w) bs))" using m by simp
    then show ?thesis using decode_rune_swallows_no_ascii [of b "drop (length bs - w) bs"] 3 assms(1) by simp
  qed
qed

lemma trim_right_space_keeps:
  "b < 0x80 \<Longrightarrow> \<not> IsSpace b \<Longrightarrow> b \<in> set bs \<Longrightarrow> b \<in> set (trim_right_space bs)"
proof (induction bs rule: trim_right_space.induct)
  case (1 bs)
  show ?case
  proof (cases "bs \<noteq> [] \<and> IsSpace (fst (decode_last_rune bs))")
    case True
    let ?n = "length bs - snd (decode_last_rune bs)"
    have "b \<notin> set (drop ?n bs)" using decode_last_rune_swallows_no_ascii "1.prems" True by blast
    moreover have "b \<in> set (take ?n bs @ drop ?n bs)" using "1.prems"(3) by simp
    ultimately have "b \<in> set (take ?n bs)" by (simp del: append_take_drop_id)
    then have "b \<in> set (trim_right_space (take ?n bs))" using "1.IH" [OF True] "1.prems" by blast
    moreover have "trim_right_space bs = trim_right_space (take ?n bs)"
      by (subst trim_right_space.simps) (rule if_P [OF True])
    ultimately show ?thesis by simp
  next
    case False
    then show ?thesis using "1.prems"(3) by (subst trim_right_space.simps) (simp only: if_False)
  qed
qed

definition TrimSpace :: "string \<Rightarrow> string" where
  "TrimSpace s =
     (let l = trim_left_space (string_bytes s); r = trim_right_space l
      in take (length r) (drop (length s - length l) s))"

lemma TrimSpace_Nil [simp]: "TrimSpace [] = []"
  by (simp add: TrimSpace_def string_bytes_def Let_def)

lemma TrimSpace_ascii_member:
  assumes "c \<in> set s" and "(of_char c :: nat) < 0x80" and "\<not> IsSpace (of_char c)"
  shows "TrimSpace s \<noteq> []"
proof -
  let ?l = "trim_left_space (string_bytes s)"
  have "of_char c \<in> set (string_bytes s)" using assms(1) by (simp add: string_bytes_def)
  then have l: "of_char c \<in> set ?l" using assms by (blast intro: trim_left_space_keeps)
  then have "of_char c \<in> set (trim_right_space ?l)" using assms by (blast intro: trim_right_space_keeps)
  then have "0 < length (trim_right_space ?l)" by (cases "trim_right_space ?l") auto
  moreover have "0 < length ?l" using l by (cases ?l) auto
  moreover have "length ?l \<le> length s" using trim_left_space_length [of "string_bytes s"] by (simp add: string_bytes_def)
  ultimately have "length s - length ?l < length s" "0 < length (trim_right_space ?l)" by linarith+
  then show ?thesis by (simp add: TrimSpace_def Let_def)
qed

lemma TrimSpace_ascii_head:
  "(of_char c :: nat) < 0x80 \<Longrightarrow> \<not> IsSpace (of_char c) \<Longrightarrow> TrimSpace (c # s) \<noteq> []"
  by (rule TrimSpace_ascii_member) auto

lemma TrimSpace_id:
  assumes "s \<noteq> []"
    and "(of_char (hd s) :: nat) < 0x80" "\<not> IsSpace (of_char (hd s))"
    and "(of_char (last s) :: nat) < 0x80" "\<not> IsSpace (of_char (last s))"
  shows "TrimSpace s = s"
proof -
  let ?bs = "string_bytes s"
  have bs: "?bs \<noteq> []" "hd ?bs = of_char (hd s)" "last ?bs = of_char (last s)" "length ?bs = length s"
    using assms(1) by (simp_all add: string_bytes_def hd_map last_map)
  then obtain b cs where b: "?bs = b # cs" "b = of_char (hd s)" by (cases ?bs) auto
  have "trim_left_space ?bs = ?bs"
    using b assms by (subst trim_left_space.simps) simp
  moreover have "trim_right_space ?bs = ?bs"
    using bs assms by (subst trim_right_space.simps) (simp add: decode_last_rune_def Let_def)
  ultimately show ?thesis by (simp add: TrimSpace_def Let_def bs)
qed


subsection \<open>Early returns\<close>

text \<open>
  A function that returns an error or a value is a nest of guards and matches. These rules turn the
  statement that it returned a value into the conjunction of what held on the way.
\<close>

named_theorems result_iff

lemma guard_Inr [result_iff]: "(if c then Inl e else k) = Inr r \<longleftrightarrow> \<not> c \<and> k = Inr r"
  by simp

lemma bind_Inr [result_iff]:
  "(case x of Inl e \<Rightarrow> Inl (g e) | Inr y \<Rightarrow> f y) = Inr r \<longleftrightarrow> (\<exists>y. x = Inr y \<and> f y = Inr r)"
  by (cases x) auto

lemma bind_option_Inr [result_iff]:
  "(case x of Some e \<Rightarrow> Inl (g e) | None \<Rightarrow> k) = Inr r \<longleftrightarrow> x = None \<and> k = Inr r"
  by (cases x) auto

lemma case_prod_Inr [result_iff]:
  "(case p of (a, b) \<Rightarrow> f a b) = Inr r \<longleftrightarrow> (\<exists>a b. p = (a, b) \<and> f a b = Inr r)"
  by (cases p) auto


subsection \<open>Joining with a separator\<close>

lemma separator_inj:
  assumes "c \<notin> set a" "c \<notin> set a'" "a @ c # b = a' @ c # b'"
  shows "a = a' \<and> b = b'"
  using assms
proof (induction a arbitrary: a')
  case Nil
  then show ?case by (cases a') auto
next
  case (Cons x xs)
  then show ?case by (cases a') auto
qed


text \<open>The evaluation bundle for the runes of closed strings.\<close>

lemmas string_eval [go_simps] =
  string_bytes_def string_runes_def ValidString_def decode_runes.simps
  IsSpace_def IsControl_def cont_byte_def

end
