(* ===== verification/EA_Codec.thy ===== *)
theory EA_Codec
  imports Go_Base
begin

text \<open>
  The wire formats of exported authenticators, \<open>pkg/atls/ea\<close>: handshake messages (\<open>handshake.go\<close>),
  extensions (\<open>extensions.go\<close>), the Certificate, CertificateVerify and Finished messages
  (\<open>certificate.go\<close>, \<open>certverify.go\<close>, \<open>finished.go\<close>), the authenticator request and its extensions
  (\<open>request.go\<close>) and the CMW attestation extension (\<open>cmw_attestation.go\<close>).

  Every format is a length-prefixed element that is decoded from the front of a byte string. The
  locale \<open>prefix_codec\<close> states the contract of such a pair of functions in both directions; the loop that
  decodes a vector of elements is one function, and its round trip is proved once in the locale.
\<close>

unbundle bit_operations_syntax

datatype ea_error =
    ErrTruncated | ErrInvalidLength | ErrUnsupportedHandshakeType | ErrNotTLS13 | ErrUnknownCipherSuite
  | ErrContextReuse | ErrInvalidRole | ErrUnsupportedSignatureScheme | ErrSignatureMismatch
  | ErrFinishedMismatch | ErrContextMismatch | ErrBadRequest

type_synonym 'a ea_result = "ea_error + 'a"


subsection \<open>Fixed-width integers, big endian\<close>

definition putUint24 :: "32 word \<Rightarrow> bytes" where
  "putUint24 v = [ucast (drop_bit 16 v), ucast (drop_bit 8 v), ucast v]"

definition readUint24 :: "bytes \<Rightarrow> 32 word" where
  "readUint24 src = push_bit 16 (ucast (src ! 0)) OR push_bit 8 (ucast (src ! 1)) OR ucast (src ! 2)"

definition putUint16 :: "16 word \<Rightarrow> bytes" where
  "putUint16 v = [ucast (drop_bit 8 v), ucast v]"

definition readUint16 :: "bytes \<Rightarrow> 16 word" where
  "readUint16 src = push_bit 8 (ucast (src ! 0)) OR ucast (src ! 1)"

text \<open>A length as the code writes it: \<open>uint16(len)\<close> and \<open>uint32(len)\<close> wrap.\<close>

abbreviation len16 :: "nat \<Rightarrow> bytes" where "len16 n \<equiv> putUint16 (word_of_nat n)"
abbreviation len24 :: "nat \<Rightarrow> bytes" where "len24 n \<equiv> putUint24 (word_of_nat n)"

lemma put_length [simp]: "length (putUint24 v) = 3" "length (putUint16 w) = 2"
  by (simp_all add: putUint24_def putUint16_def)

lemma put_nonempty [simp]: "putUint24 v \<noteq> []" "putUint16 w \<noteq> []"
  by (simp_all add: putUint24_def putUint16_def)

lemma readUint16_put [simp]: "readUint16 (putUint16 v @ r) = v"
  by (rule bit_word_eqI) (auto simp: readUint16_def putUint16_def bit_simps)

lemma below_24_bits: "unat (v :: 32 word) < 2 ^ 24 \<longleftrightarrow> take_bit 24 v = v"
  by (metis take_bit_nat_eq_self_iff unsigned_take_bit_eq unsigned_word_eqI)

lemma readUint24_put:
  assumes "unat v < 2 ^ 24"
  shows "readUint24 (putUint24 v @ r) = v"
proof (rule bit_word_eqI)
  have b: "m < 24" if "bit v m" for m
    using that assms unfolding below_24_bits by (metis bit_take_bit_iff)
  fix n
  show "bit (readUint24 (putUint24 v @ r)) n = bit v n"
    by (cases "n < 8"; cases "n < 16") (auto simp: readUint24_def putUint24_def bit_simps dest: b)
qed

lemma putUint16_read: "putUint16 (readUint16 (x # y # r)) = [x, y]"
proof -
  have "ucast (drop_bit 8 (readUint16 (x # y # r))) = x"
    by (rule bit_word_eqI) (auto simp: readUint16_def bit_simps dest: bit_imp_le_length)
  moreover have "ucast (readUint16 (x # y # r)) = y"
    by (rule bit_word_eqI) (auto simp: readUint16_def bit_simps)
  ultimately show ?thesis by (simp add: putUint16_def)
qed

lemma putUint24_read: "putUint24 (readUint24 (x # y # z # r)) = [x, y, z]"
proof -
  have "ucast (drop_bit 16 (readUint24 (x # y # z # r))) = x"
    by (rule bit_word_eqI) (auto simp: readUint24_def bit_simps dest: bit_imp_le_length)
  moreover have "ucast (drop_bit 8 (readUint24 (x # y # z # r))) = y"
    by (rule bit_word_eqI) (auto simp: readUint24_def bit_simps dest: bit_imp_le_length)
  moreover have "ucast (readUint24 (x # y # z # r)) = z"
    by (rule bit_word_eqI) (auto simp: readUint24_def bit_simps)
  ultimately show ?thesis by (simp add: putUint24_def)
qed

lemma readUint24_bound: "unat (readUint24 b) < 2 ^ 24"
  unfolding below_24_bits
  by (rule bit_word_eqI) (auto simp: readUint24_def bit_simps dest: bit_imp_le_length)

lemma readUint16_bound: "unat (readUint16 b) < 2 ^ 16"
  using unsigned_less [of "readUint16 b"] by simp

text \<open>Lengths read back, and prefixes rebuilt from what was read.\<close>

lemma read_len16 [simp]: "n < 2 ^ 16 \<Longrightarrow> unat (readUint16 (len16 n @ r)) = n"
  by (simp add: unsigned_of_nat take_bit_nat_eq_self)

lemma read_len24 [simp]: "n < 2 ^ 24 \<Longrightarrow> unat (readUint24 (len24 n @ r)) = n"
  by (subst readUint24_put) (simp_all add: unsigned_of_nat take_bit_nat_eq_self)

lemma len16_read: "2 \<le> length b \<Longrightarrow> putUint16 (readUint16 b) = take 2 b"
  by (cases b; cases "tl b") (auto simp: putUint16_read)

lemma len24_read: "3 \<le> length b \<Longrightarrow> putUint24 (readUint24 b) = take 3 b"
  by (cases b; cases "tl b"; cases "tl (tl b)") (auto simp: putUint24_read)


subsection \<open>Decoding from the front, and the loop that decodes a vector\<close>

text \<open>
  The loops of the package have one shape: while bytes are left, decode one element at the front and
  append it; the first error is the result. The guard on the length is what makes the recursion
  well-founded; it holds for every element decoder of the package (each reads a length field first).
\<close>

function decode_loop :: "(bytes \<Rightarrow> 'e + 'a \<times> bytes) \<Rightarrow> bytes \<Rightarrow> 'e + 'a list" where
  "decode_loop elem b =
     (if b = [] then Inr []
      else case elem b of
        Inl e \<Rightarrow> Inl e
      | Inr (x, rest) \<Rightarrow>
          if length rest < length b
          then (case decode_loop elem rest of Inl e \<Rightarrow> Inl e | Inr xs \<Rightarrow> Inr (x # xs))
          else Inr [x])"
  by pat_completeness auto
termination
  by (relation "measure (\<lambda>(_, b). length b)") auto

declare decode_loop.simps [simp del]

locale prefix_codec =
  fixes enc :: "'a \<Rightarrow> bytes" and dec :: "bytes \<Rightarrow> 'e + 'a \<times> bytes" and ok :: "'a \<Rightarrow> bool"
  assumes dec_enc: "ok x \<Longrightarrow> dec (enc x @ rest) = Inr (x, rest)"
    and dec_sound: "dec b = Inr (x, rest) \<Longrightarrow> ok x \<and> b = enc x @ rest"
    and enc_nonempty: "ok x \<Longrightarrow> enc x \<noteq> []"
begin

lemma dec_iff: "dec b = Inr (x, rest) \<longleftrightarrow> ok x \<and> b = enc x @ rest"
  using dec_enc dec_sound by blast

lemma enc_inj: "ok x \<Longrightarrow> ok y \<Longrightarrow> enc x @ r = enc y @ s \<Longrightarrow> x = y \<and> r = s"
  by (metis dec_enc prod.inject sum.inject(2))

lemma decode_loop_enc: "list_all ok xs \<Longrightarrow> decode_loop dec (concat (map enc xs)) = Inr xs"
proof (induction xs)
  case (Cons x xs)
  then have "ok x" "enc x \<noteq> []" by (simp_all add: enc_nonempty)
  then show ?case using Cons by (subst decode_loop.simps) (simp add: dec_enc)
qed (simp add: decode_loop.simps)

lemma decode_loop_sound: "decode_loop dec b = Inr xs \<Longrightarrow> list_all ok xs \<and> b = concat (map enc xs)"
proof (induction b arbitrary: xs rule: measure_induct_rule [of length])
  case (less b)
  show ?case
  proof (cases "b = []")
    case True
    then show ?thesis using less.prems by (simp add: decode_loop.simps)
  next
    case False
    then obtain x rest where d: "dec b = Inr (x, rest)"
      using less.prems by (subst (asm) decode_loop.simps) (auto split: sum.splits)
    then have x: "ok x" "b = enc x @ rest" "length rest < length b"
      using dec_sound [of b x rest] enc_nonempty [of x] by auto
    then obtain ys where "decode_loop dec rest = Inr ys" "xs = x # ys"
      using less.prems d False by (subst (asm) decode_loop.simps) (auto split: sum.splits)
    then show ?thesis using less.IH [of rest ys] x by simp
  qed
qed

theorem decode_loop_iff: "decode_loop dec b = Inr xs \<longleftrightarrow> list_all ok xs \<and> b = concat (map enc xs)"
  using decode_loop_enc decode_loop_sound by blast

end


section \<open>Handshake messages\<close>

abbreviation (input) HandshakeTypeCertificate :: "8 word" where "HandshakeTypeCertificate \<equiv> 11"
abbreviation (input) HandshakeTypeCertificateRequest :: "8 word" where "HandshakeTypeCertificateRequest \<equiv> 13"
abbreviation (input) HandshakeTypeCertificateVerify :: "8 word" where "HandshakeTypeCertificateVerify \<equiv> 15"
abbreviation (input) HandshakeTypeClientCertificateRequest :: "8 word" where
  "HandshakeTypeClientCertificateRequest \<equiv> 17"
abbreviation (input) HandshakeTypeFinished :: "8 word" where "HandshakeTypeFinished \<equiv> 20"

definition handshakeHeaderLen :: nat where "handshakeHeaderLen = 4"

record HandshakeMessage =
  hm_Type :: "8 word"
  hm_Body :: bytes

definition MarshalHandshakeMessage :: "HandshakeMessage \<Rightarrow> bytes ea_result" where
  "MarshalHandshakeMessage m =
     (if length (hm_Body m) > 0xFFFFFF then Inl ErrInvalidLength
      else Inr ([hm_Type m] @ len24 (length (hm_Body m)) @ hm_Body m))"

definition UnmarshalHandshakeMessage :: "bytes \<Rightarrow> (HandshakeMessage \<times> bytes) ea_result" where
  "UnmarshalHandshakeMessage b =
     (if length b < handshakeHeaderLen then Inl ErrTruncated
      else let t = b ! 0; n = unat (readUint24 (take 3 (drop 1 b))) in
        if n > 0xFFFFFF then Inl ErrInvalidLength
        else if length b < handshakeHeaderLen + n then Inl ErrTruncated
        else Inr (\<lparr>hm_Type = t, hm_Body = take n (drop 4 b)\<rparr>, drop n (drop 4 b)))"

definition handshake_ok :: "HandshakeMessage \<Rightarrow> bool" where
  "handshake_ok m \<longleftrightarrow> length (hm_Body m) \<le> 0xFFFFFF"

definition handshake_bytes :: "HandshakeMessage \<Rightarrow> bytes" where
  "handshake_bytes m = [hm_Type m] @ len24 (length (hm_Body m)) @ hm_Body m"

lemma MarshalHandshakeMessage_Inr:
  "MarshalHandshakeMessage m = Inr b \<longleftrightarrow> handshake_ok m \<and> b = handshake_bytes m"
  by (auto simp: MarshalHandshakeMessage_def handshake_ok_def handshake_bytes_def)

lemma take_put24 [simp]: "take 3 (putUint24 v @ r) = putUint24 v"
  using put_length(1) [of v] by simp

lemma drop_put24 [simp]: "3 \<le> n \<Longrightarrow> drop n (putUint24 v @ r) = drop (n - 3) r"
  by simp

interpretation handshake: prefix_codec handshake_bytes UnmarshalHandshakeMessage handshake_ok
proof unfold_locales
  fix m rest
  assume m: "handshake_ok m"
  then have "unat (readUint24 (len24 (length (hm_Body m)))) = length (hm_Body m)"
    using read_len24 [of "length (hm_Body m)" "[]"] by (simp add: handshake_ok_def)
  then show "UnmarshalHandshakeMessage (handshake_bytes m @ rest) = Inr (m, rest)"
    using m by (simp add: UnmarshalHandshakeMessage_def handshake_bytes_def handshake_ok_def
        handshakeHeaderLen_def Let_def)
next
  fix b m rest
  assume d: "UnmarshalHandshakeMessage b = Inr (m, rest)"
  let ?n = "unat (readUint24 (take 3 (drop 1 b)))"
  have n: "4 \<le> length b" "4 + ?n \<le> length b" "?n \<le> 0xFFFFFF"
    "m = \<lparr>hm_Type = b ! 0, hm_Body = take ?n (drop 4 b)\<rparr>" "rest = drop ?n (drop 4 b)"
    using d by (auto simp: UnmarshalHandshakeMessage_def Let_def handshakeHeaderLen_def split: if_splits)
  have "b = [b ! 0] @ take 3 (drop 1 b) @ drop 4 b"
    using n(1) by (cases b) auto
  moreover have "len24 ?n = take 3 (drop 1 b)"
    using len24_read [of "take 3 (drop 1 b)"] n(1) by simp
  moreover have "length (hm_Body m) = ?n" using n by simp
  moreover have "hm_Body m @ rest = drop 4 b" by (simp only: n HandshakeMessage.simps append_take_drop_id)
  ultimately have "b = handshake_bytes m @ rest"
    by (simp add: handshake_bytes_def n(4))
  then show "handshake_ok m \<and> b = handshake_bytes m @ rest"
    using n(3) \<open>length (hm_Body m) = ?n\<close> by (simp add: handshake_ok_def)
qed (simp add: handshake_bytes_def)


section \<open>Extensions\<close>

record Extension =
  ext_Type :: "16 word"
  ext_Data :: bytes

text \<open>The first loop of \<open>MarshalExtensions\<close>, with \<open>payloadLen\<close> so far.\<close>

fun extensionsLen :: "Extension list \<Rightarrow> nat \<Rightarrow> nat ea_result" where
  "extensionsLen [] payloadLen = Inr payloadLen"
| "extensionsLen (e # exts) payloadLen =
     (if length (ext_Data e) > 0xFFFF then Inl ErrInvalidLength
      else if payloadLen + (4 + length (ext_Data e)) > 0xFFFF then Inl ErrInvalidLength
      else extensionsLen exts (payloadLen + (4 + length (ext_Data e))))"

definition extension_bytes :: "Extension \<Rightarrow> bytes" where
  "extension_bytes e = putUint16 (ext_Type e) @ len16 (length (ext_Data e)) @ ext_Data e"

definition MarshalExtensions :: "Extension list \<Rightarrow> bytes ea_result" where
  "MarshalExtensions exts =
     (case extensionsLen exts 0 of
        Inl e \<Rightarrow> Inl e
      | Inr payloadLen \<Rightarrow> Inr (len16 payloadLen @ concat (map extension_bytes exts)))"

text \<open>One iteration of the loop of \<open>UnmarshalExtensions\<close>, on the rest of the payload.\<close>

definition decode_extension :: "bytes \<Rightarrow> (Extension \<times> bytes) ea_result" where
  "decode_extension payload =
     (if length payload < 4 then Inl ErrTruncated
      else let typ = readUint16 (take 2 payload);
               l = unat (readUint16 (take 2 (drop 2 payload)));
               payload = drop 4 payload
        in if l > length payload then Inl ErrInvalidLength
           else Inr (\<lparr>ext_Type = typ, ext_Data = take l payload\<rparr>, drop l payload))"

definition UnmarshalExtensions :: "bytes \<Rightarrow> (Extension list \<times> bytes) ea_result" where
  "UnmarshalExtensions b =
     (if length b < 2 then Inl ErrTruncated
      else let total = unat (readUint16 (take 2 b)) in
        if length b < 2 + total then Inl ErrTruncated
        else case decode_loop decode_extension (take total (drop 2 b)) of
          Inl e \<Rightarrow> Inl e
        | Inr exts \<Rightarrow> Inr (exts, drop total (drop 2 b)))"


subsection \<open>Length-prefixed pieces\<close>

lemma read_take [simp]:
  "readUint16 (take 2 b) = readUint16 b" "readUint24 (take 3 b) = readUint24 b"
  by (simp_all add: readUint16_def readUint24_def)

lemma read_put_Nil [simp]: "readUint16 (putUint16 v) = v"
  using readUint16_put [of v "[]"] by simp

lemma take_drop_put [simp]:
  "take 2 (putUint16 w @ r) = putUint16 w" "2 \<le> n \<Longrightarrow> drop n (putUint16 w @ r) = drop (n - 2) r"
  by simp_all

lemma len_unat: "len16 (unat v) = putUint16 v" "len24 (unat w) = putUint24 w"
  by simp_all

lemma split16: "2 \<le> length b \<Longrightarrow> putUint16 (readUint16 b) @ drop 2 b = b"
  by (simp add: len16_read)

lemma split24: "3 \<le> length b \<Longrightarrow> putUint24 (readUint24 b) @ drop 3 b = b"
  by (simp add: len24_read)

lemma read_lens [simp]:
  "n < 0x10000 \<Longrightarrow> unat (readUint16 (len16 n @ r)) = n" "n < 0x1000000 \<Longrightarrow> unat (readUint24 (len24 n @ r)) = n"
  "n < 0x10000 \<Longrightarrow> unat (word_of_nat n :: 16 word) = n" "n < 0x1000000 \<Longrightarrow> unat (readUint24 (len24 n)) = n"
  using read_len16 [of n r] read_len24 [of n r] read_len24 [of n "[]"] by (simp_all add: unsigned_of_nat take_bit_nat_eq_self)

lemma read16_below: "unat (readUint16 b) < 0x10000"
  using readUint16_bound [of b] by simp


subsection \<open>Extensions round trip\<close>

definition extension_ok :: "Extension \<Rightarrow> bool" where
  "extension_ok e \<longleftrightarrow> length (ext_Data e) < 0x10000"

definition extensions_ok :: "Extension list \<Rightarrow> bool" where
  "extensions_ok exts \<longleftrightarrow> length (concat (map extension_bytes exts)) < 0x10000"

definition extensions_bytes :: "Extension list \<Rightarrow> bytes" where
  "extensions_bytes exts = len16 (length (concat (map extension_bytes exts))) @ concat (map extension_bytes exts)"

interpretation extension: prefix_codec extension_bytes decode_extension extension_ok
proof unfold_locales
  fix e rest
  assume "extension_ok e"
  then show "decode_extension (extension_bytes e @ rest) = Inr (e, rest)"
    by (simp add: decode_extension_def extension_bytes_def extension_ok_def Let_def)
next
  fix b e rest
  assume d: "decode_extension b = Inr (e, rest)"
  let ?l = "unat (readUint16 (drop 2 b))"
  have e: "4 \<le> length b" "?l \<le> length (drop 4 b)"
    "e = \<lparr>ext_Type = readUint16 b, ext_Data = take ?l (drop 4 b)\<rparr>" "rest = drop ?l (drop 4 b)"
    using d by (auto simp: decode_extension_def Let_def split: if_splits)
  have "putUint16 (readUint16 b) @ len16 ?l @ drop 4 b = b"
    using split16 [of b] split16 [of "drop 2 b"] e(1) by simp
  moreover have "length (ext_Data e) = ?l" using e by simp
  moreover have "ext_Data e @ rest = drop 4 b" by (simp only: e Extension.simps append_take_drop_id)
  ultimately show "extension_ok e \<and> b = extension_bytes e @ rest"
    using read16_below [of "drop 2 b"] by (simp add: extension_bytes_def extension_ok_def e(3))
qed (simp add: extension_bytes_def)

lemma extensionsLen_Inr:
  "n \<le> 0xFFFF \<Longrightarrow> extensionsLen exts n = Inr k \<longleftrightarrow>
     k = n + length (concat (map extension_bytes exts)) \<and> k \<le> 0xFFFF"
  by (induction exts arbitrary: n) (auto simp: extension_bytes_def)

lemma MarshalExtensions_Inr: "MarshalExtensions exts = Inr b \<longleftrightarrow> extensions_ok exts \<and> b = extensions_bytes exts"
proof (cases "extensionsLen exts 0")
  case (Inl e)
  then have "\<not> extensions_ok exts"
    using extensionsLen_Inr [of 0 exts "length (concat (map extension_bytes exts))"] by (simp add: extensions_ok_def)
  then show ?thesis using Inl by (simp add: MarshalExtensions_def)
next
  case (Inr k)
  then have "k = length (concat (map extension_bytes exts))" "k \<le> 0xFFFF"
    using extensionsLen_Inr [of 0 exts k] by auto
  then show ?thesis using Inr by (auto simp: MarshalExtensions_def extensions_ok_def extensions_bytes_def)
qed

lemma MarshalExtensions_Inl: "MarshalExtensions exts = Inl e \<Longrightarrow> \<not> extensions_ok exts"
  using MarshalExtensions_Inr [of exts "extensions_bytes exts"] by auto

lemma extensions_ok_all: "extensions_ok exts \<Longrightarrow> list_all extension_ok exts"
  by (induction exts) (auto simp: extensions_ok_def extension_ok_def extension_bytes_def)

interpretation extensions: prefix_codec extensions_bytes UnmarshalExtensions extensions_ok
proof unfold_locales
  fix exts rest
  assume ok: "extensions_ok exts"
  show "UnmarshalExtensions (extensions_bytes exts @ rest) = Inr (exts, rest)"
    using ok extension.decode_loop_enc [OF extensions_ok_all [OF ok]]
    by (simp add: UnmarshalExtensions_def extensions_bytes_def extensions_ok_def Let_def)
next
  fix b exts rest
  assume d: "UnmarshalExtensions b = Inr (exts, rest)"
  let ?n = "unat (readUint16 b)"
  have e: "2 \<le> length b" "?n \<le> length (drop 2 b)" "decode_loop decode_extension (take ?n (drop 2 b)) = Inr exts"
    "rest = drop ?n (drop 2 b)"
    using d by (auto simp: UnmarshalExtensions_def Let_def split: if_splits sum.splits)
  then have p: "take ?n (drop 2 b) = concat (map extension_bytes exts)"
    using extension.decode_loop_sound by blast
  have l: "length (concat (map extension_bytes exts)) = ?n"
    using e(2) by (simp flip: p)
  have "len16 ?n @ concat (map extension_bytes exts) @ rest = b"
    unfolding p [symmetric] e(4) append_take_drop_id using split16 [OF e(1)] by simp
  then show "extensions_ok exts \<and> b = extensions_bytes exts @ rest"
    using read16_below [of b] unfolding extensions_ok_def extensions_bytes_def l by simp
qed (simp add: extensions_bytes_def)


section \<open>The messages of an authenticator\<close>

record CertificateEntry =
  CertDER :: bytes
  entry_Extensions :: "Extension list"

record CertificateMessage =
  cm_Context :: bytes
  cm_Entries :: "CertificateEntry list"

fun marshal_entries :: "CertificateEntry list \<Rightarrow> bytes \<Rightarrow> bytes ea_result" where
  "marshal_entries [] listPayload = Inr listPayload"
| "marshal_entries (e # entries) listPayload =
     (if length (CertDER e) = 0 \<or> length (CertDER e) > 0xFFFFFF then Inl ErrInvalidLength
      else case MarshalExtensions (entry_Extensions e) of
        Inl err \<Rightarrow> Inl err
      | Inr extVec \<Rightarrow>
          marshal_entries entries (listPayload @ len24 (length (CertDER e)) @ CertDER e @ extVec))"

definition CertificateMessage_Marshal :: "CertificateMessage \<Rightarrow> bytes ea_result" where
  "CertificateMessage_Marshal m =
     (if length (cm_Context m) > 255 then Inl ErrInvalidLength
      else case marshal_entries (cm_Entries m) [] of
        Inl err \<Rightarrow> Inl err
      | Inr listPayload \<Rightarrow>
          MarshalHandshakeMessage \<lparr>hm_Type = HandshakeTypeCertificate,
            hm_Body = [word_of_nat (length (cm_Context m))] @ cm_Context m @ len24 (length listPayload) @ listPayload\<rparr>)"

text \<open>One iteration of the loop of \<open>UnmarshalCertificateMessage\<close>, on the rest of the list.\<close>

definition decode_entry :: "bytes \<Rightarrow> (CertificateEntry \<times> bytes) ea_result" where
  "decode_entry list =
     (if length list < 3 then Inl ErrTruncated
      else let certLen = unat (readUint24 (take 3 list)); list = drop 3 list in
        if certLen = 0 \<or> certLen > length list then Inl ErrInvalidLength
        else let certDER = take certLen list; list = drop certLen list in
          case UnmarshalExtensions list of
            Inl err \<Rightarrow> Inl err
          | Inr (exts, leftover) \<Rightarrow>
              let consumed = length list - length leftover
              in Inr (\<lparr>CertDER = certDER, entry_Extensions = exts\<rparr>, drop consumed list))"

text \<open>\<open>raw, _ := MarshalHandshakeMessage(hm)\<close>\<close>

definition remarshal :: "HandshakeMessage \<Rightarrow> bytes" where
  "remarshal hm = (case MarshalHandshakeMessage hm of Inl _ \<Rightarrow> [] | Inr raw \<Rightarrow> raw)"

definition UnmarshalCertificateMessage :: "bytes \<Rightarrow> (CertificateMessage \<times> bytes) ea_result" where
  "UnmarshalCertificateMessage handshakeBytes =
     (case UnmarshalHandshakeMessage handshakeBytes of
        Inl err \<Rightarrow> Inl err
      | Inr (hm, rest) \<Rightarrow>
          if length rest \<noteq> 0 \<or> hm_Type hm \<noteq> HandshakeTypeCertificate then Inl ErrInvalidLength
          else if length (hm_Body hm) < 1 then Inl ErrTruncated
          else let ctxLen = unat (hm_Body hm ! 0) in
            if length (hm_Body hm) < 1 + ctxLen + 3 then Inl ErrTruncated
            else let ctx = take ctxLen (drop 1 (hm_Body hm));
                     listLen = unat (readUint24 (take 3 (drop ctxLen (drop 1 (hm_Body hm)))))
              in if length (hm_Body hm) \<noteq> 1 + ctxLen + 3 + listLen then Inl ErrInvalidLength
                 else case decode_loop decode_entry (drop 3 (drop ctxLen (drop 1 (hm_Body hm)))) of
                     Inl err \<Rightarrow> Inl err
                   | Inr entries \<Rightarrow> Inr (\<lparr>cm_Context = ctx, cm_Entries = entries\<rparr>, remarshal hm))"

record CertificateVerifyMessage =
  cv_Algorithm :: "16 word"
  cv_Signature :: bytes

definition CertificateVerifyMessage_Marshal :: "CertificateVerifyMessage \<Rightarrow> bytes ea_result" where
  "CertificateVerifyMessage_Marshal m =
     (if length (cv_Signature m) > 0xFFFF then Inl ErrInvalidLength
      else MarshalHandshakeMessage \<lparr>hm_Type = HandshakeTypeCertificateVerify,
        hm_Body = putUint16 (cv_Algorithm m) @ len16 (length (cv_Signature m)) @ cv_Signature m\<rparr>)"

definition UnmarshalCertificateVerifyMessage :: "bytes \<Rightarrow> (CertificateVerifyMessage \<times> bytes) ea_result" where
  "UnmarshalCertificateVerifyMessage handshakeBytes =
     (case UnmarshalHandshakeMessage handshakeBytes of
        Inl err \<Rightarrow> Inl err
      | Inr (hm, rest) \<Rightarrow>
          if length rest \<noteq> 0 \<or> hm_Type hm \<noteq> HandshakeTypeCertificateVerify then Inl ErrInvalidLength
          else if length (hm_Body hm) < 4 then Inl ErrTruncated
          else let alg = readUint16 (take 2 (hm_Body hm));
                   sigLen = unat (readUint16 (take 2 (drop 2 (hm_Body hm))))
            in if length (hm_Body hm) \<noteq> 4 + sigLen then Inl ErrInvalidLength
               else Inr (\<lparr>cv_Algorithm = alg, cv_Signature = drop 4 (hm_Body hm)\<rparr>, remarshal hm))"

record FinishedMessage =
  fin_VerifyData :: bytes

definition FinishedMessage_Marshal :: "FinishedMessage \<Rightarrow> bytes ea_result" where
  "FinishedMessage_Marshal m =
     (if length (fin_VerifyData m) = 0 then Inl ErrInvalidLength
      else MarshalHandshakeMessage \<lparr>hm_Type = HandshakeTypeFinished, hm_Body = fin_VerifyData m\<rparr>)"

definition UnmarshalFinishedMessage :: "bytes \<Rightarrow> (FinishedMessage \<times> bytes) ea_result" where
  "UnmarshalFinishedMessage handshakeBytes =
     (case UnmarshalHandshakeMessage handshakeBytes of
        Inl err \<Rightarrow> Inl err
      | Inr (hm, rest) \<Rightarrow>
          if length rest \<noteq> 0 \<or> hm_Type hm \<noteq> HandshakeTypeFinished \<or> length (hm_Body hm) = 0
          then Inl ErrInvalidLength
          else Inr (\<lparr>fin_VerifyData = hm_Body hm\<rparr>, remarshal hm))"

record AuthenticatorRequest =
  req_Type :: "8 word"
  req_Context :: bytes
  req_Extensions :: "Extension list"

definition AuthenticatorRequest_Marshal :: "AuthenticatorRequest \<Rightarrow> bytes ea_result" where
  "AuthenticatorRequest_Marshal r =
     (if req_Type r \<noteq> HandshakeTypeCertificateRequest \<and> req_Type r \<noteq> HandshakeTypeClientCertificateRequest
      then Inl ErrUnsupportedHandshakeType
      else if length (req_Context r) > 255 then Inl ErrInvalidLength
      else case MarshalExtensions (req_Extensions r) of
        Inl err \<Rightarrow> Inl err
      | Inr extVec \<Rightarrow>
          MarshalHandshakeMessage \<lparr>hm_Type = req_Type r,
            hm_Body = [word_of_nat (length (req_Context r))] @ req_Context r @ extVec\<rparr>)"

definition UnmarshalAuthenticatorRequest :: "bytes \<Rightarrow> (AuthenticatorRequest \<times> bytes) ea_result" where
  "UnmarshalAuthenticatorRequest handshakeBytes =
     (case UnmarshalHandshakeMessage handshakeBytes of
        Inl err \<Rightarrow> Inl err
      | Inr (hm, rest) \<Rightarrow>
          if hm_Type hm \<noteq> HandshakeTypeCertificateRequest \<and> hm_Type hm \<noteq> HandshakeTypeClientCertificateRequest
          then Inl ErrUnsupportedHandshakeType
          else if length (hm_Body hm) < 1 then Inl ErrTruncated
          else let ctxLen = unat (hm_Body hm ! 0) in
            if length (hm_Body hm) < 1 + ctxLen then Inl ErrTruncated
            else let ctx = take ctxLen (drop 1 (hm_Body hm)) in
              case UnmarshalExtensions (drop ctxLen (drop 1 (hm_Body hm))) of
                Inl err \<Rightarrow> Inl err
              | Inr (exts, leftover) \<Rightarrow>
                  if length leftover \<noteq> 0 then Inl ErrInvalidLength
                  else Inr (\<lparr>req_Type = hm_Type hm, req_Context = ctx, req_Extensions = exts\<rparr>, rest))"


subsection \<open>The decoders accept exactly what the encoders produce\<close>

lemma remarshal_eq: "handshake_ok hm \<Longrightarrow> remarshal hm = handshake_bytes hm"
  using MarshalHandshakeMessage_Inr [of hm "handshake_bytes hm"] by (simp add: remarshal_def)

definition entry_ok :: "CertificateEntry \<Rightarrow> bool" where
  "entry_ok e \<longleftrightarrow> CertDER e \<noteq> [] \<and> length (CertDER e) \<le> 0xFFFFFF \<and> extensions_ok (entry_Extensions e)"

definition entry_bytes :: "CertificateEntry \<Rightarrow> bytes" where
  "entry_bytes e = len24 (length (CertDER e)) @ CertDER e @ extensions_bytes (entry_Extensions e)"

lemma marshal_entries_Inr:
  "marshal_entries es acc = Inr p \<longleftrightarrow> list_all entry_ok es \<and> p = acc @ concat (map entry_bytes es)"
proof (induction es arbitrary: acc)
  case (Cons e es)
  show ?case
  proof (cases "MarshalExtensions (entry_Extensions e)")
    case (Inl err)
    then show ?thesis using MarshalExtensions_Inl [OF Inl] by (simp add: entry_ok_def)
  next
    case (Inr b)
    then have "extensions_ok (entry_Extensions e)" "b = extensions_bytes (entry_Extensions e)"
      using MarshalExtensions_Inr [of "entry_Extensions e" b] by simp_all
    then show ?thesis using Inr by (auto simp: Cons.IH entry_ok_def entry_bytes_def [of e])
  qed
qed auto

interpretation entry: prefix_codec entry_bytes decode_entry entry_ok
proof unfold_locales
  fix e rest
  assume "entry_ok e"
  then show "decode_entry (entry_bytes e @ rest) = Inr (e, rest)"
    by (simp add: decode_entry_def entry_bytes_def entry_ok_def extensions.dec_enc Let_def)
next
  fix b e rest
  assume d: "decode_entry b = Inr (e, rest)"
  let ?n = "unat (readUint24 b)" and ?x = "drop (unat (readUint24 b)) (drop 3 b)"
  obtain exts leftover where e: "3 \<le> length b" "?n \<noteq> 0" "?n \<le> length (drop 3 b)"
    "UnmarshalExtensions ?x = Inr (exts, leftover)"
    "e = \<lparr>CertDER = take ?n (drop 3 b), entry_Extensions = exts\<rparr>" "rest = drop (length ?x - length leftover) ?x"
    using d by (auto simp: decode_entry_def Let_def split: if_splits sum.splits)
  have x: "extensions_ok exts" "?x = extensions_bytes exts @ leftover"
    using extensions.dec_sound [OF e(4)] by auto
  then have "rest = leftover" unfolding e(6) by simp
  have "length (CertDER e) = ?n" using e by simp
  then have "b = entry_bytes e @ rest"
    using split24 [OF e(1)] x(2) append_take_drop_id [of ?n "drop 3 b"]
    by (simp add: entry_bytes_def \<open>rest = leftover\<close> e(5) del: append_take_drop_id drop_drop)
  then show "entry_ok e \<and> b = entry_bytes e @ rest"
    using e x(1) readUint24_bound [of b] by (simp add: entry_ok_def)
qed (simp add: entry_bytes_def)

text \<open>A one-byte length, the context it announces, and the rest.\<close>

definition ctx_bytes :: "bytes \<Rightarrow> bytes" where
  "ctx_bytes ctx = word_of_nat (length ctx) # ctx"

lemma unat_len8 [simp]: "n \<le> 255 \<Longrightarrow> unat (word_of_nat n :: 8 word) = n"
  by (simp add: unsigned_of_nat take_bit_nat_eq_self)

lemma split_ctx:
  fixes body :: bytes
  assumes "1 \<le> length body" and "1 + unat (body ! 0) \<le> length body"
  shows "ctx_bytes (take (unat (body ! 0)) (drop 1 body)) @ drop (unat (body ! 0)) (drop 1 body) = body"
    and "length (take (unat (body ! 0)) (drop 1 body)) \<le> 255"
proof -
  have "unat (body ! 0) < 2 ^ LENGTH(8)" by (rule unsigned_less)
  then have "unat (body ! 0) \<le> 255" by simp
  then show "length (take (unat (body ! 0)) (drop 1 body)) \<le> 255" by simp
  show "ctx_bytes (take (unat (body ! 0)) (drop 1 body)) @ drop (unat (body ! 0)) (drop 1 body) = body"
    using assms by (cases body) (auto simp: ctx_bytes_def min_def)
qed

definition certificate_body :: "CertificateMessage \<Rightarrow> bytes" where
  "certificate_body m = ctx_bytes (cm_Context m)
     @ len24 (length (concat (map entry_bytes (cm_Entries m)))) @ concat (map entry_bytes (cm_Entries m))"

lemma CertificateMessage_Marshal_Inr:
  "CertificateMessage_Marshal m = Inr b \<longleftrightarrow> length (cm_Context m) \<le> 255 \<and> list_all entry_ok (cm_Entries m)
     \<and> length (certificate_body m) \<le> 0xFFFFFF
     \<and> b = handshake_bytes \<lparr>hm_Type = HandshakeTypeCertificate, hm_Body = certificate_body m\<rparr>"
proof (cases "marshal_entries (cm_Entries m) []")
  case (Inl err)
  then have "\<not> list_all entry_ok (cm_Entries m)"
    using marshal_entries_Inr [of "cm_Entries m" "[]" "[] @ concat (map entry_bytes (cm_Entries m))"] by simp
  then show ?thesis using Inl by (simp add: CertificateMessage_Marshal_def)
next
  case (Inr p)
  then have "list_all entry_ok (cm_Entries m)" "p = concat (map entry_bytes (cm_Entries m))"
    using marshal_entries_Inr [of "cm_Entries m" "[]" p] by auto
  then show ?thesis using Inr
    by (auto simp: CertificateMessage_Marshal_def MarshalHandshakeMessage_Inr handshake_ok_def certificate_body_def
        ctx_bytes_def)
qed

lemma UnmarshalCertificateMessage_sound:
  assumes "UnmarshalCertificateMessage b = Inr (m, raw)"
  shows "CertificateMessage_Marshal m = Inr b \<and> raw = b"
proof -
  from assms [unfolded UnmarshalCertificateMessage_def Let_def result_iff read_take]
  obtain hm rest entries where u: "UnmarshalHandshakeMessage b = Inr (hm, rest)"
      "\<not> (length rest \<noteq> 0 \<or> hm_Type hm \<noteq> HandshakeTypeCertificate)"
      "\<not> length (hm_Body hm) < 1" "\<not> length (hm_Body hm) < 1 + unat (hm_Body hm ! 0) + 3"
      "\<not> length (hm_Body hm) \<noteq> 1 + unat (hm_Body hm ! 0) + 3
         + unat (readUint24 (drop (unat (hm_Body hm ! 0)) (drop 1 (hm_Body hm))))"
      "decode_loop decode_entry (drop 3 (drop (unat (hm_Body hm ! 0)) (drop 1 (hm_Body hm)))) = Inr entries"
      "Inr (\<lparr>cm_Context = take (unat (hm_Body hm ! 0)) (drop 1 (hm_Body hm)), cm_Entries = entries\<rparr>, remarshal hm)
         = (Inr (m, raw) :: _ ea_result)"
    by blast
  let ?b = "hm_Body hm" and ?c = "unat (hm_Body hm ! 0)"
  let ?r = "drop ?c (drop 1 ?b)"
  let ?l = "unat (readUint24 ?r)"
  have d: "rest = []" "hm_Type hm = HandshakeTypeCertificate" using u(2) by simp_all
  have l: "1 \<le> length ?b" "1 + ?c + 3 \<le> length ?b" "length ?b = 1 + ?c + 3 + ?l"
    using u(3-5) by (simp_all only: not_less not_not)
  have m: "m = \<lparr>cm_Context = take ?c (drop 1 ?b), cm_Entries = entries\<rparr>" "raw = remarshal hm"
    using u(7) by simp_all
  have hm: "handshake_ok hm" "b = handshake_bytes hm" using handshake.dec_sound [OF u(1)] d(1) by auto
  have e: "list_all entry_ok entries" "drop 3 ?r = concat (map entry_bytes entries)"
    using entry.decode_loop_sound [OF u(6)] by auto
  have "length ?r = length ?b - 1 - ?c" by (simp only: length_drop)
  then have r: "length (drop 3 ?r) = ?l" "3 \<le> length ?r" using l(3) length_drop [of 3 ?r] by linarith+
  have "len24 (length (concat (map entry_bytes entries))) @ concat (map entry_bytes entries) = ?r"
    unfolding e(2) [symmetric] r(1) len_unat by (rule split24 [OF r(2)])
  then have "?b = certificate_body m"
    using split_ctx(1) [of ?b] l(1,2) unfolding certificate_body_def m by simp
  then have "hm = \<lparr>hm_Type = HandshakeTypeCertificate, hm_Body = certificate_body m\<rparr>"
    using d(2) by (intro HandshakeMessage.equality) simp_all
  moreover have "length (cm_Context m) \<le> 255" using split_ctx(2) [of ?b] l(1,2) m by simp
  moreover have "list_all entry_ok (cm_Entries m)" using e(1) m(1) by simp
  ultimately show ?thesis
    using hm m(2) unfolding CertificateMessage_Marshal_Inr by (simp add: handshake_ok_def remarshal_eq)
qed

lemma UnmarshalCertificateMessage_complete:
  assumes "CertificateMessage_Marshal m = Inr b"
  shows "UnmarshalCertificateMessage b = Inr (m, b)"
proof -
  define p body where "p = concat (map entry_bytes (cm_Entries m))" and "body = certificate_body m"
  let ?hm = "\<lparr>hm_Type = HandshakeTypeCertificate, hm_Body = body\<rparr>"
  have m: "length (cm_Context m) \<le> 255" "list_all entry_ok (cm_Entries m)" "handshake_ok ?hm" "b = handshake_bytes ?hm"
    using assms by (auto simp: CertificateMessage_Marshal_Inr handshake_ok_def body_def)
  have b: "body = word_of_nat (length (cm_Context m)) # cm_Context m @ len24 (length p) @ p"
    by (simp add: body_def certificate_body_def ctx_bytes_def p_def)
  then have "length p < 0x1000000" using m(3) by (simp add: handshake_ok_def)
  then have f: "unat (body ! 0) = length (cm_Context m)" "take (length (cm_Context m)) (drop 1 body) = cm_Context m"
    "drop (length (cm_Context m)) (drop 1 body) = len24 (length p) @ p" "unat (readUint24 (len24 (length p) @ p)) = length p"
    "length body = 1 + length (cm_Context m) + 3 + length p" "drop 3 (len24 (length p) @ p) = p"
    using m(1) by (simp_all add: b)
  have d: "UnmarshalHandshakeMessage b = Inr (?hm, [])"
    using handshake.dec_enc [OF m(3), of "[]"] m(4) by simp
  have l: "decode_loop decode_entry p = Inr (cm_Entries m)"
    unfolding p_def by (rule entry.decode_loop_enc [OF m(2)])
  show ?thesis
    unfolding UnmarshalCertificateMessage_def d sum.case prod.case HandshakeMessage.simps Let_def read_take f l
    using remarshal_eq [OF m(3)] m(4) by simp
qed

text \<open>
  C10: the Certificate message codec is exact. A byte string decodes to a message exactly when it is the
  encoding of that message, and the transcript bytes handed on are the bytes received.
\<close>

theorem certificate_message_exact:
  "UnmarshalCertificateMessage b = Inr (m, raw) \<longleftrightarrow> CertificateMessage_Marshal m = Inr b \<and> raw = b"
  using UnmarshalCertificateMessage_sound UnmarshalCertificateMessage_complete by metis

lemma FinishedMessage_Marshal_Inr:
  "FinishedMessage_Marshal m = Inr b \<longleftrightarrow> fin_VerifyData m \<noteq> [] \<and> length (fin_VerifyData m) \<le> 0xFFFFFF
     \<and> b = handshake_bytes \<lparr>hm_Type = HandshakeTypeFinished, hm_Body = fin_VerifyData m\<rparr>"
  by (auto simp: FinishedMessage_Marshal_def MarshalHandshakeMessage_Inr handshake_ok_def)

lemma UnmarshalFinishedMessage_Inr:
  "UnmarshalFinishedMessage b = Inr (m, raw) \<longleftrightarrow> FinishedMessage_Marshal m = Inr b \<and> raw = b"
proof
  assume "UnmarshalFinishedMessage b = Inr (m, raw)"
  from this [unfolded UnmarshalFinishedMessage_def result_iff]
  obtain hm rest where u: "UnmarshalHandshakeMessage b = Inr (hm, rest)"
      "\<not> (length rest \<noteq> 0 \<or> hm_Type hm \<noteq> HandshakeTypeFinished \<or> length (hm_Body hm) = 0)"
      "Inr (\<lparr>fin_VerifyData = hm_Body hm\<rparr>, remarshal hm) = (Inr (m, raw) :: _ ea_result)"
    by blast
  have "handshake_ok hm" "b = handshake_bytes hm" using handshake.dec_sound [OF u(1)] u(2) by auto
  moreover have "hm = \<lparr>hm_Type = HandshakeTypeFinished, hm_Body = fin_VerifyData m\<rparr>"
    using u(2,3) by (intro HandshakeMessage.equality) auto
  ultimately show "FinishedMessage_Marshal m = Inr b \<and> raw = b"
    using u(2,3) unfolding FinishedMessage_Marshal_Inr by (auto simp: handshake_ok_def remarshal_eq)
next
  assume "FinishedMessage_Marshal m = Inr b \<and> raw = b"
  then have m: "fin_VerifyData m \<noteq> []"
      "handshake_ok \<lparr>hm_Type = HandshakeTypeFinished, hm_Body = fin_VerifyData m\<rparr>"
      "b = handshake_bytes \<lparr>hm_Type = HandshakeTypeFinished, hm_Body = fin_VerifyData m\<rparr>" and raw: "raw = b"
    unfolding FinishedMessage_Marshal_Inr by (auto simp: handshake_ok_def)
  have d: "UnmarshalHandshakeMessage b = Inr (\<lparr>hm_Type = HandshakeTypeFinished, hm_Body = fin_VerifyData m\<rparr>, [])"
    using handshake.dec_enc [OF m(2), of "[]"] m(3) by simp
  show "UnmarshalFinishedMessage b = Inr (m, raw)"
    unfolding UnmarshalFinishedMessage_def d using m(1,3) remarshal_eq [OF m(2)] raw by simp
qed

definition certverify_body :: "CertificateVerifyMessage \<Rightarrow> bytes" where
  "certverify_body m = putUint16 (cv_Algorithm m) @ len16 (length (cv_Signature m)) @ cv_Signature m"

lemma CertificateVerifyMessage_Marshal_Inr:
  "CertificateVerifyMessage_Marshal m = Inr b \<longleftrightarrow> length (cv_Signature m) \<le> 0xFFFF
     \<and> b = handshake_bytes \<lparr>hm_Type = HandshakeTypeCertificateVerify, hm_Body = certverify_body m\<rparr>"
  by (auto simp: CertificateVerifyMessage_Marshal_def MarshalHandshakeMessage_Inr handshake_ok_def certverify_body_def)

lemma UnmarshalCertificateVerifyMessage_Inr:
  "UnmarshalCertificateVerifyMessage b = Inr (m, raw) \<longleftrightarrow> CertificateVerifyMessage_Marshal m = Inr b \<and> raw = b"
proof
  assume "UnmarshalCertificateVerifyMessage b = Inr (m, raw)"
  from this [unfolded UnmarshalCertificateVerifyMessage_def Let_def result_iff read_take]
  obtain hm rest where u: "UnmarshalHandshakeMessage b = Inr (hm, rest)"
      "\<not> (length rest \<noteq> 0 \<or> hm_Type hm \<noteq> HandshakeTypeCertificateVerify)" "\<not> length (hm_Body hm) < 4"
      "\<not> length (hm_Body hm) \<noteq> 4 + unat (readUint16 (drop 2 (hm_Body hm)))"
      "Inr (\<lparr>cv_Algorithm = readUint16 (hm_Body hm), cv_Signature = drop 4 (hm_Body hm)\<rparr>, remarshal hm)
         = (Inr (m, raw) :: _ ea_result)"
    by blast
  let ?b = "hm_Body hm"
  have m: "m = \<lparr>cv_Algorithm = readUint16 ?b, cv_Signature = drop 4 ?b\<rparr>" "raw = remarshal hm"
    using u(5) by simp_all
  have hm: "handshake_ok hm" "b = handshake_bytes hm" using handshake.dec_sound [OF u(1)] u(2) by auto
  have l: "length (drop 4 ?b) = unat (readUint16 (drop 2 ?b))" using u(4) length_drop [of 4 ?b] by linarith
  have "putUint16 (readUint16 ?b) @ putUint16 (readUint16 (drop 2 ?b)) @ drop 4 ?b = ?b"
    using split16 [of ?b] split16 [of "drop 2 ?b"] u(3) by simp
  then have "certverify_body m = ?b"
    unfolding certverify_body_def m CertificateVerifyMessage.simps l len_unat .
  then have "hm = \<lparr>hm_Type = HandshakeTypeCertificateVerify, hm_Body = certverify_body m\<rparr>"
    using u(2) by (intro HandshakeMessage.equality) auto
  moreover have "length (cv_Signature m) \<le> 0xFFFF"
    using read16_below [of "drop 2 ?b"] l unfolding m CertificateVerifyMessage.simps by linarith
  ultimately show "CertificateVerifyMessage_Marshal m = Inr b \<and> raw = b"
    using hm m(2) unfolding CertificateVerifyMessage_Marshal_Inr by (simp add: remarshal_eq)
next
  assume "CertificateVerifyMessage_Marshal m = Inr b \<and> raw = b"
  then have m: "length (cv_Signature m) < 0x10000"
      "b = handshake_bytes \<lparr>hm_Type = HandshakeTypeCertificateVerify, hm_Body = certverify_body m\<rparr>" and raw: "raw = b"
    unfolding CertificateVerifyMessage_Marshal_Inr by auto
  then have ok: "handshake_ok \<lparr>hm_Type = HandshakeTypeCertificateVerify, hm_Body = certverify_body m\<rparr>"
    by (simp add: handshake_ok_def certverify_body_def)
  have d: "UnmarshalHandshakeMessage b = Inr (\<lparr>hm_Type = HandshakeTypeCertificateVerify, hm_Body = certverify_body m\<rparr>, [])"
    using handshake.dec_enc [OF ok, of "[]"] m(2) by simp
  have f: "readUint16 (certverify_body m) = cv_Algorithm m"
      "unat (readUint16 (drop 2 (certverify_body m))) = length (cv_Signature m)"
      "drop 4 (certverify_body m) = cv_Signature m" "length (certverify_body m) = 4 + length (cv_Signature m)"
    using m(1) by (simp_all add: certverify_body_def)
  show "UnmarshalCertificateVerifyMessage b = Inr (m, raw)"
    unfolding UnmarshalCertificateVerifyMessage_def d sum.case prod.case HandshakeMessage.simps Let_def read_take f
    using remarshal_eq [OF ok] m(2) raw by simp
qed

text \<open>The request is a prefix of what is received: trailing bytes are handed back.\<close>

definition request_ok :: "AuthenticatorRequest \<Rightarrow> bool" where
  "request_ok r \<longleftrightarrow> req_Type r \<in> {HandshakeTypeCertificateRequest, HandshakeTypeClientCertificateRequest}
     \<and> length (req_Context r) \<le> 255 \<and> extensions_ok (req_Extensions r)"

definition request_bytes :: "AuthenticatorRequest \<Rightarrow> bytes" where
  "request_bytes r = handshake_bytes \<lparr>hm_Type = req_Type r,
     hm_Body = ctx_bytes (req_Context r) @ extensions_bytes (req_Extensions r)\<rparr>"

lemma extensions_bytes_length: "extensions_ok exts \<Longrightarrow> length (extensions_bytes exts) \<le> 0x10001"
  by (simp add: extensions_ok_def extensions_bytes_def)

lemma request_handshake_ok:
  "request_ok r \<Longrightarrow> handshake_ok \<lparr>hm_Type = req_Type r,
     hm_Body = ctx_bytes (req_Context r) @ extensions_bytes (req_Extensions r)\<rparr>"
  using extensions_bytes_length [of "req_Extensions r"] by (simp add: handshake_ok_def request_ok_def ctx_bytes_def)

lemma AuthenticatorRequest_Marshal_Inr:
  "AuthenticatorRequest_Marshal r = Inr b \<longleftrightarrow> request_ok r \<and> b = request_bytes r"
proof (cases "MarshalExtensions (req_Extensions r)")
  case (Inl err)
  then show ?thesis using MarshalExtensions_Inl [OF Inl]
    by (simp add: AuthenticatorRequest_Marshal_def request_ok_def)
next
  case (Inr v)
  then have v: "extensions_ok (req_Extensions r)" "v = extensions_bytes (req_Extensions r)"
    using MarshalExtensions_Inr [of "req_Extensions r" v] by simp_all
  show ?thesis
    using request_handshake_ok [of r] v
    by (auto simp: AuthenticatorRequest_Marshal_def Inr MarshalHandshakeMessage_Inr request_ok_def
        request_bytes_def ctx_bytes_def)
qed

interpretation request: prefix_codec request_bytes UnmarshalAuthenticatorRequest request_ok
proof unfold_locales
  fix r rest
  assume ok: "request_ok r"
  let ?body = "ctx_bytes (req_Context r) @ extensions_bytes (req_Extensions r)"
  have d: "UnmarshalHandshakeMessage (request_bytes r @ rest) = Inr (\<lparr>hm_Type = req_Type r, hm_Body = ?body\<rparr>, rest)"
    unfolding request_bytes_def by (rule handshake.dec_enc [OF request_handshake_ok [OF ok]])
  have f: "unat (?body ! 0) = length (req_Context r)" "take (length (req_Context r)) (drop 1 ?body) = req_Context r"
    "drop (length (req_Context r)) (drop 1 ?body) = extensions_bytes (req_Extensions r)"
    using ok by (simp_all add: ctx_bytes_def request_ok_def)
  have e: "UnmarshalExtensions (extensions_bytes (req_Extensions r)) = Inr (req_Extensions r, [])"
    using extensions.dec_enc [of "req_Extensions r" "[]"] ok by (simp add: request_ok_def)
  have n: "\<not> length ?body < 1" "\<not> length ?body < 1 + length (req_Context r)" by (simp_all add: ctx_bytes_def)
  show "UnmarshalAuthenticatorRequest (request_bytes r @ rest) = Inr (r, rest)"
    unfolding UnmarshalAuthenticatorRequest_def d sum.case prod.case HandshakeMessage.simps Let_def f e
      if_not_P [OF n(1)] if_not_P [OF n(2)]
    using ok by (simp add: request_ok_def)
next
  fix b r rest
  assume "UnmarshalAuthenticatorRequest b = Inr (r, rest)"
  from this [unfolded UnmarshalAuthenticatorRequest_def Let_def result_iff]
  obtain hm rest' exts leftover where u: "UnmarshalHandshakeMessage b = Inr (hm, rest')"
      "\<not> (hm_Type hm \<noteq> HandshakeTypeCertificateRequest \<and> hm_Type hm \<noteq> HandshakeTypeClientCertificateRequest)"
      "\<not> length (hm_Body hm) < 1" "\<not> length (hm_Body hm) < 1 + unat (hm_Body hm ! 0)"
      "UnmarshalExtensions (drop (unat (hm_Body hm ! 0)) (drop 1 (hm_Body hm))) = Inr (exts, leftover)"
      "\<not> length leftover \<noteq> 0"
      "Inr (\<lparr>req_Type = hm_Type hm, req_Context = take (unat (hm_Body hm ! 0)) (drop 1 (hm_Body hm)),
         req_Extensions = exts\<rparr>, rest') = (Inr (r, rest) :: _ ea_result)"
    by blast
  let ?b = "hm_Body hm" and ?c = "unat (hm_Body hm ! 0)"
  have r: "r = \<lparr>req_Type = hm_Type hm, req_Context = take ?c (drop 1 ?b), req_Extensions = exts\<rparr>" "rest = rest'"
    using u(7) by simp_all
  have e: "extensions_ok exts" "drop ?c (drop 1 ?b) = extensions_bytes exts"
    using extensions.dec_sound [OF u(5)] u(6) by auto
  have c: "1 \<le> length ?b" "1 + ?c \<le> length ?b" using u(3,4) by (simp_all only: not_less)
  have "?b = ctx_bytes (req_Context r) @ extensions_bytes (req_Extensions r)"
    using split_ctx(1) [OF c] unfolding r e(2) by simp
  then have "hm = \<lparr>hm_Type = req_Type r, hm_Body = ctx_bytes (req_Context r) @ extensions_bytes (req_Extensions r)\<rparr>"
    by (intro HandshakeMessage.equality) (simp_all add: r(1))
  moreover have "request_ok r"
    using u(2) split_ctx(2) [OF c] e(1) unfolding request_ok_def r by auto
  ultimately show "request_ok r \<and> b = request_bytes r @ rest"
    using handshake.dec_sound [OF u(1)] r(2) by (simp add: request_bytes_def)
qed (simp add: request_bytes_def handshake_bytes_def)

text \<open>
  C11: an authenticator request decodes from the front of a byte string exactly when its encoding is a prefix
  of it, and the bytes after the prefix are handed back.
\<close>

theorem authenticator_request_exact:
  "UnmarshalAuthenticatorRequest b = Inr (r, rest) \<longleftrightarrow> (\<exists>p. AuthenticatorRequest_Marshal r = Inr p \<and> b = p @ rest)"
  by (auto simp: request.dec_iff AuthenticatorRequest_Marshal_Inr)


section \<open>The extensions of a request\<close>

abbreviation (input) SignatureAlgorithmsExtensionType :: "16 word" where "SignatureAlgorithmsExtensionType \<equiv> 0x000d"
abbreviation (input) CertificateAuthoritiesExtensionType :: "16 word" where
  "CertificateAuthoritiesExtensionType \<equiv> 0x002f"
abbreviation (input) SignatureAlgorithmsCertExtensionType :: "16 word" where
  "SignatureAlgorithmsCertExtensionType \<equiv> 0x0032"
abbreviation (input) CMWAttestationExtensionType :: "16 word" where "CMWAttestationExtensionType \<equiv> 0xFF00"

text \<open>\<open>for _, e := range exts\<close> with \<open>continue\<close> on every other type: the first extension of that type.\<close>

definition first_extension :: "16 word \<Rightarrow> Extension list \<Rightarrow> Extension option" where
  "first_extension typ exts = find (\<lambda>e. ext_Type e = typ) exts"

fun read16s :: "bytes \<Rightarrow> 16 word list" where
  "read16s (x # y # b) = readUint16 [x, y] # read16s b"
| "read16s _ = []"

definition parseSignatureSchemesExtension :: "Extension list \<Rightarrow> 16 word \<Rightarrow> 16 word list option" where
  "parseSignatureSchemesExtension exts typ =
     (case first_extension typ exts of
        None \<Rightarrow> None
      | Some e \<Rightarrow>
          if length (ext_Data e) < 2 then None
          else let vecLen = unat (readUint16 (take 2 (ext_Data e))) in
            if vecLen < 2 \<or> vecLen mod 2 \<noteq> 0 \<or> length (ext_Data e) \<noteq> 2 + vecLen then None
            else Some (read16s (drop 2 (ext_Data e))))"

definition SignatureSchemes :: "AuthenticatorRequest \<Rightarrow> 16 word list option" where
  "SignatureSchemes r = parseSignatureSchemesExtension (req_Extensions r) SignatureAlgorithmsExtensionType"

definition SignatureSchemesCert :: "AuthenticatorRequest \<Rightarrow> 16 word list option" where
  "SignatureSchemesCert r = parseSignatureSchemesExtension (req_Extensions r) SignatureAlgorithmsCertExtensionType"

definition marshalSignatureSchemesExtension :: "16 word \<Rightarrow> 16 word list \<Rightarrow> Extension ea_result" where
  "marshalSignatureSchemesExtension typ schemes =
     (if length schemes = 0 then Inl ErrInvalidLength
      else if length schemes > 0x7fff then Inl ErrInvalidLength
      else Inr \<lparr>ext_Type = typ, ext_Data = len16 (2 * length schemes) @ concat (map putUint16 schemes)\<rparr>)"

definition SignatureAlgorithmsExtension :: "16 word list \<Rightarrow> Extension ea_result" where
  "SignatureAlgorithmsExtension schemes = marshalSignatureSchemesExtension SignatureAlgorithmsExtensionType schemes"

definition SignatureAlgorithmsCertExtension :: "16 word list \<Rightarrow> Extension ea_result" where
  "SignatureAlgorithmsCertExtension schemes =
     marshalSignatureSchemesExtension SignatureAlgorithmsCertExtensionType schemes"

text \<open>One name of the certificate_authorities vector; \<open>()\<close> is the failure (\<open>nil, false\<close>).\<close>

definition decode_authority :: "bytes \<Rightarrow> unit + bytes \<times> bytes" where
  "decode_authority b =
     (if length b < 2 then Inl ()
      else let l = unat (readUint16 (take 2 b)); b = drop 2 b in
        if l = 0 \<or> l > length b then Inl () else Inr (take l b, drop l b))"

definition CertificateAuthorities :: "AuthenticatorRequest \<Rightarrow> bytes list option" where
  "CertificateAuthorities r =
     (case first_extension CertificateAuthoritiesExtensionType (req_Extensions r) of
        None \<Rightarrow> None
      | Some e \<Rightarrow>
          if length (ext_Data e) < 2 then None
          else let total = unat (readUint16 (take 2 (ext_Data e))) in
            if total < 3 \<or> length (ext_Data e) \<noteq> 2 + total then None
            else case decode_loop decode_authority (drop 2 (ext_Data e)) of Inl _ \<Rightarrow> None | Inr out \<Rightarrow> Some out)"

definition CMWAttestationOfferExtension :: Extension where
  "CMWAttestationOfferExtension = \<lparr>ext_Type = CMWAttestationExtensionType, ext_Data = []\<rparr>"

definition cmwAttestationLengthBytes :: nat where "cmwAttestationLengthBytes = 2"

definition CMWAttestationDataExtension :: "bytes \<Rightarrow> Extension ea_result" where
  "CMWAttestationDataExtension cmw =
     (if length cmw = 0 \<or> length cmw + cmwAttestationLengthBytes > 0xFFFF then Inl ErrInvalidLength
      else Inr \<lparr>ext_Type = CMWAttestationExtensionType, ext_Data = len16 (length cmw) @ cmw\<rparr>)"

text \<open>\<open>(nil, false, nil)\<close> is \<open>Inr None\<close>, \<open>(cmw, true, nil)\<close> is \<open>Inr (Some cmw)\<close>, \<open>(nil, true, err)\<close> is \<open>Inl err\<close>.\<close>

definition ExtractCMWAttestationFromExtensions :: "Extension list \<Rightarrow> bytes option ea_result" where
  "ExtractCMWAttestationFromExtensions exts =
     (case first_extension CMWAttestationExtensionType exts of
        None \<Rightarrow> Inr None
      | Some e \<Rightarrow>
          if length (ext_Data e) < 2 then Inl ErrInvalidLength
          else let l = unat (readUint16 (take 2 (ext_Data e))) in
            if l = 0 \<or> l \<noteq> length (ext_Data e) - 2 then Inl ErrInvalidLength
            else Inr (Some (drop 2 (ext_Data e))))"

text \<open>The loop over the entries; \<open>i\<close> is the index of the first entry left.\<close>

fun validate_placement :: "nat \<Rightarrow> CertificateEntry list \<Rightarrow> ea_error option" where
  "validate_placement i [] = None"
| "validate_placement i (entry # entries) =
     (if list_ex (\<lambda>ext. ext_Type ext = CMWAttestationExtensionType \<and> i \<noteq> 0) (entry_Extensions entry)
      then Some ErrBadRequest
      else validate_placement (i + 1) entries)"

definition ValidateCMWAttestationPlacement :: "CertificateEntry list \<Rightarrow> ea_error option" where
  "ValidateCMWAttestationPlacement entries = validate_placement 0 entries"


subsection \<open>Their round trips\<close>

lemma read16s_put [simp]: "read16s (concat (map putUint16 ws)) = ws"
proof (induction ws)
  case (Cons w ws)
  then show ?case using readUint16_put [of w "[]"] by (simp add: putUint16_def)
qed simp

lemma put_read16s: "even (length b) \<Longrightarrow> concat (map putUint16 (read16s b)) = b"
proof (induction b rule: read16s.induct)
  case (1 x y b)
  then show ?case by (simp add: putUint16_read)
qed auto

lemma read16s_length: "even (length b) \<Longrightarrow> 2 * length (read16s b) = length b"
  by (induction b rule: read16s.induct) auto

lemma concat_put_length [simp]: "length (concat (map putUint16 ws)) = 2 * length ws"
  by (induction ws) auto

text \<open>
  A signature_algorithms extension is read exactly as it is written. The schemes read from a list of
  extensions are those whose encoding is the first extension of that type.
\<close>

lemma signature_schemes_exact:
  "parseSignatureSchemesExtension exts typ = Some schemes \<longleftrightarrow>
     (\<exists>e. first_extension typ exts = Some e \<and> marshalSignatureSchemesExtension typ schemes = Inr e)"
proof (cases "first_extension typ exts")
  case None
  then show ?thesis by (simp add: parseSignatureSchemesExtension_def)
next
  case (Some e)
  let ?d = "ext_Data e"
  let ?n = "unat (readUint16 (ext_Data e))"
  have t: "ext_Type e = typ" using Some by (auto simp: first_extension_def find_Some_iff)
  have b: "?n < 0x10000" by (rule read16_below)
  show ?thesis
  proof
    assume "parseSignatureSchemesExtension exts typ = Some schemes"
    then have p: "2 \<le> length ?d" "2 \<le> ?n" "?n mod 2 = 0" "length ?d = 2 + ?n" "schemes = read16s (drop 2 ?d)"
      by (auto simp: parseSignatureSchemesExtension_def Some Let_def split: if_splits)
    have l: "2 * length schemes = ?n" using p read16s_length [of "drop 2 ?d"] by (simp add: even_iff_mod_2_eq_zero)
    have "concat (map putUint16 schemes) = drop 2 ?d"
      using p put_read16s [of "drop 2 ?d"] by (simp add: even_iff_mod_2_eq_zero)
    then have "len16 (2 * length schemes) @ concat (map putUint16 schemes) = ?d"
      using split16 [OF p(1)] unfolding l len_unat by simp
    then have "e = \<lparr>ext_Type = typ, ext_Data = len16 (2 * length schemes) @ concat (map putUint16 schemes)\<rparr>"
      by (intro Extension.equality) (simp_all add: t)
    moreover have "schemes \<noteq> []" "length schemes \<le> 0x7fff" using l p(2) b by auto
    ultimately show "\<exists>e. first_extension typ exts = Some e \<and> marshalSignatureSchemesExtension typ schemes = Inr e"
      using Some by (auto simp: marshalSignatureSchemesExtension_def)
  next
    assume "\<exists>e. first_extension typ exts = Some e \<and> marshalSignatureSchemesExtension typ schemes = Inr e"
    then have m: "2 * length schemes < 0x10000" "?d = len16 (2 * length schemes) @ concat (map putUint16 schemes)"
        "schemes \<noteq> []"
      using Some by (auto simp: marshalSignatureSchemesExtension_def split: if_splits)
    have "?n = 2 * length schemes" unfolding m(2) by (rule read_lens(1) [OF m(1)])
    moreover have "2 \<le> 2 * length schemes" using m(3) by (cases schemes) auto
    moreover have "length ?d = 2 + 2 * length schemes" "drop 2 ?d = concat (map putUint16 schemes)"
      unfolding m(2) by simp_all
    ultimately show "parseSignatureSchemesExtension exts typ = Some schemes"
      using m(3) by (simp add: parseSignatureSchemesExtension_def Some Let_def)
  qed
qed

text \<open>The certificate_authorities vector.\<close>

definition authority_bytes :: "bytes \<Rightarrow> bytes" where
  "authority_bytes d = len16 (length d) @ d"

interpretation authority: prefix_codec authority_bytes decode_authority "\<lambda>d. d \<noteq> [] \<and> length d < 0x10000"
proof unfold_locales
  fix d rest :: bytes
  assume "d \<noteq> [] \<and> length d < 0x10000"
  then show "decode_authority (authority_bytes d @ rest) = Inr (d, rest)"
    by (simp add: decode_authority_def authority_bytes_def Let_def)
next
  fix b d rest
  assume a: "decode_authority b = Inr (d, rest)"
  let ?l = "unat (readUint16 b)"
  have u: "2 \<le> length b" "?l \<noteq> 0" "?l \<le> length (drop 2 b)" "d = take ?l (drop 2 b)" "rest = drop ?l (drop 2 b)"
    using a by (auto simp: decode_authority_def Let_def split: if_splits)
  have l: "length d = ?l" using u(3,4) by simp
  have "d @ rest = drop 2 b" by (simp only: u(4,5) append_take_drop_id)
  then have "authority_bytes d @ rest = b"
    using split16 [OF u(1)] unfolding authority_bytes_def l len_unat by simp
  moreover have "d \<noteq> []" using l u(2) by auto
  ultimately show "(d \<noteq> [] \<and> length d < 0x10000) \<and> b = authority_bytes d @ rest"
    using read16_below [of b] l by simp
qed (simp add: authority_bytes_def)

lemma CertificateAuthorities_sound:
  assumes "CertificateAuthorities r = Some names"
  shows "\<exists>e. first_extension CertificateAuthoritiesExtensionType (req_Extensions r) = Some e
    \<and> ext_Data e = len16 (length (concat (map authority_bytes names))) @ concat (map authority_bytes names)
    \<and> names \<noteq> [] \<and> (\<forall>n \<in> set names. n \<noteq> [])"
proof -
  obtain e where e: "first_extension CertificateAuthoritiesExtensionType (req_Extensions r) = Some e"
      "2 \<le> length (ext_Data e)" "3 \<le> unat (readUint16 (ext_Data e))"
      "length (ext_Data e) = 2 + unat (readUint16 (ext_Data e))"
      "decode_loop decode_authority (drop 2 (ext_Data e)) = Inr names"
    using assms by (auto simp: CertificateAuthorities_def Let_def split: option.splits if_splits sum.splits)
  then have d: "drop 2 (ext_Data e) = concat (map authority_bytes names)" "\<forall>n \<in> set names. n \<noteq> []"
    using authority.decode_loop_sound [OF e(5)] by (auto simp: list_all_iff)
  have l: "length (drop 2 (ext_Data e)) = unat (readUint16 (ext_Data e))"
    using e(4) length_drop [of 2 "ext_Data e"] by linarith
  have "len16 (length (concat (map authority_bytes names))) @ concat (map authority_bytes names) = ext_Data e"
    using split16 [OF e(2)] unfolding d(1) [symmetric] l len_unat .
  moreover have "names \<noteq> []" using l e(3) d(1) by auto
  ultimately show ?thesis using e(1) d(2) by auto
qed

text \<open>
  A CMW attestation is read exactly as it is written: the payload found in the extensions of an entry is
  the one whose encoding is the first CMW extension there.
\<close>

lemma cmw_extension_exact:
  assumes "extensions_ok exts"
  shows "ExtractCMWAttestationFromExtensions exts = Inr (Some cmw) \<longleftrightarrow>
    (\<exists>e. first_extension CMWAttestationExtensionType exts = Some e \<and> CMWAttestationDataExtension cmw = Inr e)"
proof (cases "first_extension CMWAttestationExtensionType exts")
  case None
  then show ?thesis by (simp add: ExtractCMWAttestationFromExtensions_def)
next
  case (Some e)
  let ?d = "ext_Data e"
  have t: "ext_Type e = CMWAttestationExtensionType" "e \<in> set exts"
    using Some by (auto simp: first_extension_def find_Some_iff)
  then have ok: "length ?d < 0x10000" using extensions_ok_all [OF assms] by (auto simp: list_all_iff extension_ok_def)
  show ?thesis
  proof
    assume "ExtractCMWAttestationFromExtensions exts = Inr (Some cmw)"
    then have p: "2 \<le> length ?d" "unat (readUint16 ?d) \<noteq> 0" "unat (readUint16 ?d) = length ?d - 2" "cmw = drop 2 ?d"
      by (auto simp: ExtractCMWAttestationFromExtensions_def Some Let_def split: if_splits)
    have l: "length cmw = unat (readUint16 ?d)" using p by simp
    have "len16 (length cmw) @ cmw = ?d" using split16 [OF p(1)] unfolding p(4) [symmetric] l len_unat .
    then have "e = \<lparr>ext_Type = CMWAttestationExtensionType, ext_Data = len16 (length cmw) @ cmw\<rparr>"
      using t(1) by (intro Extension.equality) simp_all
    moreover have "length cmw \<noteq> 0" "length cmw + 2 \<le> 0xFFFF" using l p(1-3) ok by linarith+
    ultimately show "\<exists>e. first_extension CMWAttestationExtensionType exts = Some e
        \<and> CMWAttestationDataExtension cmw = Inr e"
      using Some by (simp add: CMWAttestationDataExtension_def cmwAttestationLengthBytes_def)
  next
    assume "\<exists>e. first_extension CMWAttestationExtensionType exts = Some e \<and> CMWAttestationDataExtension cmw = Inr e"
    then have m: "cmw \<noteq> []" "length cmw < 0x10000" "?d = len16 (length cmw) @ cmw"
      using Some by (auto simp: CMWAttestationDataExtension_def cmwAttestationLengthBytes_def split: if_splits)
    then show "ExtractCMWAttestationFromExtensions exts = Inr (Some cmw)"
      by (simp add: ExtractCMWAttestationFromExtensions_def Some Let_def)
  qed
qed

theorem cmw_extension_exact_witness:
  "ExtractCMWAttestationFromExtensions [\<lparr>ext_Type = CMWAttestationExtensionType, ext_Data = [0, 1, 7]\<rparr>]
     = Inr (Some [7])"
proof -
  have "extensions_ok [\<lparr>ext_Type = CMWAttestationExtensionType, ext_Data = [0, 1, 7]\<rparr>]"
    by (simp add: extensions_ok_def extension_bytes_def)
  from cmw_extension_exact [OF this, of "[7]"] show ?thesis
    by (simp add: first_extension_def CMWAttestationDataExtension_def cmwAttestationLengthBytes_def putUint16_def)
qed

lemma ValidateCMWAttestationPlacement_None:
  "ValidateCMWAttestationPlacement entries = None \<longleftrightarrow>
     (\<forall>entry \<in> set (tl entries). \<forall>ext \<in> set (entry_Extensions entry). ext_Type ext \<noteq> CMWAttestationExtensionType)"
proof (cases entries)
  case (Cons e es)
  have "validate_placement (Suc i) es = None \<longleftrightarrow>
     (\<forall>entry \<in> set es. \<forall>ext \<in> set (entry_Extensions entry). ext_Type ext \<noteq> CMWAttestationExtensionType)" for i
    by (induction es arbitrary: i) (auto simp: list_ex_iff)
  then show ?thesis by (simp add: ValidateCMWAttestationPlacement_def Cons list_ex_iff)
qed (simp add: ValidateCMWAttestationPlacement_def)

end
