(* ===== verification/TLS_Base.thy ===== *)
theory TLS_Base
  imports Go_Base
begin

text \<open>
  What the sources use of \<open>crypto\<close>, \<open>crypto/tls\<close> and \<open>crypto/x509\<close>. Cryptographic functions are
  parameters: a record \<open>primitives\<close> of functions, about which only named hypotheses are ever assumed. A
  connection state carries its exporter as a function.
\<close>

datatype hash_alg = SHA256 | SHA384 | SHA512

fun hash_size :: "hash_alg \<Rightarrow> nat" where
  "hash_size SHA256 = 32"
| "hash_size SHA384 = 48"
| "hash_size SHA512 = 64"

abbreviation (input) VersionTLS13 :: "16 word" where "VersionTLS13 \<equiv> 0x0304"
abbreviation (input) TLS_AES_128_GCM_SHA256 :: "16 word" where "TLS_AES_128_GCM_SHA256 \<equiv> 0x1301"
abbreviation (input) TLS_AES_256_GCM_SHA384 :: "16 word" where "TLS_AES_256_GCM_SHA384 \<equiv> 0x1302"
abbreviation (input) TLS_CHACHA20_POLY1305_SHA256 :: "16 word" where "TLS_CHACHA20_POLY1305_SHA256 \<equiv> 0x1303"

text \<open>
  \<open>tls.ConnectionState\<close>: \<open>ExportKeyingMaterial label context length\<close> fails or returns bytes. In TLS 1.3 an
  absent context and an empty one export the same value, so \<open>nil\<close> is the empty list.
\<close>

record tls_state =
  Version :: "16 word"
  CipherSuite :: "16 word"
  ExportKeyingMaterial :: "string \<Rightarrow> bytes \<Rightarrow> nat \<Rightarrow> string + bytes"

text \<open>A parsed certificate: its bytes, its SubjectPublicKeyInfo and its public key.\<close>

record 'k certificate =
  cert_Raw :: bytes
  RawSubjectPublicKeyInfo :: bytes
  cert_PublicKey :: 'k

record primitives =
  digest :: "hash_alg \<Rightarrow> bytes \<Rightarrow> bytes"
  hmac :: "hash_alg \<Rightarrow> bytes \<Rightarrow> bytes \<Rightarrow> bytes"

text \<open>\<open>encoding/hex\<close>\<close>

definition hex_digit :: "nat \<Rightarrow> char" where
  "hex_digit n = ''0123456789abcdef'' ! n"

definition hex_byte :: "byte \<Rightarrow> string" where
  "hex_byte b = [hex_digit (unat b div 16), hex_digit (unat b mod 16)]"

definition EncodeToString :: "bytes \<Rightarrow> string" where
  "EncodeToString bs = concat (map hex_byte bs)"

lemma hex_digit_inj: "hex_digit m = hex_digit n \<Longrightarrow> m < 16 \<Longrightarrow> n < 16 \<Longrightarrow> m = n"
proof -
  assume a: "hex_digit m = hex_digit n" "m < 16" "n < 16"
  have "distinct ''0123456789abcdef''" by simp
  from nth_eq_iff_index_eq [OF this, of m n] a show "m = n" by (simp add: hex_digit_def)
qed

lemma hex_byte_inj: "hex_byte a = hex_byte b \<Longrightarrow> a = b"
proof -
  assume h: "hex_byte a = hex_byte b"
  have u: "unat x < 2 ^ LENGTH(8)" for x :: byte by (rule unsigned_less)
  have "unat x div 16 < 16" "unat x mod 16 < 16" for x :: byte using u [of x] by (simp_all add: less_mult_imp_div_less)
  then have "unat a div 16 = unat b div 16" "unat a mod 16 = unat b mod 16"
    using h hex_digit_inj by (auto simp: hex_byte_def)
  then have "unat a = unat b" by (metis div_mult_mod_eq)
  then show "a = b" by (rule unsigned_word_eqI)
qed

lemma EncodeToString_inj: "EncodeToString a = EncodeToString b \<Longrightarrow> a = b"
proof (induction a arbitrary: b)
  case Nil
  then show ?case by (cases b) (auto simp: EncodeToString_def hex_byte_def)
next
  case (Cons x xs)
  then show ?case
    by (cases b) (auto simp: EncodeToString_def hex_byte_def intro: hex_byte_inj)
qed

end
