(* ===== verification/EA_Attestation.thy ===== *)
theory EA_Attestation
  imports TLS_Base
begin

text \<open>
  The attestation payload of an exported authenticator and its binding to the TLS session,
  \<open>pkg/atls/eaattestation\<close> (\<open>types.go\<close>, \<open>binding.go\<close>, \<open>verify.go\<close>). JSON decoding of a payload and the
  platform verifiers are parameters.
\<close>

datatype att_error =
    ErrMalformedPayload | ErrMissingStatement | ErrMissingBinder | ErrAIKPubHashMismatch | ErrBindingMismatch
  | ErrUnexpectedExporterLabel | ErrMissingAttestation | ErrEvidenceVerificationMissing
  | ErrResultsVerificationMissing | ErrNotTLS13_att | ErrUnknownCipherSuite_att | ErrNilLeaf | ErrAttForeign string

type_synonym 'a att_result = "att_error + 'a"


subsection \<open>Payloads\<close>

record AttestationBinder =
  ExporterLabel :: string
  AIKPubHash :: bytes
  BinderBinding :: bytes

record Payload =
  PayloadVersion :: int
  MediaType :: string
  Evidence :: bytes
  AttestationResults :: bytes
  Binder :: AttestationBinder

record EvidenceBinding =
  ReportData :: bytes
  EvidenceNonce :: bytes
  EvidenceBindingValue :: bytes
  ExportedValue :: bytes

record VerifiedPayload =
  VP_Payload :: Payload
  EvidenceVerified :: bool
  ResultsVerified :: bool
  BindingVerified :: bool
  UsedExporterLabel :: string
  VP_Binding :: EvidenceBinding

definition Payload_Validate :: "Payload option \<Rightarrow> att_error option" where
  "Payload_Validate q =
     (case q of
        None \<Rightarrow> Some ErrMalformedPayload
      | Some p \<Rightarrow>
          if length (Evidence p) = 0 \<and> length (AttestationResults p) = 0 then Some ErrMissingStatement
          else if length (AIKPubHash (Binder p)) = 0 \<or> length (BinderBinding (Binder p)) = 0
          then Some ErrMissingBinder
          else None)"

definition NormalizedExporterLabel :: "Payload option \<Rightarrow> string \<Rightarrow> string" where
  "NormalizedExporterLabel q defaultLabel =
     (case q of
        None \<Rightarrow> defaultLabel
      | Some p \<Rightarrow> if ExporterLabel (Binder p) = '''' then defaultLabel else ExporterLabel (Binder p))"

definition VerifyExporterLabel :: "Payload option \<Rightarrow> string \<Rightarrow> att_error option" where
  "VerifyExporterLabel q expectedLabel =
     (case q of
        None \<Rightarrow> Some ErrMalformedPayload
      | Some p \<Rightarrow>
          if ExporterLabel (Binder p) \<noteq> '''' \<and> ExporterLabel (Binder p) \<noteq> expectedLabel
          then Some ErrUnexpectedExporterLabel
          else None)"

text \<open>\<open>json_marshal\<close> and \<open>json_unmarshal\<close> stand for \<open>encoding/json\<close> on \<open>Payload\<close>.\<close>

definition MarshalPayload :: "(Payload \<Rightarrow> bytes att_result) \<Rightarrow> Payload \<Rightarrow> bytes att_result" where
  "MarshalPayload json_marshal p =
     (case Payload_Validate (Some p) of
        Some e \<Rightarrow> Inl e
      | None \<Rightarrow>
          let p = (if PayloadVersion p = 0 then p\<lparr>PayloadVersion := 1\<rparr> else p) in json_marshal p)"

definition ParsePayload :: "(bytes \<Rightarrow> Payload option) \<Rightarrow> bytes \<Rightarrow> Payload att_result" where
  "ParsePayload json_unmarshal raw =
     (if length raw = 0 then Inl ErrMalformedPayload
      else case json_unmarshal raw of
        None \<Rightarrow> Inl ErrMalformedPayload
      | Some p \<Rightarrow> (case Payload_Validate (Some p) of Some e \<Rightarrow> Inl e | None \<Rightarrow> Inr p))"


subsection \<open>The binding to the session\<close>

abbreviation (input) ExporterLabelAttestation :: string where "ExporterLabelAttestation \<equiv> ''Attestation''"

definition ExportedAttestationValueLen :: nat where "ExportedAttestationValueLen = 32"

definition att_authenticatorHashTLS13 :: "16 word \<Rightarrow> hash_alg att_result" where
  "att_authenticatorHashTLS13 cipherSuite =
     (if cipherSuite = TLS_AES_128_GCM_SHA256 \<or> cipherSuite = TLS_CHACHA20_POLY1305_SHA256 then Inr SHA256
      else if cipherSuite = TLS_AES_256_GCM_SHA384 then Inr SHA384
      else Inl ErrUnknownCipherSuite_att)"

definition ExportAttestationValue :: "tls_state \<Rightarrow> string \<Rightarrow> bytes \<Rightarrow> (bytes \<times> hash_alg) att_result" where
  "ExportAttestationValue st label contextValue =
     (if Version st \<noteq> VersionTLS13 then Inl ErrNotTLS13_att
      else case att_authenticatorHashTLS13 (CipherSuite st) of
        Inl e \<Rightarrow> Inl e
      | Inr h \<Rightarrow>
          (case ExportKeyingMaterial st label contextValue ExportedAttestationValueLen of
             Inl e \<Rightarrow> Inl (ErrAttForeign e)
           | Inr out \<Rightarrow> Inr (out, h)))"

text \<open>\<open>pkix\<close> stands for \<open>x509.MarshalPKIXPublicKey\<close>.\<close>

definition PublicKeyBytes :: "('k \<Rightarrow> string + bytes) \<Rightarrow> 'k certificate option \<Rightarrow> bytes att_result" where
  "PublicKeyBytes pkix leaf =
     (case leaf of
        None \<Rightarrow> Inl ErrNilLeaf
      | Some c \<Rightarrow>
          if length (RawSubjectPublicKeyInfo c) > 0 then Inr (RawSubjectPublicKeyInfo c)
          else case pkix (cert_PublicKey c) of Inl e \<Rightarrow> Inl (ErrAttForeign e) | Inr b \<Rightarrow> Inr b)"

definition AIKPublicKeyHash :: "primitives \<Rightarrow> hash_alg \<Rightarrow> bytes \<Rightarrow> bytes" where
  "AIKPublicKeyHash pr h pubKey = digest pr h pubKey"

definition BindingValue :: "primitives \<Rightarrow> hash_alg \<Rightarrow> bytes \<Rightarrow> bytes \<Rightarrow> bytes" where
  "BindingValue pr h pubKey exportedValue = digest pr h (pubKey @ exportedValue)"

definition ComputeBinding ::
    "primitives \<Rightarrow> ('k \<Rightarrow> string + bytes) \<Rightarrow> tls_state \<Rightarrow> string \<Rightarrow> bytes \<Rightarrow> 'k certificate option
     \<Rightarrow> (bytes \<times> bytes \<times> bytes) att_result" where
  "ComputeBinding pr pkix st label certificateRequestContext leaf =
     (case ExportAttestationValue st label certificateRequestContext of
        Inl e \<Rightarrow> Inl e
      | Inr (exportedValue, h) \<Rightarrow>
          (case PublicKeyBytes pkix leaf of
             Inl e \<Rightarrow> Inl e
           | Inr pub \<Rightarrow> Inr (exportedValue, AIKPublicKeyHash pr h pub, BindingValue pr h pub exportedValue)))"


subsection \<open>Verification\<close>

type_synonym evidence_check = "bytes \<Rightarrow> EvidenceBinding \<Rightarrow> att_error option"

record VerificationPolicy =
  EvidenceVerifier :: "evidence_check option" \<comment> \<open>\<open>None\<close> is the nil interface\<close>
  ResultsVerifier :: "evidence_check option"

definition RequiresAttestation :: "VerificationPolicy \<Rightarrow> bool" where
  "RequiresAttestation p \<longleftrightarrow> EvidenceVerifier p \<noteq> None \<or> ResultsVerifier p \<noteq> None"

text \<open>\<open>subtle.ConstantTimeCompare\<close> of slices is 1 exactly when they have equal length and content.\<close>

definition equalBytes :: "bytes \<Rightarrow> bytes \<Rightarrow> bool" where
  "equalBytes a b \<longleftrightarrow> a = b"

definition verifyBinderValues :: "bytes \<Rightarrow> bytes \<Rightarrow> AttestationBinder \<Rightarrow> att_error option" where
  "verifyBinderValues aikPubHash binding binder =
     (if \<not> equalBytes aikPubHash (AIKPubHash binder) then Some ErrAIKPubHashMismatch
      else if \<not> equalBytes binding (BinderBinding binder) then Some ErrBindingMismatch
      else None)"

definition VerifyBinder ::
    "primitives \<Rightarrow> ('k \<Rightarrow> string + bytes) \<Rightarrow> tls_state \<Rightarrow> string \<Rightarrow> bytes \<Rightarrow> 'k certificate option
     \<Rightarrow> AttestationBinder \<Rightarrow> att_error option" where
  "VerifyBinder pr pkix st label certificateRequestContext leaf binder =
     (case ComputeBinding pr pkix st label certificateRequestContext leaf of
        Inl e \<Rightarrow> Some e
      | Inr (_, aikPubHash, binding) \<Rightarrow> verifyBinderValues aikPubHash binding binder)"

text \<open>One statement of the payload: checked by its verifier, or refused when there is none.\<close>

definition check_statement ::
    "evidence_check option \<Rightarrow> att_error \<Rightarrow> bytes \<Rightarrow> EvidenceBinding \<Rightarrow> bool att_result" where
  "check_statement verifier missing statement expectedBinding =
     (if length statement > 0 \<and> verifier \<noteq> None
      then (case the verifier statement expectedBinding of Some e \<Rightarrow> Inl e | None \<Rightarrow> Inr True)
      else if length statement > 0 then Inl missing
      else Inr False)"

definition VerifyPayload ::
    "primitives \<Rightarrow> ('k \<Rightarrow> string + bytes) \<Rightarrow> tls_state \<Rightarrow> string \<Rightarrow> bytes \<Rightarrow> 'k certificate option \<Rightarrow> Payload option
     \<Rightarrow> VerificationPolicy \<Rightarrow> VerifiedPayload att_result" where
  "VerifyPayload pr pkix st defaultLabel certificateRequestContext leaf payload policy =
     (case Payload_Validate payload of
        Some e \<Rightarrow> Inl e
      | None \<Rightarrow>
        (case VerifyExporterLabel payload defaultLabel of
           Some e \<Rightarrow> Inl e
         | None \<Rightarrow>
           (case ComputeBinding pr pkix st defaultLabel certificateRequestContext leaf of
              Inl e \<Rightarrow> Inl e
            | Inr (exportedValue, aikPubHash, binding) \<Rightarrow>
              (case verifyBinderValues aikPubHash binding (Binder (the payload)) of
                 Some e \<Rightarrow> Inl e
               | None \<Rightarrow>
                 let expectedBinding = \<lparr>ReportData = digest pr SHA512 binding,
                       EvidenceNonce = digest pr SHA256 exportedValue,
                       EvidenceBindingValue = binding, ExportedValue = exportedValue\<rparr>
                 in case check_statement (EvidenceVerifier policy) ErrEvidenceVerificationMissing
                           (Evidence (the payload)) expectedBinding of
                      Inl e \<Rightarrow> Inl e
                    | Inr ev \<Rightarrow>
                      (case check_statement (ResultsVerifier policy) ErrResultsVerificationMissing
                              (AttestationResults (the payload)) expectedBinding of
                         Inl e \<Rightarrow> Inl e
                       | Inr rv \<Rightarrow>
                         Inr \<lparr>VP_Payload = the payload, EvidenceVerified = ev, ResultsVerified = rv,
                           BindingVerified = True, UsedExporterLabel = defaultLabel,
                           VP_Binding = expectedBinding\<rparr>)))))"


section \<open>What verification means\<close>

definition statement_accepted :: "evidence_check option \<Rightarrow> bytes \<Rightarrow> EvidenceBinding \<Rightarrow> bool" where
  "statement_accepted verifier s b \<longleftrightarrow> s = [] \<or> (\<exists>f. verifier = Some f \<and> f s b = None)"

lemma check_statement_Inr:
  "check_statement verifier missing s b = Inr r \<longleftrightarrow> statement_accepted verifier s b \<and> r = (s \<noteq> [])"
  by (auto simp: check_statement_def statement_accepted_def split: option.splits if_splits)

lemma ComputeBinding_Inr:
  "ComputeBinding pr pkix st label ctx leaf = Inr (ev, a, b) \<longleftrightarrow>
     (\<exists>h pub. Version st = VersionTLS13 \<and> att_authenticatorHashTLS13 (CipherSuite st) = Inr h
        \<and> ExportKeyingMaterial st label ctx ExportedAttestationValueLen = Inr ev
        \<and> PublicKeyBytes pkix leaf = Inr pub \<and> a = digest pr h pub \<and> b = digest pr h (pub @ ev))"
  by (auto simp: ComputeBinding_def ExportAttestationValue_def AIKPublicKeyHash_def BindingValue_def
      split: sum.splits)

definition session_evidence_binding :: "primitives \<Rightarrow> hash_alg \<Rightarrow> bytes \<Rightarrow> bytes \<Rightarrow> EvidenceBinding" where
  "session_evidence_binding pr h pub ev = \<lparr>ReportData = digest pr SHA512 (digest pr h (pub @ ev)),
     EvidenceNonce = digest pr SHA256 ev, EvidenceBindingValue = digest pr h (pub @ ev), ExportedValue = ev\<rparr>"

definition payload_wf :: "Payload \<Rightarrow> string \<Rightarrow> bool" where
  "payload_wf p label \<longleftrightarrow> (Evidence p \<noteq> [] \<or> AttestationResults p \<noteq> [])
     \<and> AIKPubHash (Binder p) \<noteq> [] \<and> BinderBinding (Binder p) \<noteq> [] \<and> ExporterLabel (Binder p) \<in> {'''', label}"

lemma payload_checks_None:
  "Payload_Validate (Some p) = None \<and> VerifyExporterLabel (Some p) label = None \<longleftrightarrow> payload_wf p label"
  by (auto simp: Payload_Validate_def VerifyExporterLabel_def payload_wf_def)

lemma verifyBinderValues_None: "verifyBinderValues a b binder = None \<longleftrightarrow> AIKPubHash binder = a \<and> BinderBinding binder = b"
  by (auto simp: verifyBinderValues_def equalBytes_def)

lemma VerifyPayload_Inr:
  "VerifyPayload pr pkix st label ctx leaf (Some p) policy = Inr v \<longleftrightarrow>
     payload_wf p label \<and>
     (\<exists>ev a b. ComputeBinding pr pkix st label ctx leaf = Inr (ev, a, b)
        \<and> AIKPubHash (Binder p) = a \<and> BinderBinding (Binder p) = b
        \<and> (let eb = \<lparr>ReportData = digest pr SHA512 b, EvidenceNonce = digest pr SHA256 ev,
                      EvidenceBindingValue = b, ExportedValue = ev\<rparr>
           in statement_accepted (EvidenceVerifier policy) (Evidence p) eb
              \<and> statement_accepted (ResultsVerifier policy) (AttestationResults p) eb
              \<and> v = \<lparr>VP_Payload = p, EvidenceVerified = (Evidence p \<noteq> []), ResultsVerified = (AttestationResults p \<noteq> []),
                     BindingVerified = True, UsedExporterLabel = label, VP_Binding = eb\<rparr>))"
  unfolding VerifyPayload_def Let_def result_iff option.sel check_statement_Inr verifyBinderValues_None
    payload_checks_None [symmetric]
  by (auto simp: Let_def)

text \<open>
  C12: a payload is accepted exactly when it is well formed, its binder is the hash of the leaf key and the hash
  of the leaf key with this session's exported value, and every statement it carries was accepted by a
  configured verifier for exactly that binding; the result reports which statements were verified.
\<close>

theorem VerifyPayload_iff:
  "VerifyPayload pr pkix st label ctx leaf (Some p) policy = Inr v \<longleftrightarrow>
     payload_wf p label \<and>
     (\<exists>h pub ev. Version st = VersionTLS13 \<and> att_authenticatorHashTLS13 (CipherSuite st) = Inr h
        \<and> ExportKeyingMaterial st label ctx 32 = Inr ev \<and> PublicKeyBytes pkix leaf = Inr pub
        \<and> AIKPubHash (Binder p) = digest pr h pub \<and> BinderBinding (Binder p) = digest pr h (pub @ ev)
        \<and> statement_accepted (EvidenceVerifier policy) (Evidence p) (session_evidence_binding pr h pub ev)
        \<and> statement_accepted (ResultsVerifier policy) (AttestationResults p) (session_evidence_binding pr h pub ev)
        \<and> v = \<lparr>VP_Payload = p, EvidenceVerified = (Evidence p \<noteq> []), ResultsVerified = (AttestationResults p \<noteq> []),
               BindingVerified = True, UsedExporterLabel = label, VP_Binding = session_evidence_binding pr h pub ev\<rparr>)"
proof -
  have one_point: "(\<exists>ev a b. (\<exists>h pub. V \<and> H h \<and> E ev \<and> P pub \<and> a = f h pub \<and> b = g h pub ev) \<and> x = a \<and> y = b \<and> Q ev b)
      \<longleftrightarrow> (\<exists>h pub ev. V \<and> H h \<and> E ev \<and> P pub \<and> x = f h pub \<and> y = g h pub ev \<and> Q ev (g h pub ev))"
    for V H E P Q f g and x y :: bytes by blast
  show ?thesis
    unfolding VerifyPayload_Inr ComputeBinding_Inr session_evidence_binding_def Let_def ExportedAttestationValueLen_def
      one_point by (rule refl)
qed

text \<open>
  The binding covers the leaf key and the exported value without a separator; the exported value has a
  fixed length, so with a collision-free hash the binding determines both.
\<close>

lemma BindingValue_inj:
  assumes "inj_on (digest pr h) hashed" and "BindingValue pr h pub ev = BindingValue pr h pub' ev'"
    and "pub @ ev \<in> hashed" "pub' @ ev' \<in> hashed" and "length ev = length ev'"
  shows "pub = pub' \<and> ev = ev'"
  using inj_onD [OF assms(1) _ assms(3,4)] assms(2,5) by (simp add: BindingValue_def)


definition sample_primitives :: primitives where
  "sample_primitives = \<lparr>digest = (\<lambda>h b. 1 # b), hmac = (\<lambda>h k b. 1 # k @ b)\<rparr>"

definition sample_tls :: tls_state where
  "sample_tls = \<lparr>Version = VersionTLS13, CipherSuite = TLS_AES_128_GCM_SHA256,
     ExportKeyingMaterial = (\<lambda>l c n. Inr (replicate n 7))\<rparr>"

definition sample_leaf :: "unit certificate" where
  "sample_leaf = \<lparr>cert_Raw = [9], RawSubjectPublicKeyInfo = [5, 6], cert_PublicKey = ()\<rparr>"

definition sample_payload :: Payload where
  "sample_payload = \<lparr>PayloadVersion = 1, MediaType = '''', Evidence = [3], AttestationResults = [],
     Binder = \<lparr>ExporterLabel = '''', AIKPubHash = [1, 5, 6], BinderBinding = [1, 5, 6] @ replicate 32 7\<rparr>\<rparr>"

definition sample_att_policy :: VerificationPolicy where
  "sample_att_policy = \<lparr>EvidenceVerifier = Some (\<lambda>e b. None), ResultsVerifier = None\<rparr>"

lemma sample_VerifyPayload:
  "\<exists>v. VerifyPayload sample_primitives (\<lambda>_. Inl '''') sample_tls ''Attestation'' ctx (Some sample_leaf)
     (Some sample_payload) sample_att_policy = Inr v"
  by (simp add: VerifyPayload_def Payload_Validate_def VerifyExporterLabel_def ComputeBinding_def
      ExportAttestationValue_def att_authenticatorHashTLS13_def PublicKeyBytes_def verifyBinderValues_def
      equalBytes_def check_statement_def AIKPublicKeyHash_def BindingValue_def ExportedAttestationValueLen_def
      sample_primitives_def sample_tls_def sample_leaf_def sample_payload_def sample_att_policy_def Let_def)


end
