(* ===== verification/EA_Authenticator.thy ===== *)
theory EA_Authenticator
  imports EA_Codec EA_Attestation
begin

text \<open>
  Exported authenticators, \<open>pkg/atls/ea\<close>: exporter labels (\<open>exporters.go\<close>), signature schemes
  (\<open>sigscheme.go\<close>), CertificateVerify signatures (\<open>certverify.go\<close>), the extension policy (\<open>policy.go\<close>), the
  session that remembers used contexts (\<open>session.go\<close>), and creation and validation of an authenticator
  (\<open>authenticator.go\<close>).

  The cryptographic library, certificate parsing and chain verification are the fields of the record
  \<open>crypto_env\<close>. A function that consults the session returns its result with the session after it.
  Creation and validation touch the session once, at \<open>MarkContextUsed\<close>; what comes before and what comes
  after that call are definitions of their own.
\<close>

datatype auth_error = EAErr ea_error | AttErr att_error | LibErr string

type_synonym 'a auth_result = "auth_error + 'a"

text \<open>A private or public key: its Go type, the curve of an ECDSA key, and the key itself.\<close>

datatype key = ECDSA_key string bytes | RSA_key bytes | Ed25519_key bytes | Other_key bytes

text \<open>\<open>'o\<close> are the options of chain verification.\<close>

record 'o crypto_env =
  prim :: primitives
  ecdsa_SignASN1 :: "bytes \<Rightarrow> bytes \<Rightarrow> string + bytes"
  ecdsa_VerifyASN1 :: "bytes \<Rightarrow> bytes \<Rightarrow> bytes \<Rightarrow> bool"
  rsa_SignPSS :: "bytes \<Rightarrow> hash_alg \<Rightarrow> bytes \<Rightarrow> string + bytes"
  rsa_VerifyPSS :: "bytes \<Rightarrow> hash_alg \<Rightarrow> bytes \<Rightarrow> bytes \<Rightarrow> bool"
  ed25519_Sign :: "bytes \<Rightarrow> bytes \<Rightarrow> bytes"
  ed25519_Verify :: "bytes \<Rightarrow> bytes \<Rightarrow> bytes \<Rightarrow> bool"
  rand_Read :: "nat \<Rightarrow> string + bytes"
  ParseCertificate :: "bytes \<Rightarrow> string + key certificate"
  MarshalPKIXPublicKey :: "key \<Rightarrow> string + bytes"
  VerifyChain :: "'o \<Rightarrow> key certificate list \<Rightarrow> key certificate \<Rightarrow> string option"
  json_Payload :: "bytes \<Rightarrow> Payload option"


section \<open>Exporters, hashes, signature schemes\<close>

abbreviation (input) RoleClient :: "8 word" where "RoleClient \<equiv> 1"
abbreviation (input) RoleServer :: "8 word" where "RoleServer \<equiv> 2"

abbreviation (input) LabelClientAuthenticatorHandshakeContext :: string where
  "LabelClientAuthenticatorHandshakeContext \<equiv> ''EXPORTER-client authenticator handshake context''"
abbreviation (input) LabelServerAuthenticatorHandshakeContext :: string where
  "LabelServerAuthenticatorHandshakeContext \<equiv> ''EXPORTER-server authenticator handshake context''"
abbreviation (input) LabelClientAuthenticatorFinishedKey :: string where
  "LabelClientAuthenticatorFinishedKey \<equiv> ''EXPORTER-client authenticator finished key''"
abbreviation (input) LabelServerAuthenticatorFinishedKey :: string where
  "LabelServerAuthenticatorFinishedKey \<equiv> ''EXPORTER-server authenticator finished key''"

definition AuthenticatorHashTLS13 :: "16 word \<Rightarrow> hash_alg auth_result" where
  "AuthenticatorHashTLS13 cipherSuite =
     (if cipherSuite = TLS_AES_128_GCM_SHA256 \<or> cipherSuite = TLS_CHACHA20_POLY1305_SHA256 then Inr SHA256
      else if cipherSuite = TLS_AES_256_GCM_SHA384 then Inr SHA384
      else Inl (EAErr ErrUnknownCipherSuite))"

definition ExportHandshakeContext :: "tls_state \<Rightarrow> 8 word \<Rightarrow> (bytes \<times> hash_alg) auth_result" where
  "ExportHandshakeContext st role =
     (if Version st \<noteq> VersionTLS13 then Inl (EAErr ErrNotTLS13)
      else case AuthenticatorHashTLS13 (CipherSuite st) of
        Inl e \<Rightarrow> Inl e
      | Inr h \<Rightarrow>
          let label = (if role = RoleServer then LabelServerAuthenticatorHandshakeContext
                       else LabelClientAuthenticatorHandshakeContext)
          in case ExportKeyingMaterial st label [] (hash_size h) of
               Inl e \<Rightarrow> Inl (LibErr e)
             | Inr out \<Rightarrow> Inr (out, h))"

definition ExportFinishedKey :: "tls_state \<Rightarrow> 8 word \<Rightarrow> (bytes \<times> hash_alg) auth_result" where
  "ExportFinishedKey st role =
     (if Version st \<noteq> VersionTLS13 then Inl (EAErr ErrNotTLS13)
      else case AuthenticatorHashTLS13 (CipherSuite st) of
        Inl e \<Rightarrow> Inl e
      | Inr h \<Rightarrow>
          let label = (if role = RoleServer then LabelServerAuthenticatorFinishedKey
                       else LabelClientAuthenticatorFinishedKey)
          in case ExportKeyingMaterial st label [] (hash_size h) of
               Inl e \<Rightarrow> Inl (LibErr e)
             | Inr out \<Rightarrow> Inr (out, h))"

text \<open>\<open>hashConcat\<close> skips empty chunks, which writes the same bytes.\<close>

definition hashConcat :: "primitives \<Rightarrow> hash_alg \<Rightarrow> bytes list \<Rightarrow> bytes" where
  "hashConcat pr h chunks = digest pr h (concat (filter (\<lambda>c. length c \<noteq> 0) chunks))"

definition hmacSum :: "primitives \<Rightarrow> hash_alg \<Rightarrow> bytes \<Rightarrow> bytes \<Rightarrow> bytes" where
  "hmacSum pr h key data = hmac pr h key data"

definition constantTimeEqual :: "bytes \<Rightarrow> bytes \<Rightarrow> bool" where
  "constantTimeEqual a b = (if length a \<noteq> length b then False else equalBytes a b)"

datatype sigAlg = sigAlgECDSA | sigAlgRSAPSS | sigAlgEd25519

record sigSchemeInfo =
  info_Scheme :: "16 word"
  info_Alg :: sigAlg
  info_Hash :: "hash_alg option" \<comment> \<open>\<open>None\<close> is the zero hash of Ed25519\<close>

abbreviation (input) ECDSAWithP256AndSHA256 :: "16 word" where "ECDSAWithP256AndSHA256 \<equiv> 0x0403"
abbreviation (input) PSSWithSHA256 :: "16 word" where "PSSWithSHA256 \<equiv> 0x0804"
abbreviation (input) Ed25519 :: "16 word" where "Ed25519 \<equiv> 0x0807"

definition signatureSchemeInfo :: "16 word \<Rightarrow> sigSchemeInfo auth_result" where
  "signatureSchemeInfo s =
     (if s = ECDSAWithP256AndSHA256 then Inr \<lparr>info_Scheme = s, info_Alg = sigAlgECDSA, info_Hash = Some SHA256\<rparr>
      else if s = PSSWithSHA256 then Inr \<lparr>info_Scheme = s, info_Alg = sigAlgRSAPSS, info_Hash = Some SHA256\<rparr>
      else if s = Ed25519 then Inr \<lparr>info_Scheme = s, info_Alg = sigAlgEd25519, info_Hash = None\<rparr>
      else Inl (EAErr ErrUnsupportedSignatureScheme))"

text \<open>The closure \<open>compat\<close> of \<open>chooseSignatureScheme\<close>.\<close>

definition compat :: "key \<Rightarrow> 16 word \<Rightarrow> bool" where
  "compat priv s =
     (case signatureSchemeInfo s of
        Inl _ \<Rightarrow> False
      | Inr info \<Rightarrow>
          (case info_Alg info of
             sigAlgECDSA \<Rightarrow> (case priv of ECDSA_key curve _ \<Rightarrow> curve = ''P-256'' | _ \<Rightarrow> False)
           | sigAlgRSAPSS \<Rightarrow> (case priv of RSA_key _ \<Rightarrow> True | _ \<Rightarrow> False)
           | sigAlgEd25519 \<Rightarrow> (case priv of Ed25519_key _ \<Rightarrow> True | _ \<Rightarrow> False)))"

definition chooseSignatureScheme :: "key \<Rightarrow> 16 word list \<Rightarrow> 16 word auth_result" where
  "chooseSignatureScheme priv offered =
     (if length offered > 0
      then (case find (compat priv) offered of
              Some s \<Rightarrow> Inr s
            | None \<Rightarrow> Inl (EAErr ErrUnsupportedSignatureScheme))
      else if (case priv of ECDSA_key curve _ \<Rightarrow> curve = ''P-256'' | _ \<Rightarrow> False) then Inr ECDSAWithP256AndSHA256
      else if (case priv of RSA_key _ \<Rightarrow> True | _ \<Rightarrow> False) then Inr PSSWithSHA256
      else if (case priv of Ed25519_key _ \<Rightarrow> True | _ \<Rightarrow> False) then Inr Ed25519
      else Inl (EAErr ErrUnsupportedSignatureScheme))"

definition eaContextString :: bytes where
  "eaContextString = map of_char ''Exported Authenticator''"

definition buildCertVerifyInput :: "bytes \<Rightarrow> bytes" where
  "buildCertVerifyInput transcriptHash = replicate 64 0x20 @ eaContextString @ [0x00] @ transcriptHash"

definition lib_result :: "string + 'a \<Rightarrow> 'a auth_result" where
  "lib_result r = (case r of Inl e \<Rightarrow> Inl (LibErr e) | Inr x \<Rightarrow> Inr x)"

definition signCertVerify :: "'o crypto_env \<Rightarrow> key \<Rightarrow> 16 word \<Rightarrow> bytes \<Rightarrow> bytes auth_result" where
  "signCertVerify env priv scheme transcriptHash =
     (case signatureSchemeInfo scheme of
        Inl e \<Rightarrow> Inl e
      | Inr info \<Rightarrow>
          let msg = buildCertVerifyInput transcriptHash; h = the (info_Hash info) in
          (case info_Alg info of
             sigAlgECDSA \<Rightarrow>
               (case priv of
                  ECDSA_key _ k \<Rightarrow> lib_result (ecdsa_SignASN1 env k (digest (prim env) h msg))
                | _ \<Rightarrow> Inl (EAErr ErrUnsupportedSignatureScheme))
           | sigAlgRSAPSS \<Rightarrow>
               (case priv of
                  RSA_key k \<Rightarrow> lib_result (rsa_SignPSS env k h (digest (prim env) h msg))
                | _ \<Rightarrow> Inl (EAErr ErrUnsupportedSignatureScheme))
           | sigAlgEd25519 \<Rightarrow>
               (case priv of
                  Ed25519_key k \<Rightarrow> Inr (ed25519_Sign env k msg)
                | _ \<Rightarrow> Inl (EAErr ErrUnsupportedSignatureScheme))))"

definition verifyCertVerify :: "'o crypto_env \<Rightarrow> key \<Rightarrow> 16 word \<Rightarrow> bytes \<Rightarrow> bytes \<Rightarrow> auth_error option" where
  "verifyCertVerify env pub scheme transcriptHash signature =
     (case signatureSchemeInfo scheme of
        Inl e \<Rightarrow> Some e
      | Inr info \<Rightarrow>
          let msg = buildCertVerifyInput transcriptHash; h = the (info_Hash info) in
          (case info_Alg info of
             sigAlgECDSA \<Rightarrow>
               (case pub of
                  ECDSA_key _ k \<Rightarrow>
                    if \<not> ecdsa_VerifyASN1 env k (digest (prim env) h msg) signature
                    then Some (EAErr ErrSignatureMismatch) else None
                | _ \<Rightarrow> Some (EAErr ErrUnsupportedSignatureScheme))
           | sigAlgRSAPSS \<Rightarrow>
               (case pub of
                  RSA_key k \<Rightarrow>
                    if \<not> rsa_VerifyPSS env k h (digest (prim env) h msg) signature
                    then Some (EAErr ErrSignatureMismatch) else None
                | _ \<Rightarrow> Some (EAErr ErrUnsupportedSignatureScheme))
           | sigAlgEd25519 \<Rightarrow>
               (case pub of
                  Ed25519_key k \<Rightarrow>
                    if \<not> ed25519_Verify env k msg signature
                    then Some (EAErr ErrSignatureMismatch) else None
                | _ \<Rightarrow> Some (EAErr ErrUnsupportedSignatureScheme))))"


section \<open>Extension policy and session\<close>

record SpontaneousAuthenticatorPolicy =
  AllowedSignatureSchemes :: "16 word list"
  AllowedCertificateExtensions :: "16 word list"

definition RequestPermitsCertificateExtension :: "AuthenticatorRequest option \<Rightarrow> 16 word \<Rightarrow> bool" where
  "RequestPermitsCertificateExtension req typ =
     (case req of None \<Rightarrow> False | Some r \<Rightarrow> list_ex (\<lambda>e. ext_Type e = typ) (req_Extensions r))"

definition PolicyPermitsCertificateExtension :: "SpontaneousAuthenticatorPolicy option \<Rightarrow> 16 word \<Rightarrow> bool" where
  "PolicyPermitsCertificateExtension policy typ =
     (case policy of None \<Rightarrow> False | Some p \<Rightarrow> list_ex (\<lambda>allowed. allowed = typ) (AllowedCertificateExtensions p))"

definition policyPermitsSignatureScheme :: "SpontaneousAuthenticatorPolicy option \<Rightarrow> 16 word \<Rightarrow> bool" where
  "policyPermitsSignatureScheme policy scheme =
     (case policy of
        None \<Rightarrow> True
      | Some p \<Rightarrow> if length (AllowedSignatureSchemes p) = 0 then True
                 else list_ex (\<lambda>allowed. allowed = scheme) (AllowedSignatureSchemes p))"

fun validateCertificateEntryExtensions ::
    "Extension list \<Rightarrow> AuthenticatorRequest option \<Rightarrow> SpontaneousAuthenticatorPolicy option \<Rightarrow> ea_error option" where
  "validateCertificateEntryExtensions [] req policy = None"
| "validateCertificateEntryExtensions (e # exts) req policy =
     (if req \<noteq> None
      then (if \<not> RequestPermitsCertificateExtension req (ext_Type e) then Some ErrBadRequest
            else validateCertificateEntryExtensions exts req policy)
      else if \<not> PolicyPermitsCertificateExtension policy (ext_Type e) then Some ErrBadRequest
      else validateCertificateEntryExtensions exts req policy)"

record Session =
  used :: "bytes set"

definition NewSession :: Session where
  "NewSession = \<lparr>used = {}\<rparr>"

definition MarkContextUsed :: "bytes \<Rightarrow> Session option \<Rightarrow> ea_error option \<times> Session option" where
  "MarkContextUsed ctx s =
     (case s of
        None \<Rightarrow> (None, None)
      | Some t \<Rightarrow>
          if ctx \<in> used t then (Some ErrContextReuse, Some t)
          else (None, Some (t\<lparr>used := insert ctx (used t)\<rparr>)))"


section \<open>Creating an authenticator\<close>

text \<open>\<open>tls.Certificate\<close>: the DER chain and the private key, \<open>None\<close> when nil.\<close>

record tls_identity =
  id_Certificate :: "bytes list"
  id_PrivateKey :: "key option"

definition ea_result :: "'a ea_result \<Rightarrow> 'a auth_result" where
  "ea_result r = (case r of Inl e \<Rightarrow> Inl (EAErr e) | Inr x \<Rightarrow> Inr x)"

definition NewRandomContext :: "'o crypto_env \<Rightarrow> nat \<Rightarrow> bytes auth_result" where
  "NewRandomContext env n = (if n = 0 \<or> n > 255 then Inl (EAErr ErrInvalidLength) else lib_result (rand_Read env n))"

text \<open>The encoded request and the schemes it offers; a request without signature_algorithms is refused.\<close>

definition request_material :: "AuthenticatorRequest \<Rightarrow> (bytes \<times> 16 word list) auth_result" where
  "request_material r =
     (case AuthenticatorRequest_Marshal r of
        Inl e \<Rightarrow> Inl (EAErr e)
      | Inr reqBytes \<Rightarrow>
          (case SignatureSchemes r of
             Some schemes \<Rightarrow> Inr (reqBytes, schemes)
           | None \<Rightarrow> Inl (EAErr ErrBadRequest)))"

text \<open>The entries of the Certificate message: the caller's extensions go on the leaf.\<close>

definition certificate_entries :: "bytes list \<Rightarrow> Extension list \<Rightarrow> CertificateEntry list" where
  "certificate_entries certs leafEntryExtensions =
     map (\<lambda>(i, der). \<lparr>CertDER = der,
            entry_Extensions = (if i = 0 \<and> length leafEntryExtensions > 0 then leafEntryExtensions else [])\<rparr>)
       (enumerate 0 certs)"

text \<open>The Finished-only authenticator, and the full one.\<close>

definition create_empty ::
    "'o crypto_env \<Rightarrow> hash_alg \<Rightarrow> bytes \<Rightarrow> bytes \<Rightarrow> bytes \<Rightarrow> bytes \<Rightarrow> bytes auth_result" where
  "create_empty env h hsCtx fk reqBytes ctx =
     (case CertificateMessage_Marshal \<lparr>cm_Context = ctx, cm_Entries = []\<rparr> of
        Inl e \<Rightarrow> Inl (EAErr e)
      | Inr certBytes \<Rightarrow>
          let th = hashConcat (prim env) h [hsCtx, reqBytes, certBytes];
              verifyData = hmacSum (prim env) h fk th
          in ea_result (FinishedMessage_Marshal \<lparr>fin_VerifyData = verifyData\<rparr>))"

definition create_full ::
    "'o crypto_env \<Rightarrow> hash_alg \<Rightarrow> bytes \<Rightarrow> bytes \<Rightarrow> bytes \<Rightarrow> bytes \<Rightarrow> CertificateEntry list \<Rightarrow> key \<Rightarrow> 16 word
     \<Rightarrow> bytes auth_result" where
  "create_full env h hsCtx fk reqBytes ctx entries priv scheme =
     (case CertificateMessage_Marshal \<lparr>cm_Context = ctx, cm_Entries = entries\<rparr> of
        Inl e \<Rightarrow> Inl (EAErr e)
      | Inr certBytes \<Rightarrow>
        (case signCertVerify env priv scheme (hashConcat (prim env) h [hsCtx, reqBytes, certBytes]) of
           Inl e \<Rightarrow> Inl e
         | Inr sig \<Rightarrow>
           (case CertificateVerifyMessage_Marshal \<lparr>cv_Algorithm = scheme, cv_Signature = sig\<rparr> of
              Inl e \<Rightarrow> Inl (EAErr e)
            | Inr cvBytes \<Rightarrow>
              let th2 = hashConcat (prim env) h [hsCtx, reqBytes, certBytes, cvBytes];
                  verifyData = hmacSum (prim env) h fk th2
              in case FinishedMessage_Marshal \<lparr>fin_VerifyData = verifyData\<rparr> of
                   Inl e \<Rightarrow> Inl (EAErr e)
                 | Inr finBytes \<Rightarrow> Inr (certBytes @ cvBytes @ finBytes))))"

text \<open>Everything before the session is consulted: the context to mark and the bytes to return.\<close>

definition create_messages ::
    "'o crypto_env \<Rightarrow> tls_state \<Rightarrow> 8 word \<Rightarrow> AuthenticatorRequest option \<Rightarrow> SpontaneousAuthenticatorPolicy option
     \<Rightarrow> tls_identity \<Rightarrow> Extension list \<Rightarrow> (bytes \<times> bytes) auth_result" where
  "create_messages env st role req policy identity leafEntryExtensions =
     (if Version st \<noteq> VersionTLS13 then Inl (EAErr ErrNotTLS13)
      else if req = None \<and> role \<noteq> RoleServer then Inl (EAErr ErrInvalidRole)
      else case validateCertificateEntryExtensions leafEntryExtensions req policy of
        Some e \<Rightarrow> Inl (EAErr e)
      | None \<Rightarrow>
        let emptyAuthenticator = (length (id_Certificate identity) = 0 \<and> id_PrivateKey identity = None) in
        if \<not> emptyAuthenticator \<and> (length (id_Certificate identity) = 0 \<or> id_PrivateKey identity = None)
        then Inl (EAErr ErrBadRequest)
        else case (case req of
            Some r \<Rightarrow> (case request_material r of
                Inl e \<Rightarrow> Inl e
              | Inr (reqBytes, offered) \<Rightarrow> Inr (reqBytes, offered, req_Context r))
          | None \<Rightarrow> (case NewRandomContext env 32 of Inl e \<Rightarrow> Inl e | Inr c \<Rightarrow> Inr ([], [], c))) of
          Inl e \<Rightarrow> Inl e
        | Inr (reqBytes, offered, ctx) \<Rightarrow>
          (case ExportHandshakeContext st role of
             Inl e \<Rightarrow> Inl e
           | Inr (hsCtx, h) \<Rightarrow>
             (case ExportFinishedKey st role of
                Inl e \<Rightarrow> Inl e
              | Inr (fk, _) \<Rightarrow>
                if emptyAuthenticator
                then (if req = None then Inl (EAErr ErrBadRequest)
                      else case create_empty env h hsCtx fk reqBytes ctx of
                        Inl e \<Rightarrow> Inl e
                      | Inr out \<Rightarrow> Inr (ctx, out))
                else (case chooseSignatureScheme (the (id_PrivateKey identity)) offered of
                   Inl e \<Rightarrow> Inl e
                 | Inr scheme \<Rightarrow>
                   if req = None \<and> \<not> policyPermitsSignatureScheme policy scheme
                   then Inl (EAErr ErrUnsupportedSignatureScheme)
                   else case create_full env h hsCtx fk reqBytes ctx
                          (certificate_entries (id_Certificate identity) leafEntryExtensions)
                          (the (id_PrivateKey identity)) scheme of
                        Inl e \<Rightarrow> Inl e
                      | Inr out \<Rightarrow> Inr (ctx, out)))))"

definition createAuthenticator ::
    "'o crypto_env \<Rightarrow> Session option \<Rightarrow> tls_state \<Rightarrow> 8 word \<Rightarrow> AuthenticatorRequest option
     \<Rightarrow> SpontaneousAuthenticatorPolicy option \<Rightarrow> tls_identity \<Rightarrow> Extension list
     \<Rightarrow> bytes auth_result \<times> Session option" where
  "createAuthenticator env session st role req policy identity leafEntryExtensions =
     (case create_messages env st role req policy identity leafEntryExtensions of
        Inl e \<Rightarrow> (Inl e, session)
      | Inr (ctx, out) \<Rightarrow>
          (case MarkContextUsed ctx session of
             (Some e, session') \<Rightarrow> (Inl (EAErr e), session')
           | (None, session') \<Rightarrow> (Inr out, session')))"

definition CreateAuthenticator ::
    "'o crypto_env \<Rightarrow> tls_state \<Rightarrow> 8 word \<Rightarrow> AuthenticatorRequest option \<Rightarrow> tls_identity \<Rightarrow> Extension list
     \<Rightarrow> bytes auth_result" where
  "CreateAuthenticator env st role req identity leafEntryExtensions =
     fst (createAuthenticator env None st role req None identity leafEntryExtensions)"

definition CreateAuthenticatorWithPolicy ::
    "'o crypto_env \<Rightarrow> tls_state \<Rightarrow> 8 word \<Rightarrow> AuthenticatorRequest option \<Rightarrow> SpontaneousAuthenticatorPolicy option
     \<Rightarrow> tls_identity \<Rightarrow> Extension list \<Rightarrow> bytes auth_result" where
  "CreateAuthenticatorWithPolicy env st role req policy identity leafEntryExtensions =
     fst (createAuthenticator env None st role req policy identity leafEntryExtensions)"


section \<open>Validating an authenticator\<close>

record ValidationResult =
  VR_Context :: bytes
  VR_Chain :: "key certificate list"
  VR_CMWAttestation :: bytes
  VR_Attestation :: "VerifiedPayload option"
  VR_Empty :: bool

text \<open>What the checks before \<open>MarkContextUsed\<close> establish: an empty authenticator, or a full one.\<close>

datatype checked =
    EmptyAuth bytes
  | FullAuth CertificateMessage "key certificate list" "bytes option"

definition validate_empty ::
    "'o crypto_env \<Rightarrow> hash_alg \<Rightarrow> bytes \<Rightarrow> bytes \<Rightarrow> bytes \<Rightarrow> AuthenticatorRequest option \<Rightarrow> HandshakeMessage \<Rightarrow> bytes
     \<Rightarrow> checked auth_result" where
  "validate_empty env h hsCtx fk reqBytes req firstHm rest =
     (if req = None \<or> length rest \<noteq> 0 then Inl (EAErr ErrUnsupportedHandshakeType)
      else case UnmarshalFinishedMessage (remarshal firstHm) of
        Inl e \<Rightarrow> Inl (EAErr e)
      | Inr (finMsg, _) \<Rightarrow>
          (case CertificateMessage_Marshal \<lparr>cm_Context = req_Context (the req), cm_Entries = []\<rparr> of
             Inl e \<Rightarrow> Inl (EAErr e)
           | Inr certBytes \<Rightarrow>
               let th = hashConcat (prim env) h [hsCtx, reqBytes, certBytes];
                   expectedFin = hmacSum (prim env) h fk th
               in if \<not> constantTimeEqual expectedFin (fin_VerifyData finMsg) then Inl (EAErr ErrFinishedMismatch)
                  else Inr (EmptyAuth (req_Context (the req)))))"

fun validate_entries ::
    "CertificateEntry list \<Rightarrow> AuthenticatorRequest option \<Rightarrow> SpontaneousAuthenticatorPolicy option \<Rightarrow> ea_error option" where
  "validate_entries [] req policy = None"
| "validate_entries (entry # entries) req policy =
     (case validateCertificateEntryExtensions (entry_Extensions entry) req policy of
        Some e \<Rightarrow> Some e
      | None \<Rightarrow> validate_entries entries req policy)"

fun parse_chain :: "'o crypto_env \<Rightarrow> CertificateEntry list \<Rightarrow> key certificate list auth_result" where
  "parse_chain env [] = Inr []"
| "parse_chain env (e # entries) =
     (case ParseCertificate env (CertDER e) of
        Inl err \<Rightarrow> Inl (LibErr err)
      | Inr c \<Rightarrow> (case parse_chain env entries of Inl err \<Rightarrow> Inl err | Inr cs \<Rightarrow> Inr (c # cs)))"

text \<open>The three messages of a full authenticator, and nothing after them.\<close>

definition split_messages ::
    "HandshakeMessage \<Rightarrow> bytes \<Rightarrow> (bytes \<times> bytes \<times> bytes) auth_result" where
  "split_messages certHm rest =
     (case UnmarshalHandshakeMessage rest of
        Inl _ \<Rightarrow> Inl (EAErr ErrUnsupportedHandshakeType)
      | Inr (cvHm, rest) \<Rightarrow>
          if hm_Type cvHm \<noteq> HandshakeTypeCertificateVerify then Inl (EAErr ErrUnsupportedHandshakeType)
          else case UnmarshalHandshakeMessage rest of
            Inl _ \<Rightarrow> Inl (EAErr ErrInvalidLength)
          | Inr (finHm, rest) \<Rightarrow>
              if hm_Type finHm \<noteq> HandshakeTypeFinished \<or> length rest \<noteq> 0 then Inl (EAErr ErrInvalidLength)
              else Inr (remarshal certHm, remarshal cvHm, remarshal finHm))"

text \<open>The checks on the decoded Certificate message, up to the parsed chain.\<close>

definition validate_certificate ::
    "'o crypto_env \<Rightarrow> AuthenticatorRequest option \<Rightarrow> SpontaneousAuthenticatorPolicy option \<Rightarrow> CertificateMessage
     \<Rightarrow> (bytes option \<times> key certificate list) auth_result" where
  "validate_certificate env req policy certMsg =
     (if req \<noteq> None \<and> cm_Context certMsg \<noteq> req_Context (the req) then Inl (EAErr ErrContextMismatch)
      else if length (cm_Entries certMsg) = 0 then Inl (EAErr ErrUnsupportedHandshakeType)
      else case ValidateCMWAttestationPlacement (cm_Entries certMsg) of
        Some e \<Rightarrow> Inl (EAErr e)
      | None \<Rightarrow>
        (case validate_entries (cm_Entries certMsg) req policy of
           Some e \<Rightarrow> Inl (EAErr e)
         | None \<Rightarrow>
           (case ExtractCMWAttestationFromExtensions (entry_Extensions (hd (cm_Entries certMsg))) of
              Inl e \<Rightarrow> Inl (EAErr e)
            | Inr extracted \<Rightarrow>
              if extracted \<noteq> None \<and> req \<noteq> None
                 \<and> \<not> RequestPermitsCertificateExtension req CMWAttestationExtensionType
              then Inl (EAErr ErrBadRequest)
              else if extracted \<noteq> None \<and> req = None
                 \<and> \<not> PolicyPermitsCertificateExtension policy CMWAttestationExtensionType
              then Inl (EAErr ErrBadRequest)
              else case parse_chain env (cm_Entries certMsg) of
                Inl e \<Rightarrow> Inl e
              | Inr chain \<Rightarrow> Inr (extracted, chain))))"

definition validate_full ::
    "'o crypto_env \<Rightarrow> hash_alg \<Rightarrow> bytes \<Rightarrow> bytes \<Rightarrow> bytes \<Rightarrow> 16 word list \<Rightarrow> AuthenticatorRequest option
     \<Rightarrow> SpontaneousAuthenticatorPolicy option \<Rightarrow> 'o option \<Rightarrow> HandshakeMessage \<Rightarrow> bytes \<Rightarrow> checked auth_result" where
  "validate_full env h hsCtx fk reqBytes offered req policy verifyOpts firstHm rest =
     (case split_messages firstHm rest of
        Inl e \<Rightarrow> Inl e
      | Inr (certBytes, cvBytes, finBytes) \<Rightarrow>
        (case UnmarshalCertificateMessage certBytes of
           Inl e \<Rightarrow> Inl (EAErr e)
         | Inr (certMsg, _) \<Rightarrow>
        (case UnmarshalCertificateVerifyMessage cvBytes of
           Inl e \<Rightarrow> Inl (EAErr e)
         | Inr (cvMsg, _) \<Rightarrow>
        (case UnmarshalFinishedMessage finBytes of
           Inl e \<Rightarrow> Inl (EAErr e)
         | Inr (finMsg, _) \<Rightarrow>
        (case validate_certificate env req policy certMsg of
           Inl e \<Rightarrow> Inl e
         | Inr (extracted, chain) \<Rightarrow>
           if req \<noteq> None \<and> \<not> list_ex (\<lambda>s. s = cv_Algorithm cvMsg) offered
           then Inl (EAErr ErrUnsupportedSignatureScheme)
           else case verifyCertVerify env (cert_PublicKey (hd chain)) (cv_Algorithm cvMsg)
                  (hashConcat (prim env) h [hsCtx, reqBytes, certBytes]) (cv_Signature cvMsg) of
             Some e \<Rightarrow> Inl e
           | None \<Rightarrow>
             let expectedFin = hmacSum (prim env) h fk (hashConcat (prim env) h [hsCtx, reqBytes, certBytes, cvBytes])
             in if \<not> constantTimeEqual expectedFin (fin_VerifyData finMsg) then Inl (EAErr ErrFinishedMismatch)
                else case (case verifyOpts of None \<Rightarrow> None | Some opts \<Rightarrow> VerifyChain env opts (tl chain) (hd chain)) of
                  Some e \<Rightarrow> Inl (LibErr e)
                | None \<Rightarrow> Inr (FullAuth certMsg chain extracted))))))"

text \<open>Everything before the session is consulted.\<close>

definition validate_checks ::
    "'o crypto_env \<Rightarrow> tls_state \<Rightarrow> 8 word \<Rightarrow> AuthenticatorRequest option \<Rightarrow> SpontaneousAuthenticatorPolicy option
     \<Rightarrow> bytes \<Rightarrow> 'o option \<Rightarrow> checked auth_result" where
  "validate_checks env st role req policy authBytes verifyOpts =
     (if Version st \<noteq> VersionTLS13 then Inl (EAErr ErrNotTLS13)
      else case ExportHandshakeContext st role of
        Inl e \<Rightarrow> Inl e
      | Inr (hsCtx, h) \<Rightarrow>
        (case ExportFinishedKey st role of
           Inl e \<Rightarrow> Inl e
         | Inr (fk, _) \<Rightarrow>
        (case (case req of None \<Rightarrow> Inr ([], []) | Some r \<Rightarrow> request_material r) of
           Inl e \<Rightarrow> Inl e
         | Inr (reqBytes, offered) \<Rightarrow>
        (case UnmarshalHandshakeMessage authBytes of
           Inl e \<Rightarrow> Inl (EAErr e)
         | Inr (firstHm, rest) \<Rightarrow>
           if hm_Type firstHm = HandshakeTypeFinished
           then validate_empty env h hsCtx fk reqBytes req firstHm rest
           else if hm_Type firstHm \<noteq> HandshakeTypeCertificate then Inl (EAErr ErrUnsupportedHandshakeType)
           else validate_full env h hsCtx fk reqBytes offered req policy verifyOpts firstHm rest))))"

text \<open>What follows it: the attestation of a full authenticator.\<close>

definition validate_attestation ::
    "'o crypto_env \<Rightarrow> tls_state \<Rightarrow> VerificationPolicy option \<Rightarrow> checked \<Rightarrow> ValidationResult auth_result" where
  "validate_attestation env st attPolicy ch =
     (case ch of
        EmptyAuth ctx \<Rightarrow>
          Inr \<lparr>VR_Context = ctx, VR_Chain = [], VR_CMWAttestation = [], VR_Attestation = None, VR_Empty = True\<rparr>
      | FullAuth certMsg chain extracted \<Rightarrow>
          let verifierPolicy = (case attPolicy of
                 None \<Rightarrow> \<lparr>EvidenceVerifier = None, ResultsVerifier = None\<rparr> | Some p \<Rightarrow> p)
          in (case extracted of
             None \<Rightarrow>
               if RequiresAttestation verifierPolicy then Inl (AttErr ErrMissingAttestation)
               else Inr \<lparr>VR_Context = cm_Context certMsg, VR_Chain = chain, VR_CMWAttestation = [],
                      VR_Attestation = None, VR_Empty = False\<rparr>
           | Some cmw \<Rightarrow>
               (case ParsePayload (json_Payload env) cmw of
                  Inl e \<Rightarrow> Inl (AttErr e)
                | Inr parsed \<Rightarrow>
                  (case VerifyPayload (prim env) (MarshalPKIXPublicKey env) st ExporterLabelAttestation
                          (cm_Context certMsg) (Some (hd chain)) (Some parsed) verifierPolicy of
                     Inl e \<Rightarrow> Inl (AttErr e)
                   | Inr verified \<Rightarrow>
                       Inr \<lparr>VR_Context = cm_Context certMsg, VR_Chain = chain, VR_CMWAttestation = cmw,
                         VR_Attestation = Some verified, VR_Empty = False\<rparr>))))"

definition checked_context :: "checked \<Rightarrow> bytes" where
  "checked_context ch = (case ch of EmptyAuth ctx \<Rightarrow> ctx | FullAuth certMsg _ _ \<Rightarrow> cm_Context certMsg)"

definition validateAuthenticator ::
    "'o crypto_env \<Rightarrow> Session option \<Rightarrow> tls_state \<Rightarrow> 8 word \<Rightarrow> AuthenticatorRequest option
     \<Rightarrow> SpontaneousAuthenticatorPolicy option \<Rightarrow> VerificationPolicy option \<Rightarrow> bytes \<Rightarrow> 'o option
     \<Rightarrow> ValidationResult auth_result \<times> Session option" where
  "validateAuthenticator env session st role req policy attPolicy authBytes verifyOpts =
     (case validate_checks env st role req policy authBytes verifyOpts of
        Inl e \<Rightarrow> (Inl e, session)
      | Inr ch \<Rightarrow>
          (case MarkContextUsed (checked_context ch) session of
             (Some e, session') \<Rightarrow> (Inl (EAErr e), session')
           | (None, session') \<Rightarrow> (validate_attestation env st attPolicy ch, session')))"

definition ValidateAuthenticator ::
    "'o crypto_env \<Rightarrow> tls_state \<Rightarrow> 8 word \<Rightarrow> AuthenticatorRequest option \<Rightarrow> bytes \<Rightarrow> 'o option
     \<Rightarrow> ValidationResult auth_result" where
  "ValidateAuthenticator env st role req authBytes verifyOpts =
     fst (validateAuthenticator env None st role req None None authBytes verifyOpts)"

definition ValidateAuthenticatorWithAttestation ::
    "'o crypto_env \<Rightarrow> tls_state \<Rightarrow> 8 word \<Rightarrow> AuthenticatorRequest option \<Rightarrow> bytes \<Rightarrow> 'o option
     \<Rightarrow> VerificationPolicy \<Rightarrow> ValidationResult auth_result" where
  "ValidateAuthenticatorWithAttestation env st role req authBytes verifyOpts attPolicy =
     fst (validateAuthenticator env None st role req None (Some attPolicy) authBytes verifyOpts)"

definition Session_ValidateAuthenticatorWithAttestation ::
    "'o crypto_env \<Rightarrow> Session option \<Rightarrow> tls_state \<Rightarrow> 8 word \<Rightarrow> AuthenticatorRequest option \<Rightarrow> bytes \<Rightarrow> 'o option
     \<Rightarrow> VerificationPolicy \<Rightarrow> ValidationResult auth_result \<times> Session option" where
  "Session_ValidateAuthenticatorWithAttestation env s st role req authBytes verifyOpts attPolicy =
     validateAuthenticator env s st role req None (Some attPolicy) authBytes verifyOpts"

definition ValidateAuthenticatorWithPolicy ::
    "'o crypto_env \<Rightarrow> tls_state \<Rightarrow> 8 word \<Rightarrow> AuthenticatorRequest option \<Rightarrow> SpontaneousAuthenticatorPolicy option
     \<Rightarrow> bytes \<Rightarrow> 'o option \<Rightarrow> ValidationResult auth_result" where
  "ValidateAuthenticatorWithPolicy env st role req policy authBytes verifyOpts =
     fst (validateAuthenticator env None st role req policy None authBytes verifyOpts)"

definition ValidateAuthenticatorWithPolicies ::
    "'o crypto_env \<Rightarrow> tls_state \<Rightarrow> 8 word \<Rightarrow> AuthenticatorRequest option \<Rightarrow> SpontaneousAuthenticatorPolicy option
     \<Rightarrow> bytes \<Rightarrow> 'o option \<Rightarrow> VerificationPolicy \<Rightarrow> ValidationResult auth_result" where
  "ValidateAuthenticatorWithPolicies env st role req policy authBytes verifyOpts attPolicy =
     fst (validateAuthenticator env None st role req policy (Some attPolicy) authBytes verifyOpts)"

definition Session_CreateAuthenticator ::
    "'o crypto_env \<Rightarrow> Session option \<Rightarrow> tls_state \<Rightarrow> 8 word \<Rightarrow> AuthenticatorRequest option \<Rightarrow> tls_identity
     \<Rightarrow> Extension list \<Rightarrow> bytes auth_result \<times> Session option" where
  "Session_CreateAuthenticator env s st role req identity leafEntryExtensions =
     createAuthenticator env s st role req None identity leafEntryExtensions"

definition Session_CreateAuthenticatorWithPolicy ::
    "'o crypto_env \<Rightarrow> Session option \<Rightarrow> tls_state \<Rightarrow> 8 word \<Rightarrow> AuthenticatorRequest option
     \<Rightarrow> SpontaneousAuthenticatorPolicy option \<Rightarrow> tls_identity \<Rightarrow> Extension list
     \<Rightarrow> bytes auth_result \<times> Session option" where
  "Session_CreateAuthenticatorWithPolicy env s st role req policy identity leafEntryExtensions =
     createAuthenticator env s st role req policy identity leafEntryExtensions"

definition Session_ValidateAuthenticator ::
    "'o crypto_env \<Rightarrow> Session option \<Rightarrow> tls_state \<Rightarrow> 8 word \<Rightarrow> AuthenticatorRequest option \<Rightarrow> bytes \<Rightarrow> 'o option
     \<Rightarrow> ValidationResult auth_result \<times> Session option" where
  "Session_ValidateAuthenticator env s st role req authBytes verifyOpts =
     validateAuthenticator env s st role req None None authBytes verifyOpts"

definition Session_ValidateAuthenticatorWithPolicy ::
    "'o crypto_env \<Rightarrow> Session option \<Rightarrow> tls_state \<Rightarrow> 8 word \<Rightarrow> AuthenticatorRequest option
     \<Rightarrow> SpontaneousAuthenticatorPolicy option \<Rightarrow> bytes \<Rightarrow> 'o option
     \<Rightarrow> ValidationResult auth_result \<times> Session option" where
  "Session_ValidateAuthenticatorWithPolicy env s st role req policy authBytes verifyOpts =
     validateAuthenticator env s st role req policy None authBytes verifyOpts"

definition Session_ValidateAuthenticatorWithPolicies ::
    "'o crypto_env \<Rightarrow> Session option \<Rightarrow> tls_state \<Rightarrow> 8 word \<Rightarrow> AuthenticatorRequest option
     \<Rightarrow> SpontaneousAuthenticatorPolicy option \<Rightarrow> bytes \<Rightarrow> 'o option \<Rightarrow> VerificationPolicy
     \<Rightarrow> ValidationResult auth_result \<times> Session option" where
  "Session_ValidateAuthenticatorWithPolicies env s st role req policy authBytes verifyOpts attPolicy =
     validateAuthenticator env s st role req policy (Some attPolicy) authBytes verifyOpts"


section \<open>What validation means\<close>

lemma hashConcat_eq: "hashConcat pr h chunks = digest pr h (concat chunks)"
proof -
  have "concat (filter (\<lambda>c. length c \<noteq> 0) chunks) = concat chunks" by (induction chunks) auto
  then show ?thesis by (simp add: hashConcat_def)
qed

lemma constantTimeEqual_iff: "constantTimeEqual a b \<longleftrightarrow> a = b"
  by (auto simp: constantTimeEqual_def equalBytes_def)

lemma ea_result_Inr [result_iff]: "ea_result r = Inr x \<longleftrightarrow> r = Inr x"
  by (auto simp: ea_result_def split: sum.splits)

lemma lib_result_Inr [result_iff]: "lib_result r = Inr x \<longleftrightarrow> r = Inr x"
  by (auto simp: lib_result_def split: sum.splits)

lemma validateCertificateEntryExtensions_None:
  "validateCertificateEntryExtensions exts req policy = None \<longleftrightarrow>
     (\<forall>e \<in> set exts. if req \<noteq> None then RequestPermitsCertificateExtension req (ext_Type e)
        else PolicyPermitsCertificateExtension policy (ext_Type e))"
  by (induction exts) auto

lemma validate_entries_None:
  "validate_entries entries req policy = None \<longleftrightarrow>
     (\<forall>e \<in> set entries. validateCertificateEntryExtensions (entry_Extensions e) req policy = None)"
  by (induction entries) (auto split: option.splits)

lemma parse_chain_Inr:
  "parse_chain env entries = Inr chain \<longleftrightarrow> map (\<lambda>e. ParseCertificate env (CertDER e)) entries = map Inr chain"
proof (induction entries arbitrary: chain)
  case (Cons e entries)
  show ?case
    unfolding parse_chain.simps result_iff Cons.IH
    by (cases chain) auto
qed auto


subsection \<open>The messages\<close>

lemma remarshal_decoded:
  "UnmarshalHandshakeMessage b = Inr (hm, rest) \<Longrightarrow> remarshal hm = handshake_bytes hm \<and> b = remarshal hm @ rest"
  using handshake.dec_sound [of b hm rest] remarshal_eq [of hm] by simp

lemma messages_sound:
  assumes "UnmarshalHandshakeMessage auth = Inr (hm, rest)" "split_messages hm rest = Inr (cert, cv, fin)"
    "UnmarshalCertificateMessage cert = Inr (certMsg, r1)" "UnmarshalCertificateVerifyMessage cv = Inr (cvMsg, r2)"
    "UnmarshalFinishedMessage fin = Inr (finMsg, r3)"
  shows "auth = cert @ cv @ fin" "CertificateMessage_Marshal certMsg = Inr cert"
    "CertificateVerifyMessage_Marshal cvMsg = Inr cv" "FinishedMessage_Marshal finMsg = Inr fin"
proof -
  from assms(2) [unfolded split_messages_def result_iff]
  obtain cvHm rest' finHm rest'' where s: "UnmarshalHandshakeMessage rest = Inr (cvHm, rest')"
      "UnmarshalHandshakeMessage rest' = Inr (finHm, rest'')" "\<not> (hm_Type finHm \<noteq> 20 \<or> length rest'' \<noteq> 0)"
      "Inr (remarshal hm, remarshal cvHm, remarshal finHm) = (Inr (cert, cv, fin) :: _ auth_result)"
    by blast
  then show "auth = cert @ cv @ fin"
    using remarshal_decoded [OF assms(1)] remarshal_decoded [OF s(1)] remarshal_decoded [OF s(2)] by simp
  show "CertificateMessage_Marshal certMsg = Inr cert" using UnmarshalCertificateMessage_sound [OF assms(3)] by simp
  show "CertificateVerifyMessage_Marshal cvMsg = Inr cv"
    using assms(4) unfolding UnmarshalCertificateVerifyMessage_Inr by simp
  show "FinishedMessage_Marshal finMsg = Inr fin"
    using assms(5) unfolding UnmarshalFinishedMessage_Inr by simp
qed

lemma messages_complete:
  assumes "CertificateMessage_Marshal certMsg = Inr cert" "CertificateVerifyMessage_Marshal cvMsg = Inr cv"
    "FinishedMessage_Marshal finMsg = Inr fin"
  shows "\<exists>hm. UnmarshalHandshakeMessage (cert @ cv @ fin) = Inr (hm, cv @ fin)
      \<and> hm_Type hm = HandshakeTypeCertificate \<and> split_messages hm (cv @ fin) = Inr (cert, cv, fin)"
    and "UnmarshalCertificateMessage cert = Inr (certMsg, cert)"
    and "UnmarshalCertificateVerifyMessage cv = Inr (cvMsg, cv)" and "UnmarshalFinishedMessage fin = Inr (finMsg, fin)"
proof -
  let ?c = "\<lparr>hm_Type = HandshakeTypeCertificate, hm_Body = certificate_body certMsg\<rparr>"
  let ?v = "\<lparr>hm_Type = HandshakeTypeCertificateVerify, hm_Body = certverify_body cvMsg\<rparr>"
  let ?f = "\<lparr>hm_Type = HandshakeTypeFinished, hm_Body = fin_VerifyData finMsg\<rparr>"
  have c: "cert = handshake_bytes ?c" "handshake_ok ?c"
    using assms(1) unfolding CertificateMessage_Marshal_Inr by (auto simp: handshake_ok_def)
  have v: "cv = handshake_bytes ?v" "handshake_ok ?v"
    using assms(2) unfolding CertificateVerifyMessage_Marshal_Inr by (auto simp: handshake_ok_def certverify_body_def)
  have f: "fin = handshake_bytes ?f" "handshake_ok ?f"
    using assms(3) unfolding FinishedMessage_Marshal_Inr by (auto simp: handshake_ok_def)
  have "UnmarshalHandshakeMessage (cert @ cv @ fin) = Inr (?c, cv @ fin)"
    using handshake.dec_enc [OF c(2)] c(1) by simp
  moreover have "UnmarshalHandshakeMessage (cv @ fin) = Inr (?v, fin)" using handshake.dec_enc [OF v(2)] v(1) by simp
  moreover have "UnmarshalHandshakeMessage fin = Inr (?f, [])" using handshake.dec_enc [OF f(2), of "[]"] f(1) by simp
  ultimately show "\<exists>hm. UnmarshalHandshakeMessage (cert @ cv @ fin) = Inr (hm, cv @ fin)
      \<and> hm_Type hm = HandshakeTypeCertificate \<and> split_messages hm (cv @ fin) = Inr (cert, cv, fin)"
    using remarshal_eq c v f by (simp add: split_messages_def)
  show "UnmarshalCertificateMessage cert = Inr (certMsg, cert)"
    by (rule UnmarshalCertificateMessage_complete [OF assms(1)])
  show "UnmarshalCertificateVerifyMessage cv = Inr (cvMsg, cv)"
    using assms(2) unfolding UnmarshalCertificateVerifyMessage_Inr by simp
  show "UnmarshalFinishedMessage fin = Inr (finMsg, fin)"
    using assms(3) unfolding UnmarshalFinishedMessage_Inr by simp
qed


subsection \<open>The specification\<close>

text \<open>The exporter values of the session for one role, with the hash of its cipher suite.\<close>

definition session_keys :: "tls_state \<Rightarrow> 8 word \<Rightarrow> hash_alg \<Rightarrow> bytes \<Rightarrow> bytes \<Rightarrow> bool" where
  "session_keys st role h hsCtx fk \<longleftrightarrow> ExportHandshakeContext st role = Inr (hsCtx, h) \<and> ExportFinishedKey st role = Inr (fk, h)"

definition request_part :: "AuthenticatorRequest option \<Rightarrow> bytes \<Rightarrow> 16 word list \<Rightarrow> bool" where
  "request_part req reqBytes offered \<longleftrightarrow>
     (case req of None \<Rightarrow> reqBytes = [] \<and> offered = []
      | Some r \<Rightarrow> AuthenticatorRequest_Marshal r = Inr reqBytes \<and> SignatureSchemes r = Some offered)"

text \<open>
  The certificate part: the context is the requested one, the chain is that of the message, attestation sits
  on the leaf only, and every extension was asked for (or allowed by the local policy).
\<close>

definition certificate_part ::
    "'o crypto_env \<Rightarrow> AuthenticatorRequest option \<Rightarrow> SpontaneousAuthenticatorPolicy option \<Rightarrow> CertificateMessage
     \<Rightarrow> bytes option \<Rightarrow> key certificate list \<Rightarrow> bool" where
  "certificate_part env req policy certMsg extracted chain \<longleftrightarrow>
     (\<forall>r. req = Some r \<longrightarrow> cm_Context certMsg = req_Context r)
     \<and> cm_Entries certMsg \<noteq> [] \<and> map (\<lambda>e. ParseCertificate env (CertDER e)) (cm_Entries certMsg) = map Inr chain
     \<and> (\<forall>entry \<in> set (tl (cm_Entries certMsg)). \<forall>ext \<in> set (entry_Extensions entry).
          ext_Type ext \<noteq> CMWAttestationExtensionType)
     \<and> (\<forall>entry \<in> set (cm_Entries certMsg). \<forall>ext \<in> set (entry_Extensions entry).
          if req \<noteq> None then RequestPermitsCertificateExtension req (ext_Type ext)
          else PolicyPermitsCertificateExtension policy (ext_Type ext))
     \<and> ExtractCMWAttestationFromExtensions (entry_Extensions (hd (cm_Entries certMsg))) = Inr extracted"

text \<open>
  The proof part: a signature by the leaf key over the transcript up to the certificate, under an offered scheme,
  and the Finished MAC over the transcript up to that signature.
\<close>

definition proof_part ::
    "'o crypto_env \<Rightarrow> AuthenticatorRequest option \<Rightarrow> hash_alg \<Rightarrow> bytes \<Rightarrow> bytes \<Rightarrow> bytes \<Rightarrow> 16 word list \<Rightarrow> bytes \<Rightarrow> bytes
     \<Rightarrow> CertificateVerifyMessage \<Rightarrow> FinishedMessage \<Rightarrow> key certificate \<Rightarrow> bool" where
  "proof_part env req h hsCtx fk reqBytes offered cert cv cvMsg finMsg leaf \<longleftrightarrow>
     (req \<noteq> None \<longrightarrow> cv_Algorithm cvMsg \<in> set offered)
     \<and> verifyCertVerify env (cert_PublicKey leaf) (cv_Algorithm cvMsg)
         (digest (prim env) h (hsCtx @ reqBytes @ cert)) (cv_Signature cvMsg) = None
     \<and> fin_VerifyData finMsg = hmac (prim env) h fk (digest (prim env) h (hsCtx @ reqBytes @ cert @ cv))"

definition full_authenticator ::
    "'o crypto_env \<Rightarrow> tls_state \<Rightarrow> 8 word \<Rightarrow> AuthenticatorRequest option \<Rightarrow> SpontaneousAuthenticatorPolicy option
     \<Rightarrow> 'o option \<Rightarrow> bytes \<Rightarrow> CertificateMessage \<Rightarrow> key certificate list \<Rightarrow> bytes option \<Rightarrow> bool" where
  "full_authenticator env st role req policy verifyOpts auth certMsg chain extracted \<longleftrightarrow>
     (\<exists>h hsCtx fk reqBytes offered cert cv fin cvMsg finMsg.
        session_keys st role h hsCtx fk \<and> request_part req reqBytes offered
        \<and> auth = cert @ cv @ fin \<and> CertificateMessage_Marshal certMsg = Inr cert
        \<and> CertificateVerifyMessage_Marshal cvMsg = Inr cv \<and> FinishedMessage_Marshal finMsg = Inr fin
        \<and> certificate_part env req policy certMsg extracted chain
        \<and> proof_part env req h hsCtx fk reqBytes offered cert cv cvMsg finMsg (hd chain)
        \<and> (\<forall>opts. verifyOpts = Some opts \<longrightarrow> VerifyChain env opts (tl chain) (hd chain) = None))"

lemma request_part_iff:
  "(case req of None \<Rightarrow> Inr ([], []) | Some r \<Rightarrow> request_material r) = Inr (reqBytes, offered)
   \<longleftrightarrow> request_part req reqBytes offered"
  by (auto simp: request_part_def request_material_def split: option.splits sum.splits)

lemma first_extension_Some: "first_extension typ exts = Some e \<Longrightarrow> e \<in> set exts \<and> ext_Type e = typ"
  unfolding first_extension_def find_Some_iff using nth_mem by blast

lemma permitted_CMW:
  assumes "ExtractCMWAttestationFromExtensions exts = Inr (Some cmw)" and "validateCertificateEntryExtensions exts req policy = None"
  shows "if req \<noteq> None then RequestPermitsCertificateExtension req CMWAttestationExtensionType
    else PolicyPermitsCertificateExtension policy CMWAttestationExtensionType"
proof -
  obtain e where "first_extension CMWAttestationExtensionType exts = Some e"
    using assms(1) by (cases "first_extension CMWAttestationExtensionType exts")
      (auto simp: ExtractCMWAttestationFromExtensions_def)
  then have "e \<in> set exts" "ext_Type e = CMWAttestationExtensionType" using first_extension_Some by blast+
  then show ?thesis using assms(2) unfolding validateCertificateEntryExtensions_None by metis
qed

lemma validate_certificate_iff:
  "validate_certificate env req policy certMsg = Inr (extracted, chain) \<longleftrightarrow>
     certificate_part env req policy certMsg extracted chain"
proof -
  have p: "\<not> (extracted \<noteq> None \<and> req \<noteq> None \<and> \<not> RequestPermitsCertificateExtension req CMWAttestationExtensionType)"
    "\<not> (extracted \<noteq> None \<and> req = None \<and> \<not> PolicyPermitsCertificateExtension policy CMWAttestationExtensionType)"
    if "validate_entries (cm_Entries certMsg) req policy = None" "cm_Entries certMsg \<noteq> []"
      "ExtractCMWAttestationFromExtensions (entry_Extensions (hd (cm_Entries certMsg))) = Inr extracted" for extracted
  proof -
    have "validateCertificateEntryExtensions (entry_Extensions (hd (cm_Entries certMsg))) req policy = None"
      using that(1,2) unfolding validate_entries_None by simp
    then show "\<not> (extracted \<noteq> None \<and> req \<noteq> None \<and> \<not> RequestPermitsCertificateExtension req CMWAttestationExtensionType)"
      "\<not> (extracted \<noteq> None \<and> req = None \<and> \<not> PolicyPermitsCertificateExtension policy CMWAttestationExtensionType)"
      using permitted_CMW that(3) by (cases extracted; fastforce)+
  qed
  show ?thesis
    unfolding validate_certificate_def certificate_part_def result_iff parse_chain_Inr
      ValidateCMWAttestationPlacement_None [symmetric]
      validateCertificateEntryExtensions_None [symmetric] validate_entries_None [symmetric]
    using p by (cases req) auto
qed

lemma export_hash:
  "ExportHandshakeContext st role = Inr (a, h) \<Longrightarrow> ExportFinishedKey st role = Inr (b, h') \<Longrightarrow> h' = h"
  by (auto simp: ExportHandshakeContext_def ExportFinishedKey_def Let_def split: if_splits sum.splits)

lemma export_version: "ExportHandshakeContext st role = Inr x \<Longrightarrow> Version st = VersionTLS13"
  by (auto simp: ExportHandshakeContext_def split: if_splits)

lemma opts_None:
  "(case verifyOpts of None \<Rightarrow> None | Some opts \<Rightarrow> f opts) = None \<longleftrightarrow> (\<forall>opts. verifyOpts = Some opts \<longrightarrow> f opts = None)"
  by (cases verifyOpts) auto

lemma validate_full_iff:
  "validate_full env h hsCtx fk reqBytes offered req policy verifyOpts hm rest = Inr ch \<longleftrightarrow>
     (\<exists>cert cv fin certMsg cvMsg finMsg extracted chain r1 r2 r3. split_messages hm rest = Inr (cert, cv, fin)
        \<and> UnmarshalCertificateMessage cert = Inr (certMsg, r1) \<and> UnmarshalCertificateVerifyMessage cv = Inr (cvMsg, r2)
        \<and> UnmarshalFinishedMessage fin = Inr (finMsg, r3)
        \<and> certificate_part env req policy certMsg extracted chain
        \<and> proof_part env req h hsCtx fk reqBytes offered cert cv cvMsg finMsg (hd chain)
        \<and> (\<forall>opts. verifyOpts = Some opts \<longrightarrow> VerifyChain env opts (tl chain) (hd chain) = None)
        \<and> ch = FullAuth certMsg chain extracted)"
  unfolding validate_full_def Let_def result_iff opts_None hashConcat_eq hmacSum_def constantTimeEqual_iff
    validate_certificate_iff [symmetric] proof_part_def list_ex_iff
  by auto

lemma validate_empty_iff:
  "validate_empty env h hsCtx fk reqBytes req hm rest = Inr ch \<longleftrightarrow>
     (\<exists>r finMsg r3 cert. req = Some r \<and> rest = [] \<and> UnmarshalFinishedMessage (remarshal hm) = Inr (finMsg, r3)
        \<and> CertificateMessage_Marshal \<lparr>cm_Context = req_Context r, cm_Entries = []\<rparr> = Inr cert
        \<and> fin_VerifyData finMsg = hmac (prim env) h fk (digest (prim env) h (hsCtx @ reqBytes @ cert))
        \<and> ch = EmptyAuth (req_Context r))"
  unfolding validate_empty_def Let_def result_iff hashConcat_eq hmacSum_def constantTimeEqual_iff
  by auto

lemma validate_checks_iff:
  "validate_checks env st role req policy auth verifyOpts = Inr ch \<longleftrightarrow>
     (\<exists>h hsCtx fk reqBytes offered hm rest. session_keys st role h hsCtx fk \<and> request_part req reqBytes offered
        \<and> UnmarshalHandshakeMessage auth = Inr (hm, rest)
        \<and> (if hm_Type hm = HandshakeTypeFinished then validate_empty env h hsCtx fk reqBytes req hm rest = Inr ch
           else hm_Type hm = HandshakeTypeCertificate
             \<and> validate_full env h hsCtx fk reqBytes offered req policy verifyOpts hm rest = Inr ch))"
  (is "?l \<longleftrightarrow> ?r")
proof
  assume ?l
  from this [unfolded validate_checks_def result_iff]
  obtain hsCtx h fk h' reqBytes offered hm rest where u:
      "ExportHandshakeContext st role = Inr (hsCtx, h)" "ExportFinishedKey st role = Inr (fk, h')"
      "(case req of None \<Rightarrow> Inr ([], []) | Some r \<Rightarrow> request_material r) = Inr (reqBytes, offered)" "UnmarshalHandshakeMessage auth = Inr (hm, rest)"
      "(if hm_Type hm = HandshakeTypeFinished then validate_empty env h hsCtx fk reqBytes req hm rest
        else if hm_Type hm \<noteq> HandshakeTypeCertificate then Inl (EAErr ErrUnsupportedHandshakeType)
        else validate_full env h hsCtx fk reqBytes offered req policy verifyOpts hm rest) = Inr ch"
    by blast
  then show ?r unfolding session_keys_def request_part_iff using export_hash [OF u(1,2)]
    by (intro exI [of _ h] exI [of _ hsCtx] exI [of _ fk] exI [of _ reqBytes] exI [of _ offered] exI [of _ hm] exI [of _ rest])
       (auto split: if_splits)
next
  assume ?r
  then obtain h hsCtx fk reqBytes offered hm rest where u: "ExportHandshakeContext st role = Inr (hsCtx, h)"
      "ExportFinishedKey st role = Inr (fk, h)" "request_part req reqBytes offered"
      "UnmarshalHandshakeMessage auth = Inr (hm, rest)"
      "if hm_Type hm = HandshakeTypeFinished then validate_empty env h hsCtx fk reqBytes req hm rest = Inr ch
       else hm_Type hm = HandshakeTypeCertificate
         \<and> validate_full env h hsCtx fk reqBytes offered req policy verifyOpts hm rest = Inr ch"
    unfolding session_keys_def by blast
  then show ?l unfolding validate_checks_def u(1,2,4) request_part_iff [symmetric]
    using export_version [OF u(1)] u(3) [folded request_part_iff] by (auto split: if_splits)
qed

lemma validate_checks_Full:
  "validate_checks env st role req policy auth verifyOpts = Inr (FullAuth certMsg chain extracted) \<longleftrightarrow>
     full_authenticator env st role req policy verifyOpts auth certMsg chain extracted" (is "?l \<longleftrightarrow> ?r")
proof
  assume ?l
  then obtain h hsCtx fk reqBytes offered hm rest where u: "session_keys st role h hsCtx fk"
      "request_part req reqBytes offered" "UnmarshalHandshakeMessage auth = Inr (hm, rest)"
      "validate_full env h hsCtx fk reqBytes offered req policy verifyOpts hm rest = Inr (FullAuth certMsg chain extracted)"
    unfolding validate_checks_iff validate_empty_iff by (auto split: if_splits)
  from u(4) obtain cert cv fin cvMsg finMsg r1 r2 r3 where w: "split_messages hm rest = Inr (cert, cv, fin)"
      "UnmarshalCertificateMessage cert = Inr (certMsg, r1)" "UnmarshalCertificateVerifyMessage cv = Inr (cvMsg, r2)"
      "UnmarshalFinishedMessage fin = Inr (finMsg, r3)" "certificate_part env req policy certMsg extracted chain"
      "proof_part env req h hsCtx fk reqBytes offered cert cv cvMsg finMsg (hd chain)"
      "\<forall>opts. verifyOpts = Some opts \<longrightarrow> VerifyChain env opts (tl chain) (hd chain) = None"
    unfolding validate_full_iff by blast
  from messages_sound [OF u(3) w(1-4)] show ?r
    unfolding full_authenticator_def using u(1,2) w(5-7) by blast
next
  assume ?r
  then obtain h hsCtx fk reqBytes offered cert cv fin cvMsg finMsg where w:
      "session_keys st role h hsCtx fk" "request_part req reqBytes offered" "auth = cert @ cv @ fin"
      "CertificateMessage_Marshal certMsg = Inr cert" "CertificateVerifyMessage_Marshal cvMsg = Inr cv"
      "FinishedMessage_Marshal finMsg = Inr fin" "certificate_part env req policy certMsg extracted chain"
      "proof_part env req h hsCtx fk reqBytes offered cert cv cvMsg finMsg (hd chain)"
      "\<forall>opts. verifyOpts = Some opts \<longrightarrow> VerifyChain env opts (tl chain) (hd chain) = None"
    unfolding full_authenticator_def by blast
  note m = messages_complete [OF w(4-6)]
  from m(1) obtain hm where hm: "UnmarshalHandshakeMessage auth = Inr (hm, cv @ fin)"
      "hm_Type hm = HandshakeTypeCertificate" "split_messages hm (cv @ fin) = Inr (cert, cv, fin)"
    unfolding w(3) by blast
  have "validate_full env h hsCtx fk reqBytes offered req policy verifyOpts hm (cv @ fin) = Inr (FullAuth certMsg chain extracted)"
    unfolding validate_full_iff using hm(3) m(2-4) w(7-9) by blast
  then show ?l unfolding validate_checks_iff using w(1,2) hm(1,2) by auto blast
qed


subsection \<open>Acceptance\<close>

definition policy_or_default :: "VerificationPolicy option \<Rightarrow> VerificationPolicy" where
  "policy_or_default attPolicy =
     (case attPolicy of None \<Rightarrow> \<lparr>EvidenceVerifier = None, ResultsVerifier = None\<rparr> | Some p \<Rightarrow> p)"

text \<open>What the attestation of a full authenticator is, given the CMW extension found on the leaf.\<close>

definition attestation_part ::
    "'o crypto_env \<Rightarrow> tls_state \<Rightarrow> VerificationPolicy option \<Rightarrow> bytes \<Rightarrow> key certificate \<Rightarrow> bytes option
     \<Rightarrow> VerifiedPayload option \<Rightarrow> bool" where
  "attestation_part env st attPolicy ctx leaf extracted att \<longleftrightarrow>
     (case extracted of
        None \<Rightarrow> att = None \<and> \<not> RequiresAttestation (policy_or_default attPolicy)
      | Some cmw \<Rightarrow> (\<exists>payload v. ParsePayload (json_Payload env) cmw = Inr payload \<and> att = Some v
          \<and> VerifyPayload (prim env) (MarshalPKIXPublicKey env) st ExporterLabelAttestation ctx (Some leaf)
              (Some payload) (policy_or_default attPolicy) = Inr v))"

lemma validate_attestation_Full:
  "validate_attestation env st attPolicy (FullAuth certMsg chain extracted) = Inr res \<longleftrightarrow>
     attestation_part env st attPolicy (cm_Context certMsg) (hd chain) extracted (VR_Attestation res)
     \<and> VR_Context res = cm_Context certMsg \<and> VR_Chain res = chain \<and> \<not> VR_Empty res
     \<and> VR_CMWAttestation res = (case extracted of None \<Rightarrow> [] | Some cmw \<Rightarrow> cmw)"
  by (cases res) (auto simp: validate_attestation_def attestation_part_def policy_or_default_def Let_def
      split: option.splits sum.splits)

lemma MarkContextUsed_None:
  "MarkContextUsed ctx s = (None, s') \<longleftrightarrow>
     (s = None \<and> s' = None) \<or> (\<exists>t. s = Some t \<and> ctx \<notin> used t \<and> s' = Some (t\<lparr>used := insert ctx (used t)\<rparr>))"
  by (auto simp: MarkContextUsed_def split: option.splits if_splits)

lemma validateAuthenticator_Inr:
  "validateAuthenticator env s st role req policy attPolicy auth verifyOpts = (Inr res, s') \<longleftrightarrow>
     (\<exists>ch. validate_checks env st role req policy auth verifyOpts = Inr ch
        \<and> MarkContextUsed (checked_context ch) s = (None, s') \<and> validate_attestation env st attPolicy ch = Inr res)"
  by (auto simp: validateAuthenticator_def split: sum.splits prod.splits option.splits)

lemma accepted_full:
  assumes "validateAuthenticator env s st role req policy attPolicy auth verifyOpts = (Inr res, s')"
    and "\<not> VR_Empty res"
  shows "\<exists>certMsg extracted.
    full_authenticator env st role req policy verifyOpts auth certMsg (VR_Chain res) extracted
    \<and> VR_Context res = cm_Context certMsg
    \<and> MarkContextUsed (VR_Context res) s = (None, s')
    \<and> attestation_part env st attPolicy (VR_Context res) (hd (VR_Chain res)) extracted (VR_Attestation res)"
proof -
  obtain ch where ch: "validate_checks env st role req policy auth verifyOpts = Inr ch"
      "MarkContextUsed (checked_context ch) s = (None, s')" "validate_attestation env st attPolicy ch = Inr res"
    using assms(1) unfolding validateAuthenticator_Inr by blast
  then obtain certMsg chain extracted where f: "ch = FullAuth certMsg chain extracted"
    using assms(2) by (cases ch) (auto simp: validate_attestation_def)
  from ch show ?thesis
    unfolding f validate_checks_Full validate_attestation_Full by (auto simp: checked_context_def)
qed

text \<open>
  C14: what an accepted authenticator proves. If validation returns a result that is not an empty authenticator,
  then the bytes are exactly one Certificate, CertificateVerify and Finished message, the context is the
  requested one and was not used before in this session, the leaf key signed the transcript of this TLS session,
  this request and this certificate message under an offered scheme, the Finished MAC is keyed by this session,
  every extension was asked for, the chain verified, and the attestation demanded by the policy was verified for
  this leaf and context.
\<close>

theorem accepted_authenticator:
  assumes "validateAuthenticator env s st role req policy attPolicy auth verifyOpts = (Inr res, s')"
    and "\<not> VR_Empty res"
  shows "\<exists>certMsg extracted.
    full_authenticator env st role req policy verifyOpts auth certMsg (VR_Chain res) extracted
    \<and> VR_Context res = cm_Context certMsg
    \<and> MarkContextUsed (VR_Context res) s = (None, s')
    \<and> attestation_part env st attPolicy (VR_Context res) (hd (VR_Chain res)) extracted (VR_Attestation res)"
  by (rule accepted_full [OF assms])


subsection \<open>Creation meets validation\<close>

lemma certificate_entries_nth:
  "certificate_entries (der # ders) exts =
     \<lparr>CertDER = der, entry_Extensions = exts\<rparr> # map (\<lambda>d. \<lparr>CertDER = d, entry_Extensions = []\<rparr>) ders"
proof -
  have "map (\<lambda>(i, der). \<lparr>CertDER = der, entry_Extensions = (if i = 0 \<and> 0 < length exts then exts else [])\<rparr>)
      (enumerate (Suc n) ds) = map (\<lambda>d. \<lparr>CertDER = d, entry_Extensions = []\<rparr>) ds" for n ds
    by (induction ds arbitrary: n) auto
  then show ?thesis by (simp add: certificate_entries_def)
qed

lemma offered_nonempty:
  assumes "parseSignatureSchemesExtension exts typ = Some schemes"
  shows "schemes \<noteq> []"
proof -
  obtain e where e: "first_extension typ exts = Some e"
    using assms by (cases "first_extension typ exts") (auto simp: parseSignatureSchemesExtension_def)
  have d: "\<not> unat (readUint16 (ext_Data e)) < 2" "even (unat (readUint16 (ext_Data e)))"
      "length (ext_Data e) = 2 + unat (readUint16 (ext_Data e))" "schemes = read16s (drop 2 (ext_Data e))"
    using assms by (auto simp: parseSignatureSchemesExtension_def e Let_def split: if_splits)
  have "length (drop 2 (ext_Data e)) = unat (readUint16 (ext_Data e))" using d(3) by simp
  then have "2 * length schemes = unat (readUint16 (ext_Data e))"
    using read16s_length [of "drop 2 (ext_Data e)"] d(2,4) by simp
  then show "schemes \<noteq> []" using d(1) by auto
qed

lemma chosen_scheme_offered: "chooseSignatureScheme priv offered = Inr s \<Longrightarrow> offered \<noteq> [] \<Longrightarrow> s \<in> set offered"
  by (auto simp: chooseSignatureScheme_def find_Some_iff split: option.splits)

lemma created_full_authenticator:
  assumes create: "create_messages env st role (Some r) policy
      \<lparr>id_Certificate = der # ders, id_PrivateKey = Some priv\<rparr> exts = Inr (ctx, auth)"
    and sig: "\<And>scheme th sg. signCertVerify env priv scheme th = Inr sg \<Longrightarrow>
      verifyCertVerify env (cert_PublicKey leaf) scheme th sg = None"
    and parse: "map (ParseCertificate env) (der # ders) = map Inr (leaf # cs)"
    and chain: "\<And>opts. verifyOpts = Some opts \<Longrightarrow> VerifyChain env opts cs leaf = None"
    and cmw: "ExtractCMWAttestationFromExtensions exts = Inr extracted"
  shows "ctx = req_Context r
    \<and> full_authenticator env st role (Some r) None verifyOpts auth
        \<lparr>cm_Context = req_Context r, cm_Entries = certificate_entries (der # ders) exts\<rparr> (leaf # cs) extracted"
proof -
  let ?msg = "\<lparr>cm_Context = req_Context r, cm_Entries = certificate_entries (der # ders) exts\<rparr>"
  from create [unfolded create_messages_def Let_def result_iff option.case]
  obtain hsCtx h fk h' reqBytes offered scheme where u:
      "validateCertificateEntryExtensions exts (Some r) policy = None" "request_material r = Inr (reqBytes, offered)"
      "ExportHandshakeContext st role = Inr (hsCtx, h)" "ExportFinishedKey st role = Inr (fk, h')"
      "chooseSignatureScheme priv offered = Inr scheme"
      "create_full env h hsCtx fk reqBytes (req_Context r) (certificate_entries (der # ders) exts) priv scheme = Inr auth"
      "ctx = req_Context r"
    by (auto simp: result_iff)
  from u(6) [unfolded create_full_def Let_def result_iff hashConcat_eq hmacSum_def]
  obtain cert sg cv fin where w: "CertificateMessage_Marshal ?msg = Inr cert"
      "signCertVerify env priv scheme (digest (prim env) h (concat [hsCtx, reqBytes, cert])) = Inr sg"
      "CertificateVerifyMessage_Marshal \<lparr>cv_Algorithm = scheme, cv_Signature = sg\<rparr> = Inr cv"
      "FinishedMessage_Marshal \<lparr>fin_VerifyData = hmac (prim env) h fk
         (digest (prim env) h (concat [hsCtx, reqBytes, cert, cv]))\<rparr> = Inr fin"
      "Inr (cert @ cv @ fin) = (Inr auth :: _ auth_result)"
    by blast
  have "session_keys st role h hsCtx fk"
    using u(3,4) export_hash [OF u(3,4)] by (simp add: session_keys_def)
  moreover have "request_part (Some r) reqBytes offered"
    using u(2) request_part_iff [of "Some r" reqBytes offered] by simp
  moreover have "scheme \<in> set offered"
    using u(2,5) by (auto simp: request_material_def SignatureSchemes_def dest: offered_nonempty
        intro: chosen_scheme_offered split: sum.splits option.splits)
  moreover have "certificate_part env (Some r) None ?msg extracted (leaf # cs)"
    using u(1) parse cmw
    by (auto simp: certificate_part_def certificate_entries_nth validateCertificateEntryExtensions_None comp_def)
  moreover have "proof_part env (Some r) h hsCtx fk reqBytes offered cert cv \<lparr>cv_Algorithm = scheme, cv_Signature = sg\<rparr>
      \<lparr>fin_VerifyData = hmac (prim env) h fk (digest (prim env) h (concat [hsCtx, reqBytes, cert, cv]))\<rparr> leaf"
    using \<open>scheme \<in> set offered\<close> sig [OF w(2)] by (simp add: proof_part_def)
  moreover have "auth = cert @ cv @ fin" using w(5) by simp
  ultimately have "full_authenticator env st role (Some r) None verifyOpts auth ?msg (leaf # cs) extracted"
    unfolding full_authenticator_def list.sel using w(1,3,4) chain by blast
  then show ?thesis using u(7) by blast
qed


lemma created_validates:
  assumes "createAuthenticator env s st role (Some r) policy
      \<lparr>id_Certificate = der # ders, id_PrivateKey = Some priv\<rparr> exts = (Inr auth, s1)"
    and "\<And>scheme th sg. signCertVerify env priv scheme th = Inr sg \<Longrightarrow>
      verifyCertVerify env (cert_PublicKey leaf) scheme th sg = None"
    and "map (ParseCertificate env) (der # ders) = map Inr (leaf # cs)"
    and "\<And>opts. verifyOpts = Some opts \<Longrightarrow> VerifyChain env opts cs leaf = None"
    and "ExtractCMWAttestationFromExtensions exts = Inr extracted"
    and "attestation_part env st attPolicy (req_Context r) leaf extracted att"
  shows "validateAuthenticator env None st role (Some r) None attPolicy auth verifyOpts =
    (Inr \<lparr>VR_Context = req_Context r, VR_Chain = leaf # cs,
       VR_CMWAttestation = (case extracted of None \<Rightarrow> [] | Some cmw \<Rightarrow> cmw), VR_Attestation = att, VR_Empty = False\<rparr>, None)"
proof -
  obtain ctx where "create_messages env st role (Some r) policy
      \<lparr>id_Certificate = der # ders, id_PrivateKey = Some priv\<rparr> exts = Inr (ctx, auth)"
    using assms(1) by (auto simp: createAuthenticator_def split: sum.splits prod.splits option.splits)
  from conjunct2 [OF created_full_authenticator [OF this assms(2-5)]]
  have c: "validate_checks env st role (Some r) None auth verifyOpts = Inr (FullAuth
      \<lparr>cm_Context = req_Context r, cm_Entries = certificate_entries (der # ders) exts\<rparr> (leaf # cs) extracted)"
    unfolding validate_checks_Full .
  show ?thesis
    unfolding validateAuthenticator_Inr
    by (rule exI, rule conjI [OF c]) (simp add: validate_attestation_Full checked_context_def MarkContextUsed_def assms(6))
qed



subsection \<open>A sample run\<close>

definition sample_env :: "unit crypto_env" where
  "sample_env = \<lparr>prim = \<lparr>digest = (\<lambda>h b. [1]), hmac = (\<lambda>h k b. [2])\<rparr>,
     ecdsa_SignASN1 = (\<lambda>k d. Inl ''no key''), ecdsa_VerifyASN1 = (\<lambda>k d s. False),
     rsa_SignPSS = (\<lambda>k h d. Inl ''no key''), rsa_VerifyPSS = (\<lambda>k h d s. False),
     ed25519_Sign = (\<lambda>k m. [3]), ed25519_Verify = (\<lambda>k m s. s = [3]), rand_Read = (\<lambda>n. Inr (replicate n 0)),
     ParseCertificate = (\<lambda>der. Inr \<lparr>cert_Raw = der, RawSubjectPublicKeyInfo = [5, 6], cert_PublicKey = Ed25519_key [5]\<rparr>),
     MarshalPKIXPublicKey = (\<lambda>k. Inr []), VerifyChain = (\<lambda>opts cs c. None), json_Payload = (\<lambda>b. None)\<rparr>"

definition sample_request :: AuthenticatorRequest where
  "sample_request = \<lparr>req_Type = HandshakeTypeCertificateRequest, req_Context = [1, 2],
     req_Extensions = [\<lparr>ext_Type = SignatureAlgorithmsExtensionType, ext_Data = [0, 2, 8, 7]\<rparr>]\<rparr>"

definition sample_identity :: tls_identity where
  "sample_identity = \<lparr>id_Certificate = [[9]], id_PrivateKey = Some (Ed25519_key [5])\<rparr>"

lemma sample_schemes: "SignatureSchemes sample_request = Some [Ed25519]"
  by (simp add: SignatureSchemes_def parseSignatureSchemesExtension_def first_extension_def sample_request_def
      readUint16_def)

lemma sample_request_ok: "request_ok sample_request"
  by (simp add: request_ok_def sample_request_def extensions_ok_def extension_bytes_def)

lemma sample_request_material: "request_material sample_request = Inr (request_bytes sample_request, [Ed25519])"
  using AuthenticatorRequest_Marshal_Inr [of sample_request "request_bytes sample_request"] sample_request_ok
  by (simp add: request_material_def sample_schemes)

lemma sample_export:
  "ExportHandshakeContext sample_tls role = Inr (replicate 32 7, SHA256)"
  "ExportFinishedKey sample_tls role = Inr (replicate 32 7, SHA256)"
  by (simp_all add: ExportHandshakeContext_def ExportFinishedKey_def AuthenticatorHashTLS13_def sample_tls_def)

lemma sample_certificate_marshal:
  "\<exists>b. CertificateMessage_Marshal \<lparr>cm_Context = [1, 2], cm_Entries = certificate_entries [[9]] []\<rparr> = Inr b"
  unfolding CertificateMessage_Marshal_Inr
  by (simp add: certificate_entries_nth entry_ok_def extensions_ok_def certificate_body_def ctx_bytes_def
      entry_bytes_def extensions_bytes_def)

lemma sample_create:
  "\<exists>auth. createAuthenticator sample_env (Some NewSession) sample_tls RoleServer (Some sample_request) None sample_identity []
     = (Inr auth, Some \<lparr>used = {[1, 2]}\<rparr>) \<and> length auth \<le> 100"
proof -
  obtain cert where cert: "CertificateMessage_Marshal \<lparr>cm_Context = [1, 2], cm_Entries = certificate_entries [[9]] []\<rparr> = Inr cert"
    using sample_certificate_marshal by blast
  obtain cv where cv: "CertificateVerifyMessage_Marshal \<lparr>cv_Algorithm = Ed25519, cv_Signature = [3]\<rparr> = Inr cv"
    unfolding CertificateVerifyMessage_Marshal_Inr by simp
  obtain fin where fin: "FinishedMessage_Marshal \<lparr>fin_VerifyData = [2]\<rparr> = Inr fin"
    unfolding FinishedMessage_Marshal_Inr by simp
  have "signCertVerify sample_env (Ed25519_key [5]) Ed25519 th = Inr [3]" for th
    by (simp add: signCertVerify_def signatureSchemeInfo_def sample_env_def)
  then have "create_full sample_env SHA256 (replicate 32 7) (replicate 32 7) (request_bytes sample_request) [1, 2]
      (certificate_entries [[9]] []) (Ed25519_key [5]) Ed25519 = Inr (cert @ cv @ fin)"
    by (simp add: create_full_def cert cv fin hmacSum_def sample_env_def)
  moreover have "chooseSignatureScheme (Ed25519_key [5]) [Ed25519] = Inr Ed25519"
    by (simp add: chooseSignatureScheme_def compat_def signatureSchemeInfo_def)
  moreover have "req_Context sample_request = [1, 2]" by (simp add: sample_request_def)
  moreover have "Version sample_tls = VersionTLS13" by (simp add: sample_tls_def)
  ultimately have "create_messages sample_env sample_tls RoleServer (Some sample_request) None sample_identity []
      = Inr ([1, 2], cert @ cv @ fin)"
    by (simp add: create_messages_def sample_request_material sample_export sample_identity_def)
  moreover have "length (cert @ cv @ fin) \<le> 100"
    using cert cv fin
    by (simp add: CertificateMessage_Marshal_Inr CertificateVerifyMessage_Marshal_Inr FinishedMessage_Marshal_Inr handshake_bytes_def
        certificate_body_def certverify_body_def ctx_bytes_def certificate_entries_nth entry_bytes_def extensions_bytes_def)
  ultimately show ?thesis by (simp add: createAuthenticator_def MarkContextUsed_def NewSession_def)
qed

definition sample_chain :: "key certificate list" where
  "sample_chain = [\<lparr>cert_Raw = [9], RawSubjectPublicKeyInfo = [5, 6], cert_PublicKey = Ed25519_key [5]\<rparr>]"

lemma sample_sign_verifies:
  "signCertVerify sample_env (Ed25519_key [5]) scheme th = Inr sg \<Longrightarrow>
   verifyCertVerify sample_env (cert_PublicKey (hd sample_chain)) scheme th sg = None"
  by (auto simp: signCertVerify_def verifyCertVerify_def signatureSchemeInfo_def sample_env_def sample_chain_def
      split: if_splits)



lemma sample_validate:
  "\<exists>auth. validateAuthenticator sample_env (Some NewSession) sample_tls RoleServer (Some sample_request) None None auth (Some ())
     = (Inr \<lparr>VR_Context = [1, 2], VR_Chain = sample_chain, VR_CMWAttestation = [], VR_Attestation = None,
            VR_Empty = False\<rparr>, Some \<lparr>used = {[1, 2]}\<rparr>)"
proof -
  obtain ctx auth where "create_messages sample_env sample_tls RoleServer (Some sample_request) None
      \<lparr>id_Certificate = [9] # [], id_PrivateKey = Some (Ed25519_key [5])\<rparr> [] = Inr (ctx, auth)"
    using sample_create
    by (auto simp: createAuthenticator_def sample_identity_def split: sum.splits prod.splits option.splits)
  from conjunct2 [OF created_full_authenticator [OF this sample_sign_verifies, of "[]" "Some ()" None]]
  have "validate_checks sample_env sample_tls RoleServer (Some sample_request) None auth (Some ()) = Inr (FullAuth
      \<lparr>cm_Context = req_Context sample_request, cm_Entries = certificate_entries [[9]] []\<rparr> (hd sample_chain # []) None)"
    unfolding validate_checks_Full
    by (simp add: sample_env_def sample_chain_def ExtractCMWAttestationFromExtensions_def first_extension_def)
  then have "validateAuthenticator sample_env (Some NewSession) sample_tls RoleServer (Some sample_request) None None auth (Some ())
     = (Inr \<lparr>VR_Context = [1, 2], VR_Chain = sample_chain, VR_CMWAttestation = [], VR_Attestation = None,
            VR_Empty = False\<rparr>, Some \<lparr>used = {[1, 2]}\<rparr>)"
    by (simp add: validateAuthenticator_def checked_context_def MarkContextUsed_def NewSession_def validate_attestation_def
        RequiresAttestation_def sample_request_def sample_chain_def)
  then show ?thesis by blast
qed

theorem accepted_authenticator_witness:
  "\<exists>auth certMsg extracted. full_authenticator sample_env sample_tls RoleServer (Some sample_request) None (Some ()) auth
     certMsg sample_chain extracted \<and> cm_Context certMsg = [1, 2]"
proof -
  obtain auth where "validateAuthenticator sample_env (Some NewSession) sample_tls RoleServer (Some sample_request) None None
       auth (Some ())
     = (Inr \<lparr>VR_Context = [1, 2], VR_Chain = sample_chain, VR_CMWAttestation = [], VR_Attestation = None,
            VR_Empty = False\<rparr>, Some \<lparr>used = {[1, 2]}\<rparr>)" using sample_validate by blast
  from accepted_authenticator [OF this] obtain certMsg extracted where
      "full_authenticator sample_env sample_tls RoleServer (Some sample_request) None (Some ()) auth certMsg sample_chain extracted"
      "cm_Context certMsg = [1, 2]"
    by auto
  then show ?thesis by blast
qed


subsection \<open>One use of a context per session\<close>

inductive session_run :: "'o crypto_env \<Rightarrow> Session \<Rightarrow> Session \<Rightarrow> bool" for env where
  start: "session_run env s s"
| created: "session_run env s t \<Longrightarrow>
    createAuthenticator env (Some t) st role req policy identity exts = (r, Some u) \<Longrightarrow> session_run env s u"
| validated: "session_run env s t \<Longrightarrow>
    validateAuthenticator env (Some t) st role req policy attPolicy auth verifyOpts = (v, Some u) \<Longrightarrow> session_run env s u"

lemma MarkContextUsed_grows: "MarkContextUsed ctx (Some t) = (e, Some u) \<Longrightarrow> used t \<subseteq> used u"
  by (auto simp: MarkContextUsed_def split: if_splits)

lemma createAuthenticator_grows:
  "createAuthenticator env (Some t) st role req policy identity exts = (r, Some u) \<Longrightarrow> used t \<subseteq> used u"
  using MarkContextUsed_grows
  by (fastforce simp: createAuthenticator_def split: sum.splits prod.splits option.splits)

lemma validateAuthenticator_grows:
  "validateAuthenticator env (Some t) st role req policy attPolicy auth verifyOpts = (v, Some u) \<Longrightarrow> used t \<subseteq> used u"
  using MarkContextUsed_grows
  by (fastforce simp: validateAuthenticator_def split: sum.splits prod.splits option.splits)

lemma session_run_grows: "session_run env s t \<Longrightarrow> used s \<subseteq> used t"
proof (induction rule: session_run.induct)
  case (created s t st role req policy identity exts r u)
  then show ?case using createAuthenticator_grows by blast
next
  case (validated s t st role req policy attPolicy auth verifyOpts v u)
  then show ?case using validateAuthenticator_grows by blast
qed simp

lemma checked_context_request:
  "validate_checks env st role (Some r) policy auth verifyOpts = Inr ch \<Longrightarrow> checked_context ch = req_Context r"
  unfolding validate_checks_iff validate_empty_iff validate_full_iff certificate_part_def
  by (auto simp: checked_context_def split: if_splits)

lemma accepted_context:
  assumes "validateAuthenticator env s st role req policy attPolicy auth verifyOpts = (Inr res, s')"
  shows "MarkContextUsed (VR_Context res) s = (None, s')"
proof -
  obtain ch where ch: "MarkContextUsed (checked_context ch) s = (None, s')" "validate_attestation env st attPolicy ch = Inr res"
    using assms unfolding validateAuthenticator_Inr by blast
  have "VR_Context res = checked_context ch"
  proof (cases ch)
    case (EmptyAuth ctx)
    then show ?thesis using ch(2) by (auto simp: validate_attestation_def checked_context_def)
  next
    case (FullAuth m chain x)
    then show ?thesis using ch(2) by (simp add: validate_attestation_Full checked_context_def)
  qed
  then show ?thesis using ch(1) by simp
qed

text \<open>
  C16: within one session an authenticator context is accepted once. After an accepted validation, whatever
  authenticators are then created or validated in that session, a validation for a request with the same context
  fails, on any bytes.
\<close>

theorem context_accepted_once:
  assumes "validateAuthenticator env (Some s) st role req policy attPolicy auth verifyOpts = (Inr res, Some s1)"
    and "session_run env s1 s2" and "req_Context r' = VR_Context res"
  shows "isl (fst (validateAuthenticator env (Some s2) st' role' (Some r') policy' attPolicy' auth' verifyOpts'))"
proof -
  have "VR_Context res \<in> used s1"
    using accepted_context [OF assms(1)] by (auto simp: MarkContextUsed_None)
  then have u: "req_Context r' \<in> used s2" using session_run_grows [OF assms(2)] assms(3) by auto
  show ?thesis
  proof (cases "validate_checks env st' role' (Some r') policy' auth' verifyOpts'")
    case (Inr ch)
    then show ?thesis
      using checked_context_request [OF Inr] u by (simp add: validateAuthenticator_def MarkContextUsed_def)
  qed (simp add: validateAuthenticator_def)
qed

theorem context_accepted_once_witness:
  "isl (fst (validateAuthenticator sample_env (Some \<lparr>used = {[1, 2]}\<rparr>) sample_tls RoleServer (Some sample_request)
     None None [] None))"
proof -
  obtain auth where "validateAuthenticator sample_env (Some NewSession) sample_tls RoleServer (Some sample_request) None None
       auth (Some ())
     = (Inr \<lparr>VR_Context = [1, 2], VR_Chain = sample_chain, VR_CMWAttestation = [], VR_Attestation = None,
            VR_Empty = False\<rparr>, Some \<lparr>used = {[1, 2]}\<rparr>)" using sample_validate by blast
  from context_accepted_once [OF this session_run.start, of sample_request] show ?thesis
    by (simp add: sample_request_def)
qed


subsection \<open>Empty authenticators\<close>

text \<open>
  C17: an empty authenticator (Finished only) created for a request is accepted for that request under every
  attestation policy: a policy that requires attestation is not consulted on this path, and the result
  carries no attestation.
\<close>

theorem empty_authenticator_accepted:
  assumes "createAuthenticator env s st role (Some r) policy \<lparr>id_Certificate = [], id_PrivateKey = None\<rparr> exts
    = (Inr auth, s1)"
  shows "ValidateAuthenticatorWithAttestation env st role (Some r) auth verifyOpts attPolicy =
    Inr \<lparr>VR_Context = req_Context r, VR_Chain = [], VR_CMWAttestation = [], VR_Attestation = None, VR_Empty = True\<rparr>"
proof -
  obtain ctx where "create_messages env st role (Some r) policy \<lparr>id_Certificate = [], id_PrivateKey = None\<rparr> exts
      = Inr (ctx, auth)"
    using assms by (auto simp: createAuthenticator_def split: sum.splits prod.splits option.splits)
  from this [unfolded create_messages_def Let_def result_iff option.case]
  obtain hsCtx h fk h' reqBytes offered where u: "request_material r = Inr (reqBytes, offered)"
      "ExportHandshakeContext st role = Inr (hsCtx, h)" "ExportFinishedKey st role = Inr (fk, h')"
      "create_empty env h hsCtx fk reqBytes (req_Context r) = Inr auth"
    by (auto simp: result_iff)
  from u(4) [unfolded create_empty_def Let_def result_iff hashConcat_eq hmacSum_def]
  obtain cert where w: "CertificateMessage_Marshal \<lparr>cm_Context = req_Context r, cm_Entries = []\<rparr> = Inr cert"
      "FinishedMessage_Marshal \<lparr>fin_VerifyData = hmac (prim env) h fk
         (digest (prim env) h (concat [hsCtx, reqBytes, cert]))\<rparr> = Inr auth"
    by blast
  let ?fin = "\<lparr>fin_VerifyData = hmac (prim env) h fk (digest (prim env) h (hsCtx @ reqBytes @ cert))\<rparr>"
  let ?hm = "\<lparr>hm_Type = HandshakeTypeFinished, hm_Body = fin_VerifyData ?fin\<rparr>"
  have f: "FinishedMessage_Marshal ?fin = Inr auth" using w(2) by simp
  then have hm: "handshake_ok ?hm" "auth = handshake_bytes ?hm"
    unfolding FinishedMessage_Marshal_Inr by (auto simp: handshake_ok_def)
  have d: "UnmarshalHandshakeMessage auth = Inr (?hm, [])" using handshake.dec_enc [OF hm(1), of "[]"] hm(2) by simp
  have "UnmarshalFinishedMessage (remarshal ?hm) = Inr (?fin, auth)"
    using f hm remarshal_eq [OF hm(1)] by (simp add: UnmarshalFinishedMessage_Inr)
  then have "validate_empty env h hsCtx fk reqBytes (Some r) ?hm [] = Inr (EmptyAuth (req_Context r))"
    unfolding validate_empty_iff using w(1) by auto
  moreover have "session_keys st role h hsCtx fk" using u(2,3) export_hash [OF u(2,3)] by (simp add: session_keys_def)
  moreover have "request_part (Some r) reqBytes offered" using u(1) request_part_iff [of "Some r" reqBytes offered] by simp
  ultimately have "validate_checks env st role (Some r) None auth verifyOpts = Inr (EmptyAuth (req_Context r))"
    unfolding validate_checks_iff using d by auto blast
  then show ?thesis
    by (simp add: ValidateAuthenticatorWithAttestation_def validateAuthenticator_def MarkContextUsed_def validate_attestation_def)
qed

lemma sample_empty_create:
  "\<exists>auth. createAuthenticator sample_env None sample_tls RoleServer (Some sample_request) None
     \<lparr>id_Certificate = [], id_PrivateKey = None\<rparr> [] = (Inr auth, None)"
proof -
  obtain cert where cert: "CertificateMessage_Marshal \<lparr>cm_Context = [1, 2], cm_Entries = []\<rparr> = Inr cert"
    unfolding CertificateMessage_Marshal_Inr by (simp add: certificate_body_def ctx_bytes_def)
  obtain fin where fin: "FinishedMessage_Marshal \<lparr>fin_VerifyData = [2]\<rparr> = Inr fin"
    unfolding FinishedMessage_Marshal_Inr by simp
  have "create_empty sample_env SHA256 (replicate 32 7) (replicate 32 7) (request_bytes sample_request) [1, 2] = Inr fin"
    by (simp add: create_empty_def cert fin hmacSum_def sample_env_def ea_result_def)
  moreover have "req_Context sample_request = [1, 2]" by (simp add: sample_request_def)
  moreover have "Version sample_tls = VersionTLS13" by (simp add: sample_tls_def)
  ultimately have "create_messages sample_env sample_tls RoleServer (Some sample_request) None
      \<lparr>id_Certificate = [], id_PrivateKey = None\<rparr> [] = Inr ([1, 2], fin)"
    by (simp add: create_messages_def sample_request_material sample_export)
  then show ?thesis by (simp add: createAuthenticator_def MarkContextUsed_def)
qed

theorem empty_authenticator_accepted_witness:
  "RequiresAttestation sample_att_policy \<and>
   (\<exists>auth. ValidateAuthenticatorWithAttestation sample_env sample_tls RoleServer (Some sample_request) auth (Some ())
      sample_att_policy =
    Inr \<lparr>VR_Context = [1, 2], VR_Chain = [], VR_CMWAttestation = [], VR_Attestation = None, VR_Empty = True\<rparr>)"
proof -
  obtain auth where "createAuthenticator sample_env None sample_tls RoleServer (Some sample_request) None
     \<lparr>id_Certificate = [], id_PrivateKey = None\<rparr> [] = (Inr auth, None)" using sample_empty_create by blast
  from empty_authenticator_accepted [OF this, of "Some ()" sample_att_policy]
  show ?thesis by (auto simp: sample_request_def RequiresAttestation_def sample_att_policy_def)
qed

text \<open>
  Creation refuses a spontaneous authenticator whose signature scheme the local policy does not allow;
  validation does not look at the allowed schemes at all.
\<close>

lemma PolicyPermits_schemes:
  "PolicyPermitsCertificateExtension (Some (p\<lparr>AllowedSignatureSchemes := ss\<rparr>)) t
   = PolicyPermitsCertificateExtension (Some p) t"
  by (simp add: PolicyPermitsCertificateExtension_def)

lemma validateCertificateEntryExtensions_schemes:
  "validateCertificateEntryExtensions exts req (Some (p\<lparr>AllowedSignatureSchemes := ss\<rparr>))
   = validateCertificateEntryExtensions exts req (Some p)"
  by (induction exts) (auto simp: PolicyPermits_schemes)

lemma validate_entries_schemes:
  "validate_entries entries req (Some (p\<lparr>AllowedSignatureSchemes := ss\<rparr>)) = validate_entries entries req (Some p)"
  by (induction entries) (auto simp: validateCertificateEntryExtensions_schemes split: option.split)

theorem validation_ignores_allowed_schemes:
  "validateAuthenticator env s st role req (Some (p\<lparr>AllowedSignatureSchemes := ss\<rparr>)) attPolicy auth verifyOpts
   = validateAuthenticator env s st role req (Some p) attPolicy auth verifyOpts"
proof -
  have "validate_certificate env req (Some (p\<lparr>AllowedSignatureSchemes := ss\<rparr>)) certMsg
      = validate_certificate env req (Some p) certMsg" for certMsg
    unfolding validate_certificate_def validate_entries_schemes PolicyPermits_schemes ..
  then have "validate_full env h hsCtx fk reqBytes offered req (Some (p\<lparr>AllowedSignatureSchemes := ss\<rparr>))
      = validate_full env h hsCtx fk reqBytes offered req (Some p)" for h hsCtx fk reqBytes offered
    unfolding validate_full_def by (intro ext) (simp only:)
  then show ?thesis unfolding validateAuthenticator_def validate_checks_def by (simp only:)
qed

end
