(* ===== verification/Go_Path.thy ===== *)
theory Go_Path
  imports Go_Base "HOL-Library.Sublist"
begin

text \<open>
  What the sources use of \<open>path\<close>, \<open>path/filepath\<close> and \<open>os\<close>, on a Unix file system.

  A path is a string; \<open>Clean\<close>, \<open>Base\<close>, \<open>Dir\<close>, \<open>Join\<close>, \<open>Rel\<close> and \<open>Abs\<close> are the lexical functions of the
  library. The lemmas say what \<open>Join\<close> and \<open>Rel\<close> do to an absolute root and a name whose elements are plain,
  which is what the checks against path traversal rest on.

  The file system is a map from absolute paths to contents and a set of directories. An operation fails when
  the environment says so (\<open>fault\<close> stands for every reason the operating system may have), and always where
  the code relies on it: \<open>Mkdir\<close> of an existing path, \<open>Remove\<close> and \<open>ReadFile\<close> of a missing one. A failing
  \<open>Write\<close> leaves some prefix of the data in the file.
\<close>

section \<open>Lexical paths\<close>

abbreviation (input) sep :: char where "sep \<equiv> CHR ''/''"

text \<open>\<open>strings.Split(p, "/")\<close> and \<open>strings.Join(xs, "/")\<close>.\<close>

fun split_path :: "string \<Rightarrow> string list" where
  "split_path [] = [[]]"
| "split_path (c # cs) =
     (if c = sep then [] # split_path cs
      else case split_path cs of [] \<Rightarrow> [[c]] | x # xs \<Rightarrow> (c # x) # xs)"

fun join_path :: "string list \<Rightarrow> string" where
  "join_path [] = []"
| "join_path [x] = x"
| "join_path (x # y # ys) = x @ sep # join_path (y # ys)"

definition IsAbs :: "string \<Rightarrow> bool" where
  "IsAbs p = (p \<noteq> [] \<and> hd p = sep)"

text \<open>The elements \<open>Clean\<close> keeps: empty and \<open>.\<close> elements go, \<open>..\<close> removes the element before it.\<close>

fun clean_elems :: "bool \<Rightarrow> string list \<Rightarrow> string list \<Rightarrow> string list" where
  "clean_elems rooted out [] = rev out"
| "clean_elems rooted out (x # xs) =
     (if x = [] \<or> x = ''.'' then clean_elems rooted out xs
      else if x = ''..'' then
        (if out \<noteq> [] \<and> hd out \<noteq> ''..'' then clean_elems rooted (tl out) xs
         else if rooted then clean_elems rooted out xs
         else clean_elems rooted (x # out) xs)
      else clean_elems rooted (x # out) xs)"

definition path_elems :: "string \<Rightarrow> string list" where
  "path_elems p = clean_elems (IsAbs p) [] (split_path p)"

definition Clean :: "string \<Rightarrow> string" where
  "Clean p = (if IsAbs p then sep # join_path (path_elems p)
              else if path_elems p = [] then ''.'' else join_path (path_elems p))"

definition Base :: "string \<Rightarrow> string" where
  "Base p = (if p = [] then ''.''
             else case filter (\<lambda>x. x \<noteq> []) (split_path p) of [] \<Rightarrow> ''/'' | xs \<Rightarrow> last xs)"

definition Dir :: "string \<Rightarrow> string" where
  "Dir p = Clean (rev (dropWhile (\<lambda>c. c \<noteq> sep) (rev p)))"

definition Join :: "string list \<Rightarrow> string" where
  "Join es = (case dropWhile (\<lambda>e. e = []) es of [] \<Rightarrow> [] | e # es' \<Rightarrow> Clean (join_path (e # es')))"

fun strip_common :: "string list \<Rightarrow> string list \<Rightarrow> string list \<times> string list" where
  "strip_common (x # xs) (y # ys) = (if x = y then strip_common xs ys else (x # xs, y # ys))"
| "strip_common xs ys = (xs, ys)"

text \<open>\<open>filepath.Rel\<close>, for a target that is not the current directory itself.\<close>

definition Rel :: "string \<Rightarrow> string \<Rightarrow> string + string" where
  "Rel basepath targpath =
     (if Clean targpath = Clean basepath then Inr ''.''
      else if IsAbs basepath \<noteq> IsAbs targpath then Inl ''Rel''
      else case strip_common (path_elems basepath) (path_elems targpath) of (b, t) \<Rightarrow>
        if b \<noteq> [] \<and> hd b = ''..'' then Inl ''Rel''
        else Inr (join_path (replicate (length b) ''..'' @ t)))"


subsection \<open>Plain elements\<close>

definition plain_elem :: "string \<Rightarrow> bool" where
  "plain_elem x = (x \<noteq> [] \<and> x \<noteq> ''.'' \<and> x \<noteq> ''..'' \<and> sep \<notin> set x)"

abbreviation plain_elems :: "string list \<Rightarrow> bool" where
  "plain_elems xs \<equiv> list_all plain_elem xs"

text \<open>A clean absolute path, by its elements.\<close>

definition rooted_path :: "string list \<Rightarrow> string" where
  "rooted_path xs = sep # join_path xs"

lemma split_path_nonempty [simp]: "split_path p \<noteq> []"
  by (induction p) (auto split: list.splits)

lemma split_path_append: "split_path (a @ sep # b) = split_path a @ split_path b"
  by (induction a) (auto split: list.splits)

lemma split_path_id: "sep \<notin> set x \<Longrightarrow> split_path x = [x]"
  by (induction x) auto

lemma split_path_no_sep: "x \<in> set (split_path p) \<Longrightarrow> sep \<notin> set x"
  by (induction p arbitrary: x) (auto split: list.splits if_splits)

lemma join_split [simp]: "join_path (split_path p) = p"
proof (induction p)
  case (Cons c cs)
  obtain x xs where s: "split_path cs = x # xs" by (cases "split_path cs") auto
  then show ?case using Cons by (cases xs) auto
qed simp

lemma split_join: "xs \<noteq> [] \<Longrightarrow> \<forall>x \<in> set xs. sep \<notin> set x \<Longrightarrow> split_path (join_path xs) = xs"
proof (induction xs rule: join_path.induct)
  case (3 x y ys)
  then show ?case by (simp add: split_path_append split_path_id)
qed (simp_all add: split_path_id)

lemma split_plain: "plain_elems xs \<Longrightarrow> xs \<noteq> [] \<Longrightarrow> split_path (join_path xs) = xs"
  by (rule split_join) (auto simp: list_all_iff plain_elem_def)

lemma split_path_single: "split_path p = [x] \<Longrightarrow> p = x \<and> sep \<notin> set p"
  using join_split [of p] split_path_no_sep [of x p] by auto

lemma clean_elems_append:
  "clean_elems r out (a @ b) = clean_elems r (rev (clean_elems r out a)) b"
  by (induction r out a rule: clean_elems.induct) auto

lemma clean_elems_plain: "plain_elems xs \<Longrightarrow> clean_elems r out xs = rev out @ xs"
  by (induction xs arbitrary: out) (auto simp: plain_elem_def)

lemma clean_elems_rooted:
  "\<forall>x \<in> set xs. sep \<notin> set x \<Longrightarrow> plain_elems out \<Longrightarrow> plain_elems (clean_elems True out xs)"
proof (induction xs arbitrary: out)
  case (Cons x xs)
  have "plain_elems (tl out)" using Cons.prems(2) by (cases out) auto
  moreover have "out \<noteq> [] \<Longrightarrow> hd out \<noteq> ''..''" using Cons.prems(2) by (cases out) (auto simp: plain_elem_def)
  moreover have "x \<noteq> [] \<Longrightarrow> x \<noteq> ''.'' \<Longrightarrow> x \<noteq> ''..'' \<Longrightarrow> plain_elem x"
    using Cons.prems(1) by (simp add: plain_elem_def)
  ultimately show ?case using Cons by auto
qed (auto simp: list_all_iff)

lemma IsAbs_rooted [simp]: "IsAbs (rooted_path xs)" "IsAbs (rooted_path xs @ p)" "IsAbs (sep # p)"
  by (simp_all add: IsAbs_def rooted_path_def)

lemma path_elems_rooted [simp]: "plain_elems xs \<Longrightarrow> path_elems (rooted_path xs) = xs"
  by (cases "xs = []") (auto simp: path_elems_def rooted_path_def split_plain clean_elems_plain)

lemma Clean_rooted [simp]: "plain_elems xs \<Longrightarrow> Clean (rooted_path xs) = rooted_path xs"
  by (simp add: Clean_def) (simp add: rooted_path_def)

lemma Clean_abs: "IsAbs p \<Longrightarrow> \<exists>xs. plain_elems xs \<and> Clean p = rooted_path xs"
  by (auto simp: Clean_def path_elems_def rooted_path_def intro!: exI [of _ "clean_elems True [] (split_path p)"]
      clean_elems_rooted split_path_no_sep)

lemma rooted_path_inj: "plain_elems xs \<Longrightarrow> plain_elems ys \<Longrightarrow> rooted_path xs = rooted_path ys \<longleftrightarrow> xs = ys"
  using path_elems_rooted by metis

text \<open>Joining a name to a root: the elements of the name are applied to the root's.\<close>

lemma path_elems_join:
  assumes "plain_elems xs"
  shows "path_elems (rooted_path xs @ sep # name) = clean_elems True (rev xs) (split_path name)"
proof -
  have "split_path (rooted_path xs @ sep # name) = [] # (if xs = [] then [[]] else xs) @ split_path name"
    using split_plain [OF assms] by (simp add: rooted_path_def split_path_append)
  then show ?thesis
    using clean_elems_plain [OF assms, of True "[]"] by (auto simp: path_elems_def clean_elems_append)
qed

lemma Join_rooted:
  assumes "plain_elems xs" and "clean_elems True (rev xs) (split_path name) = xs @ ys"
  shows "Join [rooted_path xs, name] = rooted_path (xs @ ys)"
  using path_elems_join [OF assms(1), of name] assms(2)
  by (simp add: Join_def Clean_def) (simp add: rooted_path_def)

lemma Join_plain: "plain_elems xs \<Longrightarrow> plain_elem x \<Longrightarrow> Join [rooted_path xs, x] = rooted_path (xs @ [x])"
  by (rule Join_rooted) (auto simp: plain_elem_def split_path_id)

lemma strip_common_append [simp]: "strip_common xs (xs @ ys) = ([], ys)"
  by (induction xs) (cases ys, auto)

lemma Rel_rooted:
  assumes "plain_elems xs" "plain_elems ys"
  shows "Rel (rooted_path xs) (rooted_path (xs @ ys)) = Inr (if ys = [] then ''.'' else join_path ys)"
  using assms by (simp add: Rel_def rooted_path_inj)


section \<open>The file system\<close>

record os_state =
  Files :: "string \<Rightarrow> bytes option"
  Dirs :: "string set"

datatype os_call =
    OpGetwd | OpStat string | OpOpen string | OpCreate string | OpWrite string | OpChmod string | OpClose string
  | OpMkdir string | OpMkdirAll string | OpRemoveAll string | OpRemove string | OpReadFile string | OpCopy string
  | OpSeek string | OpZipEntry string | OpZipOpen string | OpZipClose

text \<open>
  The environment of one handler: the working directory, the faults the operating system reports, and how much
  of the data a failing write leaves in the file.
\<close>

record os_env =
  cwd :: string
  fault :: "os_call \<Rightarrow> string option"
  short_write :: "string \<Rightarrow> nat"

definition resolve :: "os_env \<Rightarrow> string \<Rightarrow> string" where
  "resolve env p = (if IsAbs p then Clean p else Join [cwd env, p])"

definition Getwd :: "os_env \<Rightarrow> string + string" where
  "Getwd env = (case fault env OpGetwd of Some e \<Rightarrow> Inl e | None \<Rightarrow> Inr (cwd env))"

definition Abs_path :: "os_env \<Rightarrow> string \<Rightarrow> string + string" where
  "Abs_path env p =
     (if IsAbs p then Inr (Clean p)
      else case Getwd env of Inl e \<Rightarrow> Inl e | Inr d \<Rightarrow> Inr (Join [d, p]))"

definition Create :: "os_env \<Rightarrow> string \<Rightarrow> os_state \<Rightarrow> string option \<times> os_state" where
  "Create env p s =
     (case fault env (OpCreate p) of
        Some e \<Rightarrow> (Some e, s)
      | None \<Rightarrow> (None, s\<lparr>Files := (Files s)(resolve env p \<mapsto> [])\<rparr>))"

definition Write :: "os_env \<Rightarrow> string \<Rightarrow> bytes \<Rightarrow> os_state \<Rightarrow> string option \<times> os_state" where
  "Write env p b s =
     (let old = (case Files s (resolve env p) of None \<Rightarrow> [] | Some c \<Rightarrow> c) in
      case fault env (OpWrite p) of
        Some e \<Rightarrow> (Some e, s\<lparr>Files := (Files s)(resolve env p \<mapsto> old @ take (short_write env p) b)\<rparr>)
      | None \<Rightarrow> (None, s\<lparr>Files := (Files s)(resolve env p \<mapsto> old @ b)\<rparr>))"

definition Chmod :: "os_env \<Rightarrow> string \<Rightarrow> os_state \<Rightarrow> string option \<times> os_state" where
  "Chmod env p s = (fault env (OpChmod p), s)"

definition Close :: "os_env \<Rightarrow> string \<Rightarrow> os_state \<Rightarrow> string option \<times> os_state" where
  "Close env p s = (fault env (OpClose p), s)"

definition path_exists :: "os_env \<Rightarrow> string \<Rightarrow> os_state \<Rightarrow> bool" where
  "path_exists env p s = (Files s (resolve env p) \<noteq> None \<or> resolve env p \<in> Dirs s)"

definition Mkdir :: "os_env \<Rightarrow> string \<Rightarrow> os_state \<Rightarrow> string option \<times> os_state" where
  "Mkdir env p s =
     (case fault env (OpMkdir p) of
        Some e \<Rightarrow> (Some e, s)
      | None \<Rightarrow>
          if path_exists env p s then (Some ''file exists'', s)
          else (None, s\<lparr>Dirs := insert (resolve env p) (Dirs s)\<rparr>))"

text \<open>\<open>MkdirAll\<close> creates the directory and those above it.\<close>

definition MkdirAll :: "os_env \<Rightarrow> string \<Rightarrow> os_state \<Rightarrow> string option \<times> os_state" where
  "MkdirAll env p s =
     (case fault env (OpMkdirAll p) of
        Some e \<Rightarrow> (Some e, s)
      | None \<Rightarrow> (None, s\<lparr>Dirs := set (map rooted_path (prefixes (path_elems (resolve env p)))) \<union> Dirs s\<rparr>))"

text \<open>A path is under a directory when it is the directory or extends it by further elements.\<close>

definition under :: "string \<Rightarrow> string \<Rightarrow> bool" where
  "under d p = (p = d \<or> prefix (d @ [sep]) p)"

definition RemoveAll :: "os_env \<Rightarrow> string \<Rightarrow> os_state \<Rightarrow> string option \<times> os_state" where
  "RemoveAll env p s =
     (case fault env (OpRemoveAll p) of
        Some e \<Rightarrow> (Some e, s)
      | None \<Rightarrow>
          (None, s\<lparr>Files := (\<lambda>q. if under (resolve env p) q then None else Files s q),
                   Dirs := Set.filter (\<lambda>q. \<not> under (resolve env p) q) (Dirs s)\<rparr>))"

text \<open>The Boolean of a failing \<open>Remove\<close> is \<open>os.IsNotExist\<close> of its error.\<close>

definition Remove :: "os_env \<Rightarrow> string \<Rightarrow> os_state \<Rightarrow> (bool \<times> string) option \<times> os_state" where
  "Remove env p s =
     (case fault env (OpRemove p) of
        Some e \<Rightarrow> (Some (False, e), s)
      | None \<Rightarrow>
          if \<not> path_exists env p s then (Some (True, ''no such file or directory''), s)
          else (None, s\<lparr>Files := (Files s)(resolve env p := None), Dirs := Set.remove (resolve env p) (Dirs s)\<rparr>))"

definition ReadFile :: "os_env \<Rightarrow> string \<Rightarrow> os_state \<Rightarrow> string + bytes" where
  "ReadFile env p s =
     (case fault env (OpReadFile p) of
        Some e \<Rightarrow> Inl e
      | None \<Rightarrow> (case Files s (resolve env p) of None \<Rightarrow> Inl ''no such file or directory'' | Some b \<Rightarrow> Inr b))"

lemmas os_defs = Create_def Write_def Chmod_def Close_def Mkdir_def MkdirAll_def RemoveAll_def Remove_def

lemma Create_then_Write:
  assumes "Create env p s = (None, s1)" and "Write env p b s1 = (None, s2)"
  shows "s2 = s\<lparr>Files := (Files s)(resolve env p \<mapsto> b)\<rparr>"
  using assms by (auto simp: Create_def Write_def split: option.splits)

text \<open>Writing to one path leaves the others alone, whether it succeeds or not.\<close>

lemma Create_frame: "Create env p s = (r, s') \<Longrightarrow> q \<noteq> resolve env p \<Longrightarrow> Files s' q = Files s q"
  by (auto simp: Create_def split: option.splits)

lemma Write_frame: "Write env p b s = (r, s') \<Longrightarrow> q \<noteq> resolve env p \<Longrightarrow> Files s' q = Files s q"
  by (auto simp: Write_def Let_def split: option.splits)

lemma Mkdir_Files [simp]: "Mkdir env p s = (r, s') \<Longrightarrow> Files s' = Files s"
  by (auto simp: Mkdir_def split: option.splits if_splits)

lemma MkdirAll_Files [simp]: "MkdirAll env p s = (r, s') \<Longrightarrow> Files s' = Files s"
  by (auto simp: MkdirAll_def split: option.splits)

lemma RemoveAll_frame: "RemoveAll env p s = (r, s') \<Longrightarrow> \<not> under (resolve env p) q \<Longrightarrow> Files s' q = Files s q"
  by (auto simp: RemoveAll_def split: option.splits)

lemma rooted_path_append: "ys \<noteq> [] \<Longrightarrow> xs \<noteq> [] \<Longrightarrow> rooted_path (xs @ ys) = rooted_path xs @ sep # join_path ys"
proof (induction xs rule: join_path.induct)
  case (2 x)
  then show ?case by (cases ys) (auto simp: rooted_path_def)
qed (auto simp: rooted_path_def)

lemma under_rooted:
  assumes "plain_elems xs" "plain_elems ys" "xs \<noteq> []"
  shows "under (rooted_path xs) (rooted_path ys) \<longleftrightarrow> (\<exists>zs. ys = xs @ zs)"
proof
  assume u: "under (rooted_path xs) (rooted_path ys)"
  show "\<exists>zs. ys = xs @ zs"
  proof (cases "rooted_path ys = rooted_path xs")
    case False
    then obtain rest where r: "rooted_path ys = rooted_path xs @ sep # rest"
      using u by (auto simp: under_def prefix_def)
    then have "join_path ys = join_path xs @ sep # rest" by (simp add: rooted_path_def)
    then have "split_path (join_path ys) = split_path (join_path xs) @ split_path rest"
      by (simp add: split_path_append)
    moreover have "ys \<noteq> []" using r assms(3) by (cases ys) (auto simp: rooted_path_def)
    ultimately show ?thesis using split_plain assms by simp
  qed (use assms rooted_path_inj in auto)
next
  assume "\<exists>zs. ys = xs @ zs"
  then obtain zs where "ys = xs @ zs" by blast
  then show "under (rooted_path xs) (rooted_path ys)"
    using rooted_path_append [of zs xs] assms(3) by (cases "zs = []") (auto simp: under_def)
qed

lemma resolve_rooted [simp]: "plain_elems xs \<Longrightarrow> resolve env (rooted_path xs) = rooted_path xs"
  by (simp add: resolve_def)

lemma resolve_plain:
  "cwd env = rooted_path xs \<Longrightarrow> plain_elems xs \<Longrightarrow> plain_elem x \<Longrightarrow> resolve env x = rooted_path (xs @ [x])"
  by (cases x) (auto simp: resolve_def Join_plain IsAbs_def plain_elem_def)

end
