(* ===== verification/Archive.thy ===== *)
theory Archive
  imports Go_Path TLS_Base "HOL-Library.Char_ord" "HOL-Library.List_Lexorder" "HOL-Library.Countable"
begin

text \<open>
  \<open>internal/zip.go\<close> and \<open>internal/file.go\<close>: packing a directory into a zip archive, unpacking an archive below a
  target directory, and the checksum of a file or directory.

  \<open>archive/zip\<close> enters as two functions of the environment, from entries to bytes and back; \<open>filepath.Walk\<close>,
  \<open>os.Stat\<close> and \<open>filepath.Glob\<close> as functions from paths to what they report; SHA3-256 as a function on bytes.

  The lemmas show that unpacking writes below the target directory only, whatever the archive
  holds, and that unpacking a packed directory restores its files.
\<close>

section \<open>Packing\<close>

datatype file_kind = RegularFile | Directory | Symlink | OtherFile

record zip_file =
  zf_Name :: string
  zf_Kind :: file_kind
  zf_Content :: bytes

text \<open>What the library and the operating system report during one call.\<close>

record zip_env = os_env +
  Stat :: "string \<Rightarrow> string + file_kind"
  Walk :: "string \<Rightarrow> string + (string \<times> file_kind) list"
  Glob :: "string \<Rightarrow> string + string list"
  zip_image :: "zip_file list \<Rightarrow> bytes"
  zip_NewReader :: "bytes \<Rightarrow> string + zip_file list"
  Sum256 :: "bytes \<Rightarrow> bytes"
  temp_name :: string

abbreviation os_of :: "zip_env \<Rightarrow> os_env" where
  "os_of env \<equiv> os_env.truncate env"

definition zipSourceFiles :: "zip_env \<Rightarrow> string \<Rightarrow> file_kind \<Rightarrow> string + string list" where
  "zipSourceFiles env sourcePath info =
     (if info \<noteq> Directory then Inr [sourcePath]
      else case Walk env sourcePath of
        Inl e \<Rightarrow> Inl e
      | Inr visits \<Rightarrow> Inr (map fst (filter (\<lambda>(p, k). k = RegularFile) visits)))"

definition zipEntryName :: "string \<Rightarrow> file_kind \<Rightarrow> string \<Rightarrow> string + string" where
  "zipEntryName sourcePath info filePath =
     (if info \<noteq> Directory then Inr (Base filePath)
      else case Rel sourcePath filePath of
        Inl e \<Rightarrow> Inl e
      | Inr relPath \<Rightarrow> if relPath = ''.'' \<or> relPath = [] then Inl ''invalid zip entry path'' else Inr relPath)"

text \<open>The entries already written come first; a file that is no longer regular is skipped.\<close>

definition addZipFile ::
    "zip_env \<Rightarrow> string \<Rightarrow> file_kind \<Rightarrow> os_state \<Rightarrow> string \<Rightarrow> zip_file list \<Rightarrow> string + zip_file list" where
  "addZipFile env sourcePath info s filePath entries =
     (case Stat env filePath of
        Inl e \<Rightarrow> Inl e
      | Inr k \<Rightarrow>
          if k \<noteq> RegularFile then Inr entries
          else case zipEntryName sourcePath info filePath of
            Inl e \<Rightarrow> Inl e
          | Inr name \<Rightarrow>
              (case fault env (OpZipEntry name) of
                 Some e \<Rightarrow> Inl e
               | None \<Rightarrow>
                   (case ReadFile (os_of env) filePath s of
                      Inl e \<Rightarrow> Inl e
                    | Inr content \<Rightarrow>
                        Inr (entries @ [\<lparr>zf_Name = name, zf_Kind = RegularFile, zf_Content = content\<rparr>]))))"

fun addZipFiles ::
    "zip_env \<Rightarrow> string \<Rightarrow> file_kind \<Rightarrow> os_state \<Rightarrow> string list \<Rightarrow> zip_file list \<Rightarrow> string + zip_file list" where
  "addZipFiles env sourcePath info s [] entries = Inr entries"
| "addZipFiles env sourcePath info s (f # fs) entries =
     (case addZipFile env sourcePath info s f entries of
        Inl e \<Rightarrow> Inl e
      | Inr entries' \<Rightarrow> addZipFiles env sourcePath info s fs entries')"

definition writeZip :: "zip_env \<Rightarrow> string \<Rightarrow> os_state \<Rightarrow> string + bytes" where
  "writeZip env path s =
     (if path = [] then Inl ''zip source path is empty''
      else let sourcePath = Clean path in
        case Stat env sourcePath of
          Inl e \<Rightarrow> Inl e
        | Inr info \<Rightarrow>
            (case zipSourceFiles env sourcePath info of
               Inl e \<Rightarrow> Inl e
             | Inr files \<Rightarrow>
                 (case addZipFiles env sourcePath info s (sort files) [] of
                    Inl e \<Rightarrow> Inl e
                  | Inr entries \<Rightarrow>
                      (case fault env OpZipClose of Some e \<Rightarrow> Inl e | None \<Rightarrow> Inr (zip_image env entries)))))"

definition ZipDirectoryToMemory :: "zip_env \<Rightarrow> string \<Rightarrow> os_state \<Rightarrow> string + bytes" where
  "ZipDirectoryToMemory env sourceDir s = writeZip env sourceDir s"

text \<open>The temporary file is removed on every error after its creation.\<close>

definition ZipDirectoryToTempFile :: "zip_env \<Rightarrow> string \<Rightarrow> os_state \<Rightarrow> (string + string) \<times> os_state" where
  "ZipDirectoryToTempFile env sourceDir s =
     (let tmp = temp_name env in
      case Create (os_of env) tmp s of
        (Some e, s) \<Rightarrow> (Inl e, s)
      | (None, s) \<Rightarrow>
          (case writeZip env sourceDir s of
             Inl e \<Rightarrow> (Inl e, snd (Remove (os_of env) tmp s))
           | Inr img \<Rightarrow>
               (case Write (os_of env) tmp img s of
                  (Some e, s) \<Rightarrow> (Inl e, snd (Remove (os_of env) tmp s))
                | (None, s) \<Rightarrow>
                    (case fault env (OpSeek tmp) of
                       Some e \<Rightarrow> (Inl e, snd (Remove (os_of env) tmp s))
                     | None \<Rightarrow> (Inr tmp, s)))))"


section \<open>Unpacking\<close>

datatype zip_error = UnsafeZipPath string | ZipLibErr string

definition NUL_char :: char where "NUL_char = char_of (0 :: nat)"

definition cleanZipEntryName :: "string \<Rightarrow> zip_error + string" where
  "cleanZipEntryName name =
     (if name = [] \<or> NUL_char \<in> set name \<or> CHR 0x5C \<in> set name then Inl (UnsafeZipPath name)
      else if IsAbs name then Inl (UnsafeZipPath name)
      else let cleanName = Clean name in
        if cleanName = ''.'' \<or> cleanName = ''..'' \<or> prefix ''../'' cleanName then Inl (UnsafeZipPath name)
        else Inr cleanName)"

definition zipEntryTarget :: "string \<Rightarrow> string \<Rightarrow> zip_error + string" where
  "zipEntryTarget root cleanName =
     (let target = Join [root, cleanName] in
      case Rel root target of
        Inl e \<Rightarrow> Inl (ZipLibErr e)
      | Inr rel \<Rightarrow> if rel = ''..'' \<or> prefix ''../'' rel then Inl (UnsafeZipPath cleanName) else Inr target)"

definition extractZipFile ::
    "zip_env \<Rightarrow> zip_file \<Rightarrow> string \<Rightarrow> os_state \<Rightarrow> zip_error option \<times> os_state" where
  "extractZipFile env file filePath s =
     (case MkdirAll (os_of env) (Dir filePath) s of
        (Some e, s) \<Rightarrow> (Some (ZipLibErr e), s)
      | (None, s) \<Rightarrow>
          (case fault env (OpZipOpen (zf_Name file)) of
             Some e \<Rightarrow> (Some (ZipLibErr e), s)
           | None \<Rightarrow>
               (case Create (os_of env) filePath s of
                  (Some e, s) \<Rightarrow> (Some (ZipLibErr e), s)
                | (None, s) \<Rightarrow>
                    (case Write (os_of env) filePath (zf_Content file) s of
                       (Some e, s) \<Rightarrow> (Some (ZipLibErr e), s)
                     | (None, s) \<Rightarrow> (None, s)))))"

definition unzip_entry :: "zip_env \<Rightarrow> string \<Rightarrow> zip_file \<Rightarrow> os_state \<Rightarrow> zip_error option \<times> os_state" where
  "unzip_entry env root file s =
     (case cleanZipEntryName (zf_Name file) of
        Inl e \<Rightarrow> (Some e, s)
      | Inr cleanName \<Rightarrow>
          (case zipEntryTarget root cleanName of
             Inl e \<Rightarrow> (Some e, s)
           | Inr filePath \<Rightarrow>
               if zf_Kind file = Symlink then (Some (UnsafeZipPath (zf_Name file)), s)
               else if zf_Kind file = Directory then
                 (case MkdirAll (os_of env) filePath s of
                    (Some e, s) \<Rightarrow> (Some (ZipLibErr e), s)
                  | (None, s) \<Rightarrow> (None, s))
               else if zf_Kind file \<noteq> RegularFile then (Some (UnsafeZipPath (zf_Name file)), s)
               else extractZipFile env file filePath s))"

fun unzip_entries :: "zip_env \<Rightarrow> string \<Rightarrow> zip_file list \<Rightarrow> os_state \<Rightarrow> zip_error option \<times> os_state" where
  "unzip_entries env root [] s = (None, s)"
| "unzip_entries env root (file # files) s =
     (case unzip_entry env root file s of
        (Some e, s) \<Rightarrow> (Some e, s)
      | (None, s) \<Rightarrow> unzip_entries env root files s)"

definition UnzipFromMemory :: "zip_env \<Rightarrow> bytes \<Rightarrow> string \<Rightarrow> os_state \<Rightarrow> zip_error option \<times> os_state" where
  "UnzipFromMemory env zipData targetDir s =
     (if targetDir = [] then (Some (ZipLibErr ''zip target path is empty''), s)
      else case Abs_path (os_of env) targetDir of
        Inl e \<Rightarrow> (Some (ZipLibErr e), s)
      | Inr root \<Rightarrow>
          (case MkdirAll (os_of env) root s of
             (Some e, s) \<Rightarrow> (Some (ZipLibErr e), s)
           | (None, s) \<Rightarrow>
               (case zip_NewReader env zipData of
                  Inl e \<Rightarrow> (Some (ZipLibErr e), s)
                | Inr files \<Rightarrow> unzip_entries env root files s)))"


section \<open>Files and checksums\<close>

definition CopyFile :: "zip_env \<Rightarrow> string \<Rightarrow> string \<Rightarrow> os_state \<Rightarrow> string option \<times> os_state" where
  "CopyFile env srcPath dstPath s =
     (case ReadFile (os_of env) srcPath s of
        Inl e \<Rightarrow> (Some e, s)
      | Inr content \<Rightarrow>
          (case Create (os_of env) dstPath s of
             (Some e, s) \<Rightarrow> (Some e, s)
           | (None, s) \<Rightarrow> Write (os_of env) dstPath content s))"

fun remove_each :: "zip_env \<Rightarrow> string list \<Rightarrow> os_state \<Rightarrow> string option \<times> os_state" where
  "remove_each env [] s = (None, s)"
| "remove_each env (f # fs) s =
     (case Remove (os_of env) f s of
        (Some (_, e), s) \<Rightarrow> (Some e, s)
      | (None, s) \<Rightarrow> remove_each env fs s)"

definition DeleteFilesInDir :: "zip_env \<Rightarrow> string \<Rightarrow> os_state \<Rightarrow> string option \<times> os_state" where
  "DeleteFilesInDir env dirPath s =
     (case Glob env (Join [dirPath, ''*'']) of
        Inl e \<Rightarrow> (Some e, s)
      | Inr files \<Rightarrow> remove_each env files s)"

definition Digest :: "zip_env \<Rightarrow> string \<Rightarrow> os_state \<Rightarrow> string + bytes \<times> bytes" where
  "Digest env path s =
     (case Stat env path of
        Inl e \<Rightarrow> Inl e
      | Inr k \<Rightarrow>
          (case (if k = Directory then ZipDirectoryToMemory env path s else ReadFile (os_of env) path s) of
             Inl e \<Rightarrow> Inl e
           | Inr data \<Rightarrow> Inr (data, Sum256 env data)))"

definition Checksum :: "zip_env \<Rightarrow> string \<Rightarrow> os_state \<Rightarrow> string + bytes" where
  "Checksum env path s = (case Digest env path s of Inl e \<Rightarrow> Inl e | Inr (_, hashed) \<Rightarrow> Inr hashed)"

definition ChecksumHex :: "zip_env \<Rightarrow> string \<Rightarrow> os_state \<Rightarrow> string + string" where
  "ChecksumHex env path s =
     (case Checksum env path s of Inl e \<Rightarrow> Inl e | Inr hashed \<Rightarrow> Inr (EncodeToString hashed))"


section \<open>Unpacking stays below the target\<close>

text \<open>A cleaned relative path climbs first and descends afterwards.\<close>

definition climbing :: "string list \<Rightarrow> bool" where
  "climbing xs = (\<exists>k ys. xs = replicate k ''..'' @ ys \<and> plain_elems ys)"

lemma climbing_snoc: "climbing xs \<Longrightarrow> plain_elem x \<Longrightarrow> climbing (xs @ [x])"
  by (auto simp: climbing_def) (metis append_assoc list_all_append list.pred_inject)

lemma climbing_up: "climbing xs \<Longrightarrow> xs = [] \<or> last xs = ''..'' \<Longrightarrow> climbing (xs @ [''..''])"
proof -
  assume "climbing xs" and l: "xs = [] \<or> last xs = ''..''"
  then obtain k ys where x: "xs = replicate k ''..'' @ ys" "plain_elems ys" by (auto simp: climbing_def)
  have "ys = []"
  proof (rule ccontr)
    assume "ys \<noteq> []"
    then have "last xs = last ys" "last ys \<in> set ys" using x by auto
    then show False using l x \<open>ys \<noteq> []\<close> by (auto simp: list_all_iff plain_elem_def)
  qed
  then have "xs @ [''..''] = replicate (Suc k) ''..'' @ []" using x by (simp add: replicate_append_same)
  then show ?thesis unfolding climbing_def by (intro exI conjI) (assumption, simp)
qed

lemma climbing_butlast: "climbing xs \<Longrightarrow> climbing (butlast xs)"
proof -
  assume "climbing xs"
  then obtain k ys where x: "xs = replicate k ''..'' @ ys" "plain_elems ys" by (auto simp: climbing_def)
  show ?thesis
  proof (cases "ys = []")
    case True
    then have "butlast xs = replicate (k - 1) ''..'' @ []" using x by (cases k) (auto simp: replicate_append_same [symmetric])
    then show ?thesis unfolding climbing_def by (intro exI conjI) (assumption, simp)
  next
    case False
    then have "butlast xs = replicate k ''..'' @ butlast ys" using x by (simp add: butlast_append)
    moreover have "plain_elems (butlast ys)" using x(2) by (auto simp: list_all_iff dest: in_set_butlastD)
    ultimately show ?thesis unfolding climbing_def by blast
  qed
qed

lemma clean_elems_climbing:
  "\<forall>x \<in> set xs. sep \<notin> set x \<Longrightarrow> climbing (rev out) \<Longrightarrow> climbing (clean_elems False out xs)"
proof (induction xs arbitrary: out)
  case (Cons x xs)
  have "rev (tl out) = butlast (rev out)" by (cases out) auto
  then have "climbing (rev (tl out))" using climbing_butlast [OF Cons.prems(2)] by simp
  moreover have "\<not> (out \<noteq> [] \<and> hd out \<noteq> ''..'') \<Longrightarrow> climbing (rev (''..'' # out))"
    using climbing_up [OF Cons.prems(2)] by (cases out) auto
  moreover have "x \<noteq> [] \<Longrightarrow> x \<noteq> ''.'' \<Longrightarrow> x \<noteq> ''..'' \<Longrightarrow> climbing (rev (x # out))"
    using Cons.prems climbing_snoc [of "rev out" x] by (simp add: plain_elem_def)
  ultimately show ?case using Cons by auto
qed auto

lemma cleanZipEntryName_Inr:
  assumes "cleanZipEntryName name = Inr c"
  shows "\<exists>ys. ys \<noteq> [] \<and> plain_elems ys \<and> c = join_path ys"
proof -
  have a: "\<not> IsAbs name" "c = Clean name" "c \<noteq> ''.''" "c \<noteq> ''..''" "\<not> prefix ''../'' c"
    using assms by (auto simp: cleanZipEntryName_def Let_def split: if_splits)
  have "climbing (path_elems name)"
    using clean_elems_climbing [of "split_path name" "[]"] split_path_no_sep [of _ name] a(1)
    by (auto simp: path_elems_def climbing_def)
  then obtain k ys where k: "path_elems name = replicate k ''..'' @ ys" "plain_elems ys" by (auto simp: climbing_def)
  have c: "c = (if path_elems name = [] then ''.'' else join_path (path_elems name))" using a(1,2) by (simp add: Clean_def)
  have "k = 0"
  proof (rule ccontr)
    assume "k \<noteq> 0"
    then obtain zs where z: "path_elems name = ''..'' # zs" using k(1) by (cases k) auto
    then show False using a(4,5) c by (cases zs) auto
  qed
  then show ?thesis using k c a(3) by (auto split: if_splits)
qed

lemma plain_join_no_climb:
  assumes "plain_elems ys" "ys \<noteq> []"
  shows "join_path ys \<noteq> ''.'' \<and> join_path ys \<noteq> ''..'' \<and> \<not> prefix ''../'' (join_path ys)"
proof -
  obtain y zs where y: "ys = y # zs" using assms by (cases ys) auto
  have "hd (split_path (join_path ys)) = y" using split_plain assms y by simp
  moreover have "prefix ''../'' q \<Longrightarrow> hd (split_path q) = ''..''" for q
    using split_path_append [of "''..''"] by (auto simp: prefix_def split_path_id)
  moreover have "hd (split_path ''..'') = ''..''" "hd (split_path ''.'') = ''.''" by (simp_all add: split_path_id)
  moreover have "y \<noteq> ''.''" "y \<noteq> ''..''" using assms y by (auto simp: plain_elem_def)
  ultimately show ?thesis by metis
qed

lemma zipEntryTarget_plain:
  assumes "plain_elems xs" "plain_elems ys" "ys \<noteq> []"
  shows "zipEntryTarget (rooted_path xs) (join_path ys) = Inr (rooted_path (xs @ ys))"
proof -
  have j: "Join [rooted_path xs, join_path ys] = rooted_path (xs @ ys)"
    by (rule Join_rooted [OF assms(1)]) (simp add: split_plain assms clean_elems_plain)
  show ?thesis
    using Rel_rooted [OF assms(1,2)] plain_join_no_climb [OF assms(2,3)] assms(3) by (simp add: zipEntryTarget_def j Let_def)
qed

text \<open>Every file an entry may touch has the elements of the root and at least one more.\<close>

definition strictly_below :: "string list \<Rightarrow> string \<Rightarrow> bool" where
  "strictly_below xs p = (\<exists>ys. ys \<noteq> [] \<and> plain_elems ys \<and> p = rooted_path (xs @ ys))"

lemma extractZipFile_frame:
  assumes "extractZipFile env file fp s = (r, s')" and "q \<noteq> resolve (os_of env) fp"
  shows "Files s' q = Files s q"
  using assms by (auto simp: extractZipFile_def split: prod.splits option.splits
      dest!: MkdirAll_Files Create_frame Write_frame)

lemma unzip_entry_frame:
  assumes "plain_elems xs" and "unzip_entry env (rooted_path xs) file s = (r, s')" and "\<not> strictly_below xs q"
  shows "Files s' q = Files s q"
proof (cases "cleanZipEntryName (zf_Name file)")
  case (Inr c)
  obtain ys where ys: "ys \<noteq> []" "plain_elems ys" "c = join_path ys" using cleanZipEntryName_Inr [OF Inr] by blast
  have t: "zipEntryTarget (rooted_path xs) c = Inr (rooted_path (xs @ ys))"
    using zipEntryTarget_plain assms(1) ys by simp
  have "q \<noteq> resolve (os_of env) (rooted_path (xs @ ys))"
    using assms(1,3) ys by (auto simp: strictly_below_def)
  then show ?thesis
    using assms(2) Inr t by (auto simp: unzip_entry_def split: prod.splits option.splits if_splits
        dest: MkdirAll_Files extractZipFile_frame)
qed (use assms(2) in \<open>auto simp: unzip_entry_def\<close>)

lemma unzip_entries_frame:
  assumes "plain_elems xs" and "unzip_entries env (rooted_path xs) files s = (r, s')" and "\<not> strictly_below xs q"
  shows "Files s' q = Files s q"
  using assms(2)
proof (induction files arbitrary: s)
  case (Cons f fs)
  then obtain r1 s1 where "unzip_entry env (rooted_path xs) f s = (r1, s1)" by (cases "unzip_entry env (rooted_path xs) f s")
  then show ?case using Cons unzip_entry_frame [OF assms(1) _ assms(3), of env f s r1 s1]
    by (auto split: option.splits)
qed simp

lemma Abs_path_rooted:
  assumes "Abs_path env p = Inr root" and "cwd env = rooted_path ws" "plain_elems ws"
  shows "\<exists>xs. plain_elems xs \<and> root = rooted_path xs"
proof (cases "IsAbs p")
  case False
  have c: "cwd env \<noteq> []" "IsAbs (cwd env)" using assms(2) by (simp_all add: rooted_path_def IsAbs_def)
  then have "root = Clean (cwd env @ sep # p)"
    using assms(1) False by (auto simp: Abs_path_def Getwd_def Join_def split: option.splits)
  moreover have "IsAbs (cwd env @ sep # p)" using c by (simp add: IsAbs_def)
  ultimately show ?thesis using Clean_abs by metis
qed (use assms(1) Clean_abs in \<open>auto simp: Abs_path_def\<close>)

lemma unzip_below:
  assumes "UnzipFromMemory env zipData targetDir s = (r, s')" and "Abs_path (os_of env) targetDir = Inr root"
    and "cwd env = rooted_path ws" "plain_elems ws" and "Files s' q \<noteq> Files s q"
  shows "strictly_below (path_elems root) q"
proof (rule ccontr)
  assume n: "\<not> strictly_below (path_elems root) q"
  obtain xs where xs: "plain_elems xs" "root = rooted_path xs"
    using Abs_path_rooted [OF assms(2), of ws] assms(3,4) by (auto simp: os_env.truncate_def)
  then have n': "\<not> strictly_below xs q" using n by simp
  have "Files s' q = Files s q"
    using assms(1,2) unzip_entries_frame [OF xs(1) _ n']
    by (auto simp: UnzipFromMemory_def xs(2) split: if_splits prod.splits option.splits sum.splits dest: MkdirAll_Files)
  then show False using assms(5) by simp
qed

text \<open>
  C22: unpacking an archive changes files strictly below the absolute target directory only, for any archive,
  any file system and any faults, whether it succeeds or not.
\<close>

theorem UnzipFromMemory_confined:
  assumes "UnzipFromMemory env zipData targetDir s = (r, s')" and "Abs_path (os_of env) targetDir = Inr root"
    and "cwd env = rooted_path ws" "plain_elems ws" and "Files s' q \<noteq> Files s q"
  shows "strictly_below (path_elems root) q"
  by (rule unzip_below [OF assms])


section \<open>Unpacking restores what was packed\<close>

text \<open>An entry as packing produces it, for the file with elements \<open>ys\<close> below the source directory.\<close>

definition packed_entry :: "string list \<Rightarrow> bytes \<Rightarrow> zip_file" where
  "packed_entry ys content = \<lparr>zf_Name = join_path ys, zf_Kind = RegularFile, zf_Content = content\<rparr>"

definition zip_safe :: "string list \<Rightarrow> bool" where
  "zip_safe ys = (ys \<noteq> [] \<and> plain_elems ys \<and> NUL_char \<notin> set (join_path ys) \<and> CHR 0x5C \<notin> set (join_path ys))"

lemma join_path_plain_not_abs: "plain_elems ys \<Longrightarrow> ys \<noteq> [] \<Longrightarrow> \<not> IsAbs (join_path ys) \<and> join_path ys \<noteq> []"
  by (cases ys rule: join_path.cases) (auto simp: IsAbs_def plain_elem_def hd_append, (metis hd_in_set)+)

lemma Clean_plain: "plain_elems ys \<Longrightarrow> ys \<noteq> [] \<Longrightarrow> Clean (join_path ys) = join_path ys"
  using join_path_plain_not_abs [of ys] by (simp add: Clean_def path_elems_def split_plain clean_elems_plain)

lemma cleanZipEntryName_plain:
  assumes "zip_safe ys"
  shows "cleanZipEntryName (join_path ys) = Inr (join_path ys)"
proof -
  have p: "plain_elems ys" "ys \<noteq> []" using assms by (auto simp: zip_safe_def)
  show ?thesis
    using assms plain_join_no_climb [OF p] join_path_plain_not_abs [OF p] Clean_plain [OF p] by (simp add: cleanZipEntryName_def zip_safe_def Let_def)
qed

lemma unzip_packed:
  assumes "plain_elems xs" and "zip_safe ys" and "\<And>c. fault env c = None"
  shows "\<exists>s'. unzip_entry env (rooted_path xs) (packed_entry ys content) s = (None, s')
     \<and> Files s' = (Files s)(rooted_path (xs @ ys) \<mapsto> content)"
proof -
  have p: "plain_elems ys" "ys \<noteq> []" using assms(2) by (auto simp: zip_safe_def)
  have "fault (os_of env) c = None" for c using assms(3) by (simp add: os_env.truncate_def)
  then show ?thesis
    using cleanZipEntryName_plain [OF assms(2)] zipEntryTarget_plain [OF assms(1) p] assms(1,3) p
    by (simp add: unzip_entry_def packed_entry_def extractZipFile_def MkdirAll_def Create_def Write_def)
qed

text \<open>Unpacking entries with distinct names puts the content of each under its name.\<close>

lemma unzip_all:
  assumes "plain_elems xs" and "\<And>c. fault env c = None"
    and "list_all (\<lambda>(ys, c). zip_safe ys) es" and "distinct (map fst es)"
  shows "\<exists>s'. unzip_entries env (rooted_path xs) (map (\<lambda>(ys, c). packed_entry ys c) es) s = (None, s')
     \<and> (\<forall>(ys, c) \<in> set es. Files s' (rooted_path (xs @ ys)) = Some c)
     \<and> (\<forall>q. q \<notin> (\<lambda>(ys, c). rooted_path (xs @ ys)) ` set es \<longrightarrow> Files s' q = Files s q)"
  using assms(3,4)
proof (induction es arbitrary: s)
  case (Cons e es)
  obtain ys c where e: "e = (ys, c)" by (cases e)
  obtain s1 where s1: "unzip_entry env (rooted_path xs) (packed_entry ys c) s = (None, s1)"
      "Files s1 = (Files s)(rooted_path (xs @ ys) \<mapsto> c)"
    using unzip_packed [OF assms(1) _ assms(2), of ys c s] Cons.prems e by auto
  obtain s2 where s2: "unzip_entries env (rooted_path xs) (map (\<lambda>(ys, c). packed_entry ys c) es) s1 = (None, s2)"
      "\<forall>(ys, c) \<in> set es. Files s2 (rooted_path (xs @ ys)) = Some c"
      "\<forall>q. q \<notin> (\<lambda>(ys, c). rooted_path (xs @ ys)) ` set es \<longrightarrow> Files s2 q = Files s1 q"
    using Cons.IH [of s1] Cons.prems by auto
  have "rooted_path (xs @ ys) \<notin> (\<lambda>(ys, c). rooted_path (xs @ ys)) ` set es"
  proof
    assume "rooted_path (xs @ ys) \<in> (\<lambda>(ys, c). rooted_path (xs @ ys)) ` set es"
    then obtain zs d where z: "(zs, d) \<in> set es" "rooted_path (xs @ ys) = rooted_path (xs @ zs)" by auto
    have "plain_elems zs" "plain_elems ys"
      using Cons.prems(1) z(1) e by (auto simp: list_all_iff zip_safe_def)
    then have "zs = ys" using z(2) assms(1) by (simp add: rooted_path_inj)
    then show False using Cons.prems(2) z(1) e by force
  qed
  then have "Files s2 (rooted_path (xs @ ys)) = Some c" using s1(2) s2(3) by auto
  then show ?case using s1 s2 by (auto simp: e)
qed simp

lemma addZipFiles_Inr:
  assumes "addZipFiles env (rooted_path xs) Directory s (map (\<lambda>ys. rooted_path (xs @ ys)) yss) es = Inr es'"
    and "plain_elems xs"
    and "\<And>ys. ys \<in> set yss \<Longrightarrow> zip_safe ys \<and> Stat env (rooted_path (xs @ ys)) = Inr RegularFile"
  shows "es' = es @ map (\<lambda>ys. packed_entry ys (the (Files s (rooted_path (xs @ ys))))) yss
    \<and> (\<forall>ys \<in> set yss. Files s (rooted_path (xs @ ys)) \<noteq> None)"
  using assms(1,3)
proof (induction yss arbitrary: es)
  case (Cons ys yss)
  have p: "plain_elems ys" "ys \<noteq> []" using Cons.prems(2) by (auto simp: zip_safe_def)
  have "zipEntryName (rooted_path xs) Directory (rooted_path (xs @ ys)) = Inr (join_path ys)"
    using Rel_rooted [OF assms(2) p(1)] p plain_join_no_climb [OF p] join_path_plain_not_abs [OF p]
    by (simp add: zipEntryName_def)
  moreover from Cons.prems obtain e where
      "addZipFile env (rooted_path xs) Directory s (rooted_path (xs @ ys)) es = Inr e"
      "addZipFiles env (rooted_path xs) Directory s (map (\<lambda>ys. rooted_path (xs @ ys)) yss) e = Inr es'"
    by (auto split: sum.splits)
  ultimately show ?case
    using Cons.IH [of e] Cons.prems(2) assms(2) p
    by (auto simp: addZipFile_def ReadFile_def packed_entry_def split: option.splits sum.splits if_splits)
qed simp

lemma choose_preimages: "\<forall>p \<in> set ps. \<exists>y. p = f y \<and> Q y \<Longrightarrow> \<exists>ys. ps = map f ys \<and> list_all Q ys"
proof (induction ps)
  case (Cons p ps)
  then obtain y ys where "p = f y" "Q y" "ps = map f ys" "list_all Q ys" by auto
  then show ?case by (intro exI [of _ "y # ys"]) simp
qed simp

text \<open>
  C23: packing a directory and unpacking the archive elsewhere restores every regular file that was walked, with
  its content, when the archive library reads back what it wrote, the names have no backslash and no NUL, and the
  file system reports no fault while unpacking.
\<close>

theorem unzip_restores_zip:
  assumes "plain_elems xs" "plain_elems ts" and "Stat env (rooted_path xs) = Inr Directory"
    and "Walk env (rooted_path xs) = Inr visits" and "distinct (map fst visits)"
    and "\<And>p. (p, RegularFile) \<in> set visits \<Longrightarrow>
      Stat env p = Inr RegularFile \<and> (\<exists>ys. zip_safe ys \<and> p = rooted_path (xs @ ys))"
    and "ZipDirectoryToMemory env (rooted_path xs) s = Inr b"
    and "\<And>es. zip_NewReader env' (zip_image env es) = Inr es" and "\<And>c. fault env' c = None"
  shows "\<exists>t'. UnzipFromMemory env' b (rooted_path ts) t = (None, t')
    \<and> (\<forall>ys. zip_safe ys \<longrightarrow> (rooted_path (xs @ ys), RegularFile) \<in> set visits \<longrightarrow>
          Files s (rooted_path (xs @ ys)) \<noteq> None
          \<and> Files t' (rooted_path (ts @ ys)) = Files s (rooted_path (xs @ ys)))"
proof -
  let ?files = "map fst (filter (\<lambda>(p, k). k = RegularFile) visits)"
  have set_files: "set (sort ?files) = {p. (p, RegularFile) \<in> set visits}" by force
  have "\<forall>p \<in> set (sort ?files). \<exists>ys. p = rooted_path (xs @ ys) \<and> zip_safe ys"
    unfolding set_files using assms(6) by blast
  from choose_preimages [OF this]
  obtain yss where yss: "sort ?files = map (\<lambda>ys. rooted_path (xs @ ys)) yss" "list_all zip_safe yss" by blast
  have "distinct (sort ?files)" using distinct_map_filter [OF assms(5)] by simp
  then have d: "distinct yss" unfolding yss(1) by (simp add: distinct_map)
  have "zipSourceFiles env (rooted_path xs) Directory = Inr ?files" using assms(4) by (simp add: zipSourceFiles_def)
  moreover have "rooted_path xs \<noteq> []" by (simp add: rooted_path_def)
  ultimately obtain es where es: "b = zip_image env es"
      "addZipFiles env (rooted_path xs) Directory s (map (\<lambda>ys. rooted_path (xs @ ys)) yss) [] = Inr es"
    using assms(7) assms(1,3) unfolding ZipDirectoryToMemory_def writeZip_def Let_def yss(1) [symmetric]
    by (auto split: sum.splits option.splits)
  have m: "ys \<in> set yss \<longleftrightarrow> zip_safe ys \<and> (rooted_path (xs @ ys), RegularFile) \<in> set visits" for ys
  proof -
    have "(rooted_path (xs @ ys), RegularFile) \<in> set visits
        \<longleftrightarrow> rooted_path (xs @ ys) \<in> (\<lambda>ys. rooted_path (xs @ ys)) ` set yss"
      using set_files [unfolded yss(1) list.set_map] by blast
    moreover have safe: "zs \<in> set yss \<Longrightarrow> zip_safe zs" for zs using yss(2) by (simp add: list_all_iff)
    moreover have "zip_safe ys \<Longrightarrow> zs \<in> set yss \<Longrightarrow> rooted_path (xs @ ys) = rooted_path (xs @ zs) \<Longrightarrow> ys = zs" for zs
      using safe [of zs] assms(1) by (simp add: zip_safe_def rooted_path_inj)
    ultimately show ?thesis by blast
  qed
  have "ys \<in> set yss \<Longrightarrow> zip_safe ys \<and> Stat env (rooted_path (xs @ ys)) = Inr RegularFile" for ys
    using m assms(6) by blast
  from addZipFiles_Inr [OF es(2) assms(1) this]
  have e: "es = map (\<lambda>ys. packed_entry ys (the (Files s (rooted_path (xs @ ys))))) yss"
      "\<forall>ys \<in> set yss. Files s (rooted_path (xs @ ys)) \<noteq> None" by auto
  let ?es = "map (\<lambda>ys. (ys, the (Files s (rooted_path (xs @ ys))))) yss"
  have nf: "fault (os_of env') c = None" for c using assms(9) by (simp add: os_env.truncate_def)
  obtain t1 where t1: "MkdirAll (os_of env') (rooted_path ts) t = (None, t1)" using nf by (auto simp: MkdirAll_def)
  obtain t' where t': "unzip_entries env' (rooted_path ts) (map (\<lambda>(ys, c). packed_entry ys c) ?es) t1 = (None, t')"
      "\<forall>(ys, c) \<in> set ?es. Files t' (rooted_path (ts @ ys)) = Some c"
    using unzip_all [OF assms(2,9), of ?es t1] yss(2) d by (auto simp: list_all_iff comp_def)
  have "map (\<lambda>(ys, c). packed_entry ys c) ?es = es" using e(1) by simp
  then have "UnzipFromMemory env' b (rooted_path ts) t = (None, t')"
    using t'(1) t1 assms(2,8) es(1) by (simp add: UnzipFromMemory_def Abs_path_def) (simp add: rooted_path_def)
  then show ?thesis using t'(2) e(2) m by fastforce
qed

text \<open>A directory with one file, and an archive library that keeps the entries in a single byte string.\<close>

definition sample_zip_env :: zip_env where
  "sample_zip_env = \<lparr>cwd = ''/w'', fault = (\<lambda>c. None), short_write = (\<lambda>p. 0),
     Stat = (\<lambda>p. if p = ''/r'' then Inr Directory else Inr RegularFile),
     Walk = (\<lambda>p. Inr [(''/r'', Directory), (''/r/f'', RegularFile)]), Glob = (\<lambda>p. Inr []),
     zip_image = (\<lambda>es. case es of [] \<Rightarrow> [] | e # _ \<Rightarrow> zf_Content e),
     zip_NewReader = (\<lambda>b. Inr [\<lparr>zf_Name = ''f'', zf_Kind = RegularFile, zf_Content = b\<rparr>]),
     Sum256 = (\<lambda>b. b), temp_name = ''/t''\<rparr>"

definition sample_os :: os_state where
  "sample_os = \<lparr>Files = [''/r/f'' \<mapsto> [7]], Dirs = {''/r''}\<rparr>"

theorem UnzipFromMemory_confined_witness:
  "\<exists>s'. UnzipFromMemory sample_zip_env [1, 2] ''t'' sample_os = (None, s') \<and> Files s' ''/w/t/f'' = Some [1, 2]
     \<and> strictly_below (path_elems ''/w/t'') ''/w/t/f''"
proof -
  have e: "cwd sample_zip_env = rooted_path [''w'']" by (simp add: sample_zip_env_def rooted_path_def)
  have a: "Abs_path (os_of sample_zip_env) ''t'' = Inr ''/w/t''" by code_simp
  obtain r s' where u: "UnzipFromMemory sample_zip_env [1, 2] ''t'' sample_os = (r, s')" by fastforce
  have v: "fst (UnzipFromMemory sample_zip_env [1, 2] ''t'' sample_os) = None
     \<and> Files (snd (UnzipFromMemory sample_zip_env [1, 2] ''t'' sample_os)) ''/w/t/f'' = Some [1, 2]
     \<and> Files sample_os ''/w/t/f'' = None" by code_simp
  have "plain_elems [''w'']" by code_simp
  from UnzipFromMemory_confined [OF u a e this, of "''/w/t/f''"] show ?thesis using v u by simp
qed

text \<open>An archive format that reads back what it writes: the entries, numbered, in unary.\<close>

instance file_kind :: countable
  by countable_datatype

definition entry_tuple :: "zip_file \<Rightarrow> string \<times> file_kind \<times> bytes" where
  "entry_tuple e = (zf_Name e, zf_Kind e, zf_Content e)"

definition tuple_entry :: "string \<times> file_kind \<times> bytes \<Rightarrow> zip_file" where
  "tuple_entry t = (case t of (n, k, c) \<Rightarrow> \<lparr>zf_Name = n, zf_Kind = k, zf_Content = c\<rparr>)"

lemma tuple_entry_id [simp]: "map (tuple_entry \<circ> entry_tuple) es = es"
  by (induction es) (auto simp: tuple_entry_def entry_tuple_def)

definition unary_zip_env :: zip_env where
  "unary_zip_env = sample_zip_env\<lparr>
     zip_image := (\<lambda>es. replicate (to_nat (map entry_tuple es)) 0),
     zip_NewReader := (\<lambda>b. Inr (map tuple_entry (from_nat (length b))))\<rparr>"

theorem unzip_restores_zip_witness:
  "\<exists>b t'. ZipDirectoryToMemory unary_zip_env ''/r'' sample_os = Inr b
     \<and> UnzipFromMemory unary_zip_env b ''/t'' sample_os = (None, t') \<and> Files t' ''/t/f'' = Some [7]"
proof -
  let ?env = unary_zip_env
  have w: "Walk ?env (rooted_path [''r'']) = Inr [(''/r'', Directory), (''/r/f'', RegularFile)]"
    by (simp add: unary_zip_env_def sample_zip_env_def)
  have st: "Stat ?env (rooted_path [''r'']) = Inr Directory" "Stat ?env ''/r/f'' = Inr RegularFile"
    by (simp_all add: unary_zip_env_def sample_zip_env_def rooted_path_def)
  have r: "rooted_path [''r''] = ''/r''" by (simp add: rooted_path_def)
  have rf: "''/r/f'' = rooted_path ([''r''] @ [''f''])" by (simp add: rooted_path_def)
  have safe: "zip_safe [''f'']" "plain_elems [''r'']" "plain_elems [''t'']" by code_simp+
  have "addZipFiles sample_zip_env ''/r'' Directory sample_os [''/r/f''] []
      = Inr [\<lparr>zf_Name = ''f'', zf_Kind = RegularFile, zf_Content = [7]\<rparr>]" by code_simp
  moreover have "Stat ?env = Stat sample_zip_env" "fault ?env = fault sample_zip_env" "os_of ?env = os_of sample_zip_env"
    by (simp_all add: unary_zip_env_def os_env.truncate_def)
  then have "addZipFile ?env = addZipFile sample_zip_env"
    by (intro ext) (simp only: addZipFile_def)
  ultimately have "addZipFiles ?env ''/r'' Directory sample_os [''/r/f''] []
      = Inr [\<lparr>zf_Name = ''f'', zf_Kind = RegularFile, zf_Content = [7]\<rparr>]" by (simp split: sum.splits)
  moreover have "fault ?env c = None" for c by (simp add: unary_zip_env_def sample_zip_env_def)
  ultimately have z: "\<exists>b. ZipDirectoryToMemory ?env (rooted_path [''r'']) sample_os = Inr b"
    using st w Clean_rooted [OF safe(2)] unfolding r
    by (auto simp: ZipDirectoryToMemory_def writeZip_def zipSourceFiles_def Let_def split: sum.splits)
  then obtain b where b: "ZipDirectoryToMemory ?env (rooted_path [''r'']) sample_os = Inr b" by blast
  have "\<exists>t'. UnzipFromMemory ?env b (rooted_path [''t'']) sample_os = (None, t')
    \<and> (\<forall>ys. zip_safe ys \<longrightarrow> (rooted_path ([''r''] @ ys), RegularFile) \<in> set [(''/r'', Directory), (''/r/f'', RegularFile)] \<longrightarrow>
          Files sample_os (rooted_path ([''r''] @ ys)) \<noteq> None
          \<and> Files t' (rooted_path ([''t''] @ ys)) = Files sample_os (rooted_path ([''r''] @ ys)))"
  proof (rule unzip_restores_zip [OF safe(2,3) st(1) w _ _ b])
    fix p assume "(p, RegularFile) \<in> set [(''/r'', Directory), (''/r/f'', RegularFile)]"
    then have "p = ''/r/f''" by simp
    then show "Stat ?env p = Inr RegularFile \<and> (\<exists>ys. zip_safe ys \<and> p = rooted_path ([''r''] @ ys))"
      using st(2) safe(1) rf by metis
  qed (simp_all add: unary_zip_env_def sample_zip_env_def)
  then obtain t' where t': "UnzipFromMemory ?env b (rooted_path [''t'']) sample_os = (None, t')"
      "Files t' (rooted_path ([''t''] @ [''f''])) = Files sample_os (rooted_path ([''r''] @ [''f'']))"
    using safe(1) unfolding rf by auto
  moreover have "rooted_path [''t''] = ''/t''" "rooted_path ([''t''] @ [''f'']) = ''/t/f''"
      "Files sample_os (rooted_path ([''r''] @ [''f''])) = Some [7]" by (simp_all add: rooted_path_def sample_os_def)
  ultimately show ?thesis using b unfolding r by metis
qed

end
