(* ===== verification/Agent_Service.thy ===== *)
theory Agent_Service
  imports Archive State_Machine
begin

text \<open>
  \<open>agent/service.go\<close> and \<open>agent/computations.go\<close>: the agent that receives a computation manifest, an
  algorithm and datasets, runs the computation and hands out the result.

  The fields of \<open>agentService\<close> are a record; the operating system, the event loop of the state machine, the goroutines
  started for the actions, the events published and the requests sent to the runner are part of the state.
  Each method is one definition. Its body runs under the service mutex, so it is one step; the loop and the actions
  take their own steps in between. The clients of the service (\<open>ociClient\<close>, the runner, the attestation client), the
  context and the faults of the operating system are the environment of a call.
  Log lines are not modelled; error values keep their text and cause.
\<close>

section \<open>Data\<close>

datatype AgentState =
  Idle | ReceivingManifest | ReceivingAlgorithm | ReceivingData | Running | ConsumingResults | Complete | Failed

datatype AgentEvent =
  Start | ManifestReceived | AlgorithmReceived | DataReceived | RunComplete | ResultsConsumed | RunFailed

datatype Status = IdleState | InProgress | Ready | Completed | Terminated | Warning | Starting

fun AgentState_String :: "AgentState \<Rightarrow> string" where
  "AgentState_String Idle = ''Idle''"
| "AgentState_String ReceivingManifest = ''ReceivingManifest''"
| "AgentState_String ReceivingAlgorithm = ''ReceivingAlgorithm''"
| "AgentState_String ReceivingData = ''ReceivingData''"
| "AgentState_String Running = ''Running''"
| "AgentState_String ConsumingResults = ''ConsumingResults''"
| "AgentState_String Complete = ''Complete''"
| "AgentState_String Failed = ''Failed''"

fun Status_String :: "Status \<Rightarrow> string" where
  "Status_String IdleState = ''IdleState''"
| "Status_String InProgress = ''InProgress''"
| "Status_String Ready = ''Ready''"
| "Status_String Completed = ''Completed''"
| "Status_String Terminated = ''Terminated''"
| "Status_String Warning = ''Warning''"
| "Status_String Starting = ''Starting''"

datatype agent_error =
    ErrUndeclaredDataset | ErrAllManifestItemsReceived | ErrUndeclaredConsumer | ErrResultsNotReady
  | ErrStateNotReady | ErrHashMismatch | ErrFileNameMismatch | ErrUnsafeDatasetFilename
  | ErrAttestationFailed string | Errorf string string | PlainError string

record ResourceSource =
  src_Type :: string
  src_URL :: string
  KBSResourcePath :: string
  Encrypted :: bool

record KBSConfig =
  kbs_URL :: string
  kbs_Enabled :: bool

record Dataset =
  ds_Dataset :: bytes
  ds_Hash :: bytes
  ds_UserKey :: bytes
  ds_Filename :: string
  ds_Source :: "ResourceSource option"
  ds_Decompress :: bool

record Algorithm =
  alg_Algorithm :: bytes
  alg_Hash :: bytes
  alg_UserKey :: bytes
  alg_Requirements :: bytes
  alg_Source :: "ResourceSource option"
  alg_AlgoType :: string
  alg_AlgoArgs :: "string list"

record Computation =
  cmp_ID :: string
  cmp_Name :: string
  cmp_Description :: string
  cmp_Datasets :: "Dataset list"
  cmp_Algorithm :: Algorithm
  ResultConsumers :: "bytes list"
  cmp_KBS :: KBSConfig

definition empty_Algorithm :: Algorithm where
  "empty_Algorithm = \<lparr>alg_Algorithm = [], alg_Hash = replicate 32 0, alg_UserKey = [], alg_Requirements = [],
     alg_Source = None, alg_AlgoType = [], alg_AlgoArgs = []\<rparr>"

definition empty_Computation :: Computation where
  "empty_Computation = \<lparr>cmp_ID = [], cmp_Name = [], cmp_Description = [], cmp_Datasets = [],
     cmp_Algorithm = empty_Algorithm, ResultConsumers = [], cmp_KBS = \<lparr>kbs_URL = [], kbs_Enabled = False\<rparr>\<rparr>"

abbreviation (input) AlgoTypeBin :: string where "AlgoTypeBin \<equiv> ''bin''"
abbreviation (input) AlgoTypeDocker :: string where "AlgoTypeDocker \<equiv> ''docker''"
abbreviation (input) ResultsDir :: string where "ResultsDir \<equiv> ''results''"
abbreviation (input) DatasetsDir :: string where "DatasetsDir \<equiv> ''datasets''"

text \<open>The context of a call: incoming gRPC metadata, and the consumer index the interceptor put there.\<close>

record call_ctx =
  metadata :: "string \<Rightarrow> string list"
  manifest_index :: "int option"

definition AlgorithmTypeFromContext :: "call_ctx \<Rightarrow> string" where
  "AlgorithmTypeFromContext ctx = (case metadata ctx ''algo_type'' of [] \<Rightarrow> [] | v # _ \<Rightarrow> v)"

definition AlgorithmArgsFromContext :: "call_ctx \<Rightarrow> string list" where
  "AlgorithmArgsFromContext ctx = metadata ctx ''algo_args''"

definition DecompressFromContext :: "call_ctx \<Rightarrow> bool" where
  "DecompressFromContext ctx = (case metadata ctx ''decompress'' of [] \<Rightarrow> False | v # _ \<Rightarrow> v = ''true'')"

definition IndexToContext :: "call_ctx \<Rightarrow> int \<Rightarrow> call_ctx" where
  "IndexToContext ctx index = ctx\<lparr>manifest_index := Some index\<rparr>"

definition IndexFromContext :: "call_ctx \<Rightarrow> int option" where
  "IndexFromContext ctx = manifest_index ctx"

record RunRequest =
  run_ComputationId :: string
  run_AlgoType :: string
  run_Algorithm :: bytes
  run_Requirements :: bytes
  run_Args :: "string list"

text \<open>The actions of the machine, by the name of the method they are bound to.\<close>

datatype agent_action = DownloadAlgorithm | DownloadDatasets | RunComputation | PublishEvent string

type_synonym agent_machine = "(AgentState, AgentEvent, agent_action) stateMachine"

record agentService =
  computation :: Computation
  algoType :: string
  algoArgs :: "string list"
  algoRequirements :: bytes
  algoReceived :: bool
  result :: bytes
  sm :: agent_machine
  runError :: "agent_error option"
  resultsConsumed :: bool

text \<open>
  The service in its surroundings. \<open>manifest\<close> and \<open>received\<close> are history: the last manifest accepted and the
  datasets accepted for it, neither of which the code stores. \<open>stale\<close> holds the events that loops with a cancelled
  context had taken before and still handle.
\<close>

record agent_sys =
  svc :: agentService
  os :: os_state
  evloop :: "(AgentState, AgentEvent) loop"
  pending :: "(agent_action \<times> AgentState) list"
  published :: "(string \<times> string \<times> string) list"
  runs :: "RunRequest list"
  manifest :: Computation
  received :: "bytes list"
  stale :: "AgentEvent option list"

text \<open>
  What the collaborators do during one call: the OCI client and the extraction of \<open>pkg/oci\<close> with their effect on
  the file system, the copy command, the runner, the attestation client, the TPM.
\<close>

record agent_env = zip_env +
  ociClient_nil :: bool
  PullAndDecrypt :: "string \<Rightarrow> bool \<Rightarrow> string \<Rightarrow> string \<Rightarrow> os_state \<Rightarrow> string option \<times> os_state"
  ToDockerArchive :: "string \<Rightarrow> string \<Rightarrow> os_state \<Rightarrow> string option \<times> os_state"
  ExtractAlgorithm :: "string \<Rightarrow> string \<Rightarrow> string \<Rightarrow> os_state \<Rightarrow> (string + string \<times> string) \<times> os_state"
  ExtractDataset :: "string \<Rightarrow> string \<Rightarrow> os_state \<Rightarrow> (string + string list) \<times> os_state"
  copy_tree :: "string \<Rightarrow> string \<Rightarrow> os_state \<Rightarrow> string option \<times> os_state"
  TempDir :: string
  runner_Run :: "RunRequest \<Rightarrow> os_state \<Rightarrow> (string + string) \<times> os_state"
  GetAttestation :: "bytes \<Rightarrow> bytes \<Rightarrow> nat \<Rightarrow> string + bytes"
  GetAzureToken :: "bytes \<Rightarrow> string + bytes"
  GetPCRSHA1Value :: "nat \<Rightarrow> string + bytes"

abbreviation zip_of :: "agent_env \<Rightarrow> zip_env" where
  "zip_of env \<equiv> zip_env.truncate env"

abbreviation osenv_of :: "agent_env \<Rightarrow> os_env" where
  "osenv_of env \<equiv> os_env.truncate env"


section \<open>Events\<close>

definition send_event :: "AgentEvent \<Rightarrow> agent_sys \<Rightarrow> agent_sys" where
  "send_event e s = s\<lparr>evloop := SendEvent e (sm (svc s)) (evloop s)\<rparr>"

definition publishEvent :: "string \<Rightarrow> AgentState \<Rightarrow> agent_sys \<Rightarrow> agent_sys" where
  "publishEvent status state s =
     s\<lparr>published := published s @ [(cmp_ID (computation (svc s)), AgentState_String state, status)]\<rparr>"

definition State :: "agent_sys \<Rightarrow> string" where
  "State s = AgentState_String (GetState (sm (svc s)))"


section \<open>Starting up\<close>

definition base_transitions :: "(AgentState, AgentEvent) Transition list" where
  "base_transitions =
     [\<lparr>tr_From = Idle, tr_Event = Start, tr_To = ReceivingManifest\<rparr>,
      \<lparr>tr_From = ReceivingManifest, tr_Event = ManifestReceived, tr_To = ReceivingAlgorithm\<rparr>,
      \<lparr>tr_From = ReceivingAlgorithm, tr_Event = RunFailed, tr_To = Failed\<rparr>,
      \<lparr>tr_From = ReceivingData, tr_Event = RunFailed, tr_To = Failed\<rparr>,
      \<lparr>tr_From = Running, tr_Event = RunComplete, tr_To = ConsumingResults\<rparr>,
      \<lparr>tr_From = Running, tr_Event = RunFailed, tr_To = Failed\<rparr>,
      \<lparr>tr_From = ConsumingResults, tr_Event = ResultsConsumed, tr_To = Complete\<rparr>]"

definition add_transitions :: "(AgentState, AgentEvent) Transition list \<Rightarrow> agent_machine \<Rightarrow> agent_machine" where
  "add_transitions ts m = fold AddTransition ts m"

definition new_machine :: agent_machine where
  "new_machine =
     SetAction Failed (PublishEvent (AgentState_String Failed))
     (SetAction Complete (PublishEvent (Status_String Completed))
     (SetAction ConsumingResults (PublishEvent (Status_String Ready))
     (SetAction Running RunComputation
     (SetAction ReceivingData DownloadDatasets
     (SetAction ReceivingAlgorithm DownloadAlgorithm
     (add_transitions base_transitions (NewStateMachine Idle)))))))"

text \<open>The pauses around the first event give the loop the time to block in its \<open>select\<close>.\<close>

definition New :: "os_state \<Rightarrow> agent_sys" where
  "New os0 = send_event Start
     \<lparr>svc = \<lparr>computation = empty_Computation, algoType = [], algoArgs = [], algoRequirements = [], algoReceived = False,
             result = [], sm = new_machine, runError = None, resultsConsumed = False\<rparr>,
      os = os0, evloop = Waiting (channels new_machine), pending = [], published = [], runs = [],
      manifest = empty_Computation, received = [], stale = []\<rparr>"


section \<open>The manifest\<close>

definition manifest_transitions :: "Computation \<Rightarrow> (AgentState, AgentEvent) Transition list" where
  "manifest_transitions cmp =
     (if length (cmp_Datasets cmp) = 0
      then [\<lparr>tr_From = ReceivingAlgorithm, tr_Event = AlgorithmReceived, tr_To = Running\<rparr>]
      else [\<lparr>tr_From = ReceivingAlgorithm, tr_Event = AlgorithmReceived, tr_To = ReceivingData\<rparr>,
            \<lparr>tr_From = ReceivingData, tr_Event = DataReceived, tr_To = Running\<rparr>])"

text \<open>The state check comes before the mutex; the body and the deferred event come after it.\<close>

definition InitComputation_locked :: "Computation \<Rightarrow> agent_sys \<Rightarrow> agent_sys" where
  "InitComputation_locked cmp s =
     (let v = svc s in
      send_event ManifestReceived
        (s\<lparr>svc := v\<lparr>computation := cmp, sm := add_transitions (manifest_transitions cmp) (sm v)\<rparr>,
           manifest := cmp, received := []\<rparr>))"

definition InitComputation :: "Computation \<Rightarrow> agent_sys \<Rightarrow> agent_error option \<times> agent_sys" where
  "InitComputation cmp s =
     (if GetState (sm (svc s)) \<noteq> ReceivingManifest then (Some ErrStateNotReady, s)
      else (None, InitComputation_locked cmp s))"


section \<open>Dataset paths\<close>

definition datasetFilePath :: "os_env \<Rightarrow> string \<Rightarrow> agent_error + string" where
  "datasetFilePath env filename =
     (let name = TrimSpace filename; cleanName = Clean name in
      if name = [] then Inl ErrUnsafeDatasetFilename
      else if cleanName \<noteq> name \<or> cleanName = ''.'' \<or> IsAbs cleanName \<or> cleanName \<noteq> Base cleanName
      then Inl ErrUnsafeDatasetFilename
      else case Abs_path env DatasetsDir of
        Inl e \<Rightarrow> Inl (PlainError e)
      | Inr root \<Rightarrow>
          (let target = Join [root, cleanName] in
           case Rel root target of
             Inl e \<Rightarrow> Inl (PlainError e)
           | Inr rel \<Rightarrow>
               if rel = ''.'' \<or> prefix ''../'' rel \<or> rel = ''..'' \<or> IsAbs rel
               then Inl ErrUnsafeDatasetFilename else Inr target))"


section \<open>Remote resources\<close>

record DecryptedResource =
  res_Data :: bytes
  res_Requirements :: bytes
  res_SourceDir :: string

definition sanitizedName :: "string \<Rightarrow> string" where
  "sanitizedName url = map (\<lambda>c. if c = CHR '':'' then CHR ''_'' else c) (Base url)"

text \<open>The files extracted from the image and the path of the requirements file, by resource type.\<close>

definition extract_files ::
    "agent_env \<Rightarrow> string \<Rightarrow> string \<Rightarrow> string \<Rightarrow> string \<Rightarrow> os_state \<Rightarrow> (agent_error + string list \<times> string) \<times> os_state" where
  "extract_files env algo_type resourceType destDir extractDir s =
     (if resourceType = ''algorithm'' then
        (if algo_type = AlgoTypeDocker then
           (let algorithmPath = Join [extractDir, ''image.tar''] in
            case MkdirAll (osenv_of env) extractDir s of
              (Some e, s) \<Rightarrow> (Inl (Errorf ''failed to create extract directory'' e), s)
            | (None, s) \<Rightarrow>
                (case ToDockerArchive env destDir algorithmPath s of
                   (Some e, s) \<Rightarrow> (Inl (Errorf ''failed to convert OCI image to Docker archive'' e), s)
                 | (None, s) \<Rightarrow> (Inr ([algorithmPath], []), s)))
         else
           (case ExtractAlgorithm env destDir extractDir algo_type s of
              (Inl e, s) \<Rightarrow> (Inl (Errorf ''failed to extract algorithm from OCI image'' e), s)
            | (Inr (algorithmPath, requirementsPath), s) \<Rightarrow> (Inr ([algorithmPath], requirementsPath), s)))
      else
        (case ExtractDataset env destDir extractDir s of
           (Inl e, s) \<Rightarrow> (Inl (Errorf ''failed to extract dataset from OCI image'' e), s)
         | (Inr [], s) \<Rightarrow> (Inl (Errorf ''failed to extract dataset from OCI image'' []), s)
         | (Inr files, s) \<Rightarrow> (Inr (files, []), s)))"

definition read_requirements :: "agent_env \<Rightarrow> string \<Rightarrow> string list \<Rightarrow> string \<Rightarrow> os_state \<Rightarrow> bytes" where
  "read_requirements env resourceType files requirementsPath s =
     (if resourceType \<noteq> ''algorithm'' then []
      else case ReadFile (osenv_of env)
          (if requirementsPath \<noteq> [] then requirementsPath else Join [Dir (hd files), ''requirements.txt'']) s of
        Inl _ \<Rightarrow> [] | Inr b \<Rightarrow> b)"

definition downloadAndDecryptOCIImage ::
    "agent_env \<Rightarrow> string \<Rightarrow> ResourceSource \<Rightarrow> string \<Rightarrow> os_state \<Rightarrow> (agent_error + DecryptedResource) \<times> os_state" where
  "downloadAndDecryptOCIImage env algo_type source resourceType s =
     (if ociClient_nil env then (Inl (PlainError ''OCI client not initialized''), s)
      else
        let name = sanitizedName (src_URL source);
            destDir = Join [TempDir env, ''agents-secure-binding-oci'', ''images'', name];
            extractDir = Join [TempDir env, ''agents-secure-binding-oci'', ''extracted'', name] in
        case PullAndDecrypt env (src_URL source) (Encrypted source) (KBSResourcePath source) destDir s of
          (Some e, s) \<Rightarrow> (Inl (Errorf ''failed to pull and decrypt OCI image'' e), s)
        | (None, s) \<Rightarrow>
            (case extract_files env algo_type resourceType destDir extractDir s of
               (Inl e, s) \<Rightarrow> (Inl e, s)
             | (Inr (files, requirementsPath), s) \<Rightarrow>
                 (let hashPath = (if length files = 1 then hd files else extractDir) in
                  case Digest (zip_of env) hashPath s of
                    Inl e \<Rightarrow> (Inl (Errorf ''failed to calculate resource digest'' e), s)
                  | Inr (resourceData, _) \<Rightarrow>
                      (Inr \<lparr>res_Data = resourceData,
                            res_Requirements = read_requirements env resourceType files requirementsPath s,
                            res_SourceDir = extractDir\<rparr>, s))))"

definition downloadAndDecryptResource ::
    "agent_env \<Rightarrow> string \<Rightarrow> ResourceSource \<Rightarrow> string \<Rightarrow> os_state \<Rightarrow> (agent_error + DecryptedResource) \<times> os_state" where
  "downloadAndDecryptResource env algo_type source resourceType s =
     (if src_Type source = [] \<and> \<not> (prefix ''docker://'' (src_URL source) \<or> prefix ''oci:'' (src_URL source))
      then (Inl (PlainError ''unsupported source URL format''), s)
      else
        let sourceType = (if src_Type source = [] then ''oci-image'' else src_Type source) in
        if sourceType = ''oci-image'' then downloadAndDecryptOCIImage env algo_type source resourceType s
        else (Inl (PlainError ''unsupported source type''), s))"

text \<open>A resource is fetched by the agent itself when it has a source and the key broker is enabled.\<close>

definition remote_algorithm :: "Computation \<Rightarrow> bool" where
  "remote_algorithm cmp = (alg_Source (cmp_Algorithm cmp) \<noteq> None \<and> kbs_Enabled (cmp_KBS cmp))"

definition remote_dataset :: "Computation \<Rightarrow> Dataset \<Rightarrow> bool" where
  "remote_dataset cmp d = (ds_Source d \<noteq> None \<and> kbs_Enabled (cmp_KBS cmp))"


section \<open>Storing what was received\<close>

definition save_algorithm :: "os_env \<Rightarrow> string \<Rightarrow> bytes \<Rightarrow> os_state \<Rightarrow> agent_error option \<times> os_state" where
  "save_algorithm env path b s =
     (case Create env path s of
        (Some e, s) \<Rightarrow> (Some (Errorf ''error creating algorithm file'' e), s)
      | (None, s) \<Rightarrow>
          (case Write env path b s of
             (Some e, s) \<Rightarrow> (Some (Errorf ''error writing algorithm to file'' e), s)
           | (None, s) \<Rightarrow>
               (case Chmod env path s of
                  (Some e, s) \<Rightarrow> (Some (Errorf ''error changing file permissions'' e), s)
                | (None, s) \<Rightarrow>
                    (case Close env path s of
                       (Some e, s) \<Rightarrow> (Some (Errorf ''error closing file'' e), s)
                     | (None, s) \<Rightarrow> (None, s)))))"

text \<open>The two callers differ in the text of the first and the last error.\<close>

definition save_dataset ::
    "agent_env \<Rightarrow> string \<Rightarrow> string \<Rightarrow> bool \<Rightarrow> string \<Rightarrow> bytes \<Rightarrow> os_state \<Rightarrow> agent_error option \<times> os_state" where
  "save_dataset env unzipText closeText decompress filename b s =
     (if decompress then
        (case UnzipFromMemory (zip_of env) b DatasetsDir s of
           (Some (UnsafeZipPath p), s) \<Rightarrow> (Some (Errorf unzipText p), s)
         | (Some (ZipLibErr e), s) \<Rightarrow> (Some (Errorf unzipText e), s)
         | (None, s) \<Rightarrow> (None, s))
      else
        (case datasetFilePath (osenv_of env) filename of
           Inl e \<Rightarrow> (Some e, s)
         | Inr path \<Rightarrow>
             (case Create (osenv_of env) path s of
                (Some e, s) \<Rightarrow> (Some (Errorf ''error creating dataset file'' e), s)
              | (None, s) \<Rightarrow>
                  (case Write (osenv_of env) path b s of
                     (Some e, s) \<Rightarrow> (Some (Errorf ''error writing dataset to file'' e), s)
                   | (None, s) \<Rightarrow>
                       (case Close (osenv_of env) path s of
                          (Some e, s) \<Rightarrow> (Some (Errorf closeText e), s)
                        | (None, s) \<Rightarrow> (None, s))))))"

text \<open>\<open>slices.Delete(xs, i, i+1)\<close>, and the index of the first element a loop stops at.\<close>

definition delete_at :: "nat \<Rightarrow> 'a list \<Rightarrow> 'a list" where
  "delete_at i xs = take i xs @ drop (Suc i) xs"

definition first_index :: "('a \<Rightarrow> bool) \<Rightarrow> 'a list \<Rightarrow> nat option" where
  "first_index P xs = (case filter (\<lambda>i. P (xs ! i)) [0..<length xs] of [] \<Rightarrow> None | i # _ \<Rightarrow> Some i)"

definition take_dataset :: "nat \<Rightarrow> bytes \<Rightarrow> agent_sys \<Rightarrow> agent_sys" where
  "take_dataset i b s =
     (let v = svc s; c = computation v in
      s\<lparr>svc := v\<lparr>computation := c\<lparr>cmp_Datasets := delete_at i (cmp_Datasets c)\<rparr>\<rparr>, received := received s @ [b]\<rparr>)"

definition fail_run :: "agent_error \<Rightarrow> agent_sys \<Rightarrow> agent_sys" where
  "fail_run e s = send_event RunFailed (s\<lparr>svc := (svc s)\<lparr>runError := Some e\<rparr>\<rparr>)"


section \<open>Actions\<close>

text \<open>The part of the download after the resource has arrived.\<close>

definition install_algorithm :: "agent_env \<Rightarrow> DecryptedResource \<Rightarrow> agent_sys \<Rightarrow> agent_sys" where
  "install_algorithm env res s =
     (let alg = cmp_Algorithm (computation (svc s)) in
      if Sum256 env (res_Data res) \<noteq> alg_Hash alg then fail_run (PlainError ''algorithm hash mismatch'') s
      else case Getwd (osenv_of env) of
        Inl e \<Rightarrow> fail_run (Errorf ''error getting current directory'' e) s
      | Inr currentDir \<Rightarrow>
          (case (if res_SourceDir res \<noteq> [] then copy_tree env (res_SourceDir res) currentDir (os s) else (None, os s)) of
             (Some e, t) \<Rightarrow> fail_run (Errorf ''error copying algorithm directory'' e) (s\<lparr>os := t\<rparr>)
           | (None, t) \<Rightarrow>
               (case save_algorithm (osenv_of env) (Join [currentDir, ''algo'']) (res_Data res) t of
                  (Some e, t) \<Rightarrow> fail_run e (s\<lparr>os := t\<rparr>)
                | (None, t) \<Rightarrow>
                    (let s = s\<lparr>svc := (svc s)\<lparr>algoReceived := True, algoRequirements := res_Requirements res\<rparr>\<rparr> in
                     case Mkdir (osenv_of env) DatasetsDir t of
                       (Some e, t) \<Rightarrow> fail_run (Errorf ''error creating datasets directory'' e) (s\<lparr>os := t\<rparr>)
                     | (None, t) \<Rightarrow>
                         send_event AlgorithmReceived
                           (s\<lparr>os := t,
                              svc := (svc s)\<lparr>algoType := (if alg_AlgoType alg = [] then AlgoTypeBin else alg_AlgoType alg),
                                             algoArgs := alg_AlgoArgs alg\<rparr>\<rparr>)))))"

definition downloadAlgorithmIfRemote :: "agent_env \<Rightarrow> AgentState \<Rightarrow> agent_sys \<Rightarrow> agent_sys" where
  "downloadAlgorithmIfRemote env state s =
     (let s = publishEvent (Status_String InProgress) state s;
          alg = cmp_Algorithm (computation (svc s)) in
      if \<not> remote_algorithm (computation (svc s)) then s
      else case downloadAndDecryptResource env (alg_AlgoType alg) (the (alg_Source alg)) ''algorithm'' (os s) of
        (Inl _, t) \<Rightarrow> fail_run (PlainError ''failed to download and decrypt algorithm'') (s\<lparr>os := t\<rparr>)
      | (Inr res, t) \<Rightarrow> install_algorithm env res (s\<lparr>os := t\<rparr>))"

text \<open>One remote dataset: the data stored, or the error that fails the run.\<close>

definition fetch_dataset :: "agent_env \<Rightarrow> Dataset \<Rightarrow> agent_sys \<Rightarrow> (agent_error + bytes) \<times> os_state" where
  "fetch_dataset env d s =
     (case downloadAndDecryptResource env (alg_AlgoType (cmp_Algorithm (computation (svc s)))) (the (ds_Source d))
         ''dataset'' (os s) of
        (Inl _, t) \<Rightarrow> (Inl (Errorf ''failed to download and decrypt dataset'' (ds_Filename d)), t)
      | (Inr res, t) \<Rightarrow>
          if Sum256 env (res_Data res) \<noteq> ds_Hash d then (Inl (Errorf ''dataset hash mismatch'' (ds_Filename d)), t)
          else case save_dataset env ''failed to unzip dataset'' ''error closing dataset file''
              (ds_Decompress d) (ds_Filename d) (res_Data res) t of
            (Some e, t) \<Rightarrow> (Inl e, t)
          | (None, t) \<Rightarrow> (Inr (res_Data res), t))"

text \<open>The loop from the last dataset to the first; the environment may differ from one to the next.\<close>

fun download_datasets :: "(nat \<Rightarrow> agent_env) \<Rightarrow> nat \<Rightarrow> agent_sys \<Rightarrow> bool \<times> agent_sys" where
  "download_datasets envs 0 s = (True, s)"
| "download_datasets envs (Suc i) s =
     (let d = cmp_Datasets (computation (svc s)) ! i in
      if \<not> remote_dataset (computation (svc s)) d then download_datasets envs i s
      else case fetch_dataset (envs i) d s of
        (Inl e, t) \<Rightarrow> (False, fail_run e (s\<lparr>os := t\<rparr>))
      | (Inr b, t) \<Rightarrow> download_datasets envs i (take_dataset i b (s\<lparr>os := t\<rparr>)))"

definition downloadDatasetsIfRemote :: "(nat \<Rightarrow> agent_env) \<Rightarrow> AgentState \<Rightarrow> agent_sys \<Rightarrow> agent_sys" where
  "downloadDatasetsIfRemote envs state s =
     (let s = publishEvent (Status_String InProgress) state s; c = computation (svc s) in
      if \<not> list_ex (remote_dataset c) (cmp_Datasets c) then s
      else case download_datasets envs (length (cmp_Datasets c)) s of
        (False, s) \<Rightarrow> s
      | (True, s) \<Rightarrow>
          if length (cmp_Datasets (computation (svc s))) = 0 then send_event DataReceived s else s)"

text \<open>The run up to its result: the error to record, or the zipped results.\<close>

definition run_algorithm :: "agent_env \<Rightarrow> AgentState \<Rightarrow> agent_sys \<Rightarrow> (agent_error + bytes) \<times> agent_sys" where
  "run_algorithm env state s =
     (let currentDir = (case Getwd (osenv_of env) of Inl _ \<Rightarrow> [] | Inr d \<Rightarrow> d);
          algoFile = Join [currentDir, ''algo''] in
      case Mkdir (osenv_of env) ResultsDir (os s) of
        (Some e, t) \<Rightarrow> (Inl (Errorf ''error creating results directory'' e), s\<lparr>os := t\<rparr>)
      | (None, t) \<Rightarrow>
          (case ReadFile (osenv_of env) algoFile t of
             Inl e \<Rightarrow> (Inl (Errorf ''failed to read algo file'' e), s\<lparr>os := t\<rparr>)
           | Inr algoBytes \<Rightarrow>
               (let s = publishEvent (Status_String InProgress) state s; v = svc s;
                    req = \<lparr>run_ComputationId = cmp_ID (computation v), run_AlgoType = algoType v,
                           run_Algorithm = algoBytes, run_Requirements = algoRequirements v, run_Args = algoArgs v\<rparr>;
                    s = s\<lparr>runs := runs s @ [req]\<rparr> in
                case runner_Run env req t of
                  (Inl e, t) \<Rightarrow> (Inl (PlainError e), s\<lparr>os := t\<rparr>)
                | (Inr resp_Error, t) \<Rightarrow>
                    if resp_Error \<noteq> [] then (Inl (PlainError resp_Error), s\<lparr>os := t\<rparr>)
                    else case ZipDirectoryToMemory (zip_of env) ResultsDir t of
                      Inl e \<Rightarrow> (Inl (PlainError e), s\<lparr>os := t\<rparr>)
                    | Inr results \<Rightarrow> (Inr results, s\<lparr>os := t\<rparr>))))"

definition remove_workspace :: "agent_env \<Rightarrow> os_state \<Rightarrow> os_state" where
  "remove_workspace env t =
     (let algoFile = Join [case Getwd (osenv_of env) of Inl _ \<Rightarrow> [] | Inr d \<Rightarrow> d, ''algo''] in
      snd (Remove (osenv_of env) algoFile
        (snd (RemoveAll (osenv_of env) DatasetsDir (snd (RemoveAll (osenv_of env) ResultsDir t))))))"

definition runComputation :: "agent_env \<Rightarrow> AgentState \<Rightarrow> agent_sys \<Rightarrow> agent_sys" where
  "runComputation env state s =
     (let s = (case run_algorithm env state (publishEvent (Status_String Starting) state s) of
          (Inl e, s) \<Rightarrow> publishEvent (AgentState_String Failed) state (s\<lparr>svc := (svc s)\<lparr>runError := Some e\<rparr>\<rparr>)
        | (Inr results, s) \<Rightarrow>
            (let s = publishEvent (Status_String Completed) state s in s\<lparr>svc := (svc s)\<lparr>result := results\<rparr>\<rparr>));
          s = s\<lparr>os := remove_workspace env (os s)\<rparr> in
      if runError (svc s) \<noteq> None then send_event RunFailed s else send_event RunComplete s)"

fun run_action :: "(nat \<Rightarrow> agent_env) \<Rightarrow> agent_action \<Rightarrow> AgentState \<Rightarrow> agent_sys \<Rightarrow> agent_sys" where
  "run_action envs DownloadAlgorithm state s = downloadAlgorithmIfRemote (envs 0) state s"
| "run_action envs DownloadDatasets state s = downloadDatasetsIfRemote envs state s"
| "run_action envs RunComputation state s = runComputation (envs 0) state s"
| "run_action envs (PublishEvent status) state s = publishEvent status state s"


section \<open>Requests\<close>

text \<open>Where the algorithm comes from: the remote source, or the upload.\<close>

definition algorithm_data :: "agent_env \<Rightarrow> Algorithm \<Rightarrow> agent_sys \<Rightarrow> (agent_error + bytes) \<times> agent_sys" where
  "algorithm_data env algo s =
     (let alg = cmp_Algorithm (computation (svc s)) in
      if \<not> remote_algorithm (computation (svc s)) then (Inr (alg_Algorithm algo), s)
      else case downloadAndDecryptResource env (alg_AlgoType alg) (the (alg_Source alg)) ''algorithm'' (os s) of
        (Inl _, t) \<Rightarrow> (Inl (PlainError ''failed to download and decrypt algorithm''), s\<lparr>os := t\<rparr>)
      | (Inr res, t) \<Rightarrow>
          (Inr (res_Data res), s\<lparr>os := t, svc := (svc s)\<lparr>algoRequirements := res_Requirements res\<rparr>\<rparr>))"

definition Algo_locked :: "agent_env \<Rightarrow> call_ctx \<Rightarrow> Algorithm \<Rightarrow> agent_sys \<Rightarrow> agent_error option \<times> agent_sys" where
  "Algo_locked env ctx algo s =
     (if algoReceived (svc s) then (Some ErrAllManifestItemsReceived, s)
      else case algorithm_data env algo s of
        (Inl e, s) \<Rightarrow> (Some e, s)
      | (Inr algoData, s) \<Rightarrow>
          if Sum256 env algoData \<noteq> alg_Hash (cmp_Algorithm (computation (svc s))) then (Some ErrHashMismatch, s)
          else case Getwd (osenv_of env) of
            Inl e \<Rightarrow> (Some (Errorf ''error getting current directory'' e), s)
          | Inr currentDir \<Rightarrow>
              (case save_algorithm (osenv_of env) (Join [currentDir, ''algo'']) algoData (os s) of
                 (Some e, t) \<Rightarrow> (Some e, s\<lparr>os := t\<rparr>)
               | (None, t) \<Rightarrow>
                   (let typ = AlgorithmTypeFromContext ctx;
                        s = s\<lparr>svc := (svc s)\<lparr>algoType := (if typ = [] then AlgoTypeBin else typ),
                                 algoArgs := AlgorithmArgsFromContext ctx,
                                 algoRequirements := alg_Requirements algo, algoReceived := True\<rparr>\<rparr> in
                    case Mkdir (osenv_of env) DatasetsDir t of
                      (Some e, t) \<Rightarrow> (Some (Errorf ''error creating datasets directory'' e), s\<lparr>os := t\<rparr>)
                    | (None, t) \<Rightarrow> (None, send_event AlgorithmReceived (s\<lparr>os := t\<rparr>)))))"

definition Algo :: "agent_env \<Rightarrow> call_ctx \<Rightarrow> Algorithm \<Rightarrow> agent_sys \<Rightarrow> agent_error option \<times> agent_sys" where
  "Algo env ctx algo s =
     (if GetState (sm (svc s)) \<noteq> ReceivingAlgorithm then (Some ErrStateNotReady, s) else Algo_locked env ctx algo s)"

text \<open>The data of the first remote dataset, or the upload, with the file name that goes with it.\<close>

definition dataset_data :: "agent_env \<Rightarrow> Dataset \<Rightarrow> agent_sys \<Rightarrow> (agent_error + bytes \<times> string) \<times> os_state" where
  "dataset_data env dataset s =
     (let c = computation (svc s) in
      case first_index (remote_dataset c) (cmp_Datasets c) of
        None \<Rightarrow> (Inr (ds_Dataset dataset, ds_Filename dataset), os s)
      | Some i \<Rightarrow>
          (let d = cmp_Datasets c ! i in
           case downloadAndDecryptResource env (alg_AlgoType (cmp_Algorithm c)) (the (ds_Source d)) ''dataset'' (os s) of
             (Inl _, t) \<Rightarrow> (Inl (PlainError ''failed to download and decrypt dataset''), t)
           | (Inr res, t) \<Rightarrow> (Inr (res_Data res, ds_Filename d), t)))"

definition Data_locked :: "agent_env \<Rightarrow> call_ctx \<Rightarrow> Dataset \<Rightarrow> agent_sys \<Rightarrow> agent_error option \<times> agent_sys" where
  "Data_locked env ctx dataset s =
     (if length (cmp_Datasets (computation (svc s))) = 0 then (Some ErrAllManifestItemsReceived, s)
      else case dataset_data env dataset s of
        (Inl e, t) \<Rightarrow> (Some e, s\<lparr>os := t\<rparr>)
      | (Inr (datasetData, datasetFilename), t) \<Rightarrow>
          (let s = s\<lparr>os := t\<rparr>; ds = cmp_Datasets (computation (svc s)); hash = Sum256 env datasetData in
           case first_index (\<lambda>d. hash = ds_Hash d) ds of
             None \<Rightarrow> (Some ErrUndeclaredDataset, s)
           | Some i \<Rightarrow>
               if ds_Filename (ds ! i) \<noteq> [] \<and> ds_Filename (ds ! i) \<noteq> datasetFilename then (Some ErrFileNameMismatch, s)
               else case save_dataset env ''error decompressing dataset'' ''error closing file''
                   (DecompressFromContext ctx) datasetFilename datasetData (os s) of
                 (Some e, t) \<Rightarrow> (Some e, s\<lparr>os := t\<rparr>)
               | (None, t) \<Rightarrow>
                   (let s = take_dataset i datasetData (s\<lparr>os := t\<rparr>) in
                    (None, if length (cmp_Datasets (computation (svc s))) = 0 then send_event DataReceived s else s))))"

definition Data :: "agent_env \<Rightarrow> call_ctx \<Rightarrow> Dataset \<Rightarrow> agent_sys \<Rightarrow> agent_error option \<times> agent_sys" where
  "Data env ctx dataset s =
     (if GetState (sm (svc s)) \<noteq> ReceivingData then (Some ErrStateNotReady, s) else Data_locked env ctx dataset s)"

text \<open>The state is read once, before the mutex; the results and the recorded run error are returned together.\<close>

definition Result :: "call_ctx \<Rightarrow> agent_sys \<Rightarrow> (bytes \<times> agent_error option) \<times> agent_sys" where
  "Result ctx s =
     (let st = GetState (sm (svc s)) in
      if st \<noteq> ConsumingResults \<and> st \<noteq> Complete \<and> st \<noteq> Failed then (([], Some ErrResultsNotReady), s)
      else case IndexFromContext ctx of
        None \<Rightarrow> (([], Some ErrUndeclaredConsumer), s)
      | Some index \<Rightarrow>
          if index < 0 \<or> int (length (ResultConsumers (computation (svc s)))) \<le> index
          then (([], Some ErrUndeclaredConsumer), s)
          else
            ((result (svc s), runError (svc s)),
             if \<not> resultsConsumed (svc s) \<and> st = ConsumingResults
             then send_event ResultsConsumed (s\<lparr>svc := (svc s)\<lparr>resultsConsumed := True\<rparr>\<rparr>) else s))"

definition Attestation :: "agent_env \<Rightarrow> bytes \<Rightarrow> bytes \<Rightarrow> nat \<Rightarrow> agent_error + bytes" where
  "Attestation env reportData nonce attType =
     (case GetAttestation env reportData nonce attType of Inl e \<Rightarrow> Inl (ErrAttestationFailed e) | Inr q \<Rightarrow> Inr q)"

definition AzureAttestationToken :: "agent_env \<Rightarrow> bytes \<Rightarrow> agent_error + bytes" where
  "AzureAttestationToken env nonce = (case GetAzureToken env nonce of Inl e \<Rightarrow> Inl (PlainError e) | Inr t \<Rightarrow> Inr t)"

definition IMAMeasurements :: "agent_env \<Rightarrow> os_state \<Rightarrow> agent_error + bytes \<times> bytes" where
  "IMAMeasurements env t =
     (case ReadFile (osenv_of env) ''/sys/kernel/security/integrity/ima/ascii_runtime_measurements'' t of
        Inl e \<Rightarrow> Inl (Errorf ''error reading Linux IMA measurements file'' e)
      | Inr d \<Rightarrow>
          (case GetPCRSHA1Value env 10 of
             Inl e \<Rightarrow> Inl (Errorf ''error reading TPM PCR #10'' e)
           | Inr pcr10 \<Rightarrow> Inr (d, pcr10)))"


section \<open>Stopping\<close>

text \<open>
  Cancelling the context ends a loop that is waiting; an event it has already taken it still handles. The
  pending actions are not cancelled.
\<close>

definition cancel_loop :: "agent_sys \<Rightarrow> agent_sys" where
  "cancel_loop s =
     s\<lparr>evloop := Returned, stale := (case evloop s of Handling ev \<Rightarrow> ev # stale s | _ \<Rightarrow> stale s)\<rparr>"

definition StopComputation :: "agent_env \<Rightarrow> agent_sys \<Rightarrow> agent_error option \<times> agent_sys" where
  "StopComputation env s0 =
     (let s = cancel_loop (s0\<lparr>published := published s0 @ [(cmp_ID (computation (svc s0)), ''Stopped'', ''Stopped'')]\<rparr>) in
      case RemoveAll (osenv_of env) DatasetsDir (os s) of
        (Some e, t) \<Rightarrow> (Some (Errorf ''error removing datasets directory'' e), s\<lparr>os := t\<rparr>)
      | (None, t) \<Rightarrow>
          (case RemoveAll (osenv_of env) ResultsDir t of
             (Some e, t) \<Rightarrow> (Some (Errorf ''error removing results directory'' e), s\<lparr>os := t\<rparr>)
           | (None, t) \<Rightarrow>
               (let t = snd (Remove (osenv_of env) ''algo'' t); m = Reset Idle (sm (svc s)) in
                (None, send_event Start
                   (s\<lparr>os := t, evloop := Waiting (channels m),
                      svc := \<lparr>computation = empty_Computation, algoType = [], algoArgs = [], algoRequirements = [],
                              algoReceived = False, result = [], sm = m, runError = None, resultsConsumed = False\<rparr>,
                      manifest := empty_Computation, received := []\<rparr>)))))"


section \<open>Steps\<close>

text \<open>
  The loop handles the event it has taken: the transition is stored and its action started, or the loop returns.
\<close>

definition handle_event :: "AgentEvent option \<Rightarrow> agent_sys \<Rightarrow> agent_sys option" where
  "handle_event ev s =
     (case handleEvent ev (sm (svc s)) of
        None \<Rightarrow> None
      | Some (m, acts) \<Rightarrow> Some (s\<lparr>svc := (svc s)\<lparr>sm := m\<rparr>, pending := pending s @ acts\<rparr>))"

text \<open>
  One step of the agent while a computation lasts. \<open>ok\<close> is what is known of the environments.
\<close>

inductive agent_step :: "(agent_env \<Rightarrow> bool) \<Rightarrow> agent_sys \<Rightarrow> agent_sys \<Rightarrow> bool" for ok where
  top: "evloop s = AtTop \<Longrightarrow> agent_step ok s (s\<lparr>evloop := Waiting (channels (sm (svc s)))\<rparr>)"
| handle: "evloop s = Handling ev \<Longrightarrow> handle_event ev s = Some s' \<Longrightarrow> agent_step ok s (s'\<lparr>evloop := AtTop\<rparr>)"
| invalid: "evloop s = Handling ev \<Longrightarrow> handle_event ev s = None \<Longrightarrow> agent_step ok s (s\<lparr>evloop := Returned\<rparr>)"
| action: "pending s = ps @ (a, st) # qs \<Longrightarrow> \<forall>i. ok (envs i) \<Longrightarrow>
     agent_step ok s (run_action envs a st (s\<lparr>pending := ps @ qs\<rparr>))"
| init: "agent_step ok s (snd (InitComputation cmp s))"
| algo: "ok env \<Longrightarrow> agent_step ok s (snd (Algo env ctx a s))"
| data: "ok env \<Longrightarrow> agent_step ok s (snd (Data env ctx d s))"
| result: "agent_step ok s (snd (Result ctx s))"

inductive agent_run :: "(agent_env \<Rightarrow> bool) \<Rightarrow> agent_sys \<Rightarrow> agent_sys \<Rightarrow> bool" for ok where
  start: "agent_run ok s s"
| step: "agent_run ok s t \<Longrightarrow> agent_step ok t u \<Longrightarrow> agent_run ok s u"

inductive_cases agent_stepE: "agent_step ok s t"

end
