(* ===== verification/Agent_Invariants.thy ===== *)
theory Agent_Invariants
  imports Agent_Service "HOL-Library.Multiset"
begin

text \<open>
  What holds of the agent of \<open>Agent_Service\<close> while a computation lasts.

  The order of the states, the datasets still expected and the algorithm file are each an invariant with
  one preservation lemma per kind of update; the steps of the agent are compositions of those updates. The results: a run
  starts only when everything the manifest declares has arrived, the runner gets the algorithm
  whose hash the manifest declares, and dataset files stay inside the dataset directory. Stopping a
  computation while its run is still pending is shown to end the event loop.
\<close>

section \<open>Dataset paths\<close>

lemma Base_no_sep: "name \<noteq> [] \<Longrightarrow> \<not> IsAbs name \<Longrightarrow> name = Base name \<Longrightarrow> sep \<notin> set name"
proof -
  assume a: "name \<noteq> []" "\<not> IsAbs name" "name = Base name"
  show ?thesis
  proof (cases "filter (\<lambda>x. x \<noteq> []) (split_path name)")
    case Nil
    then have "name = ''/''" using a by (simp add: Base_def)
    then show ?thesis using a(2) by (simp add: IsAbs_def)
  next
    case (Cons x xs)
    then have "name = last (x # xs)" using a by (simp add: Base_def)
    then have "name \<in> set (filter (\<lambda>x. x \<noteq> []) (split_path name))" unfolding Cons using last_in_set by blast
    then have "name \<in> set (split_path name)" by simp
    then show ?thesis by (rule split_path_no_sep)
  qed
qed

lemma strip_common_snoc: "strip_common (xs @ [x]) xs = ([x], [])"
  by (induction xs) auto

lemma Rel_parent:
  assumes "plain_elems (xs @ [x])"
  shows "Rel (rooted_path (xs @ [x])) (Join [rooted_path (xs @ [x]), ''..'']) = Inr ''..''"
proof -
  have "path_elems (rooted_path (xs @ [x]) @ sep # ''..'') = xs"
    using assms path_elems_join [OF assms, of "''..''"] by (simp add: split_path_id plain_elem_def)
  then have "Join [rooted_path (xs @ [x]), ''..''] = rooted_path xs"
    by (simp add: Join_def Clean_def) (simp add: rooted_path_def)
  then show ?thesis using assms by (simp add: Rel_def strip_common_snoc rooted_path_inj) (simp add: plain_elem_def)
qed

lemma plain_name_facts:
  assumes "plain_elem name"
  shows "Clean name = name" "Base name = name" "\<not> IsAbs name" "name \<noteq> ''.''" "name \<noteq> ''..''" "name \<noteq> []"
    "\<not> prefix ''../'' name"
proof -
  have p: "plain_elems [name]" using assms by simp
  show "Clean name = name" using Clean_plain [OF p] by simp
  show "\<not> prefix ''../'' name" using plain_join_no_climb [OF p] by simp
  show "\<not> IsAbs name" using join_path_plain_not_abs [OF p] by simp
  have "split_path name = [name]" using assms by (simp add: plain_elem_def split_path_id)
  then show "Base name = name" using assms by (simp add: Base_def plain_elem_def)
qed (use assms in \<open>auto simp: plain_elem_def\<close>)

lemma datasetFilePath_Inr:
  assumes "cwd env = rooted_path W" "plain_elems W" "fault env OpGetwd = None"
  shows "datasetFilePath env filename = Inr p \<longleftrightarrow>
    plain_elem (TrimSpace filename) \<and> p = rooted_path (W @ [''datasets'', TrimSpace filename])"
proof -
  let ?n = "TrimSpace filename" and ?root = "rooted_path (W @ [''datasets''])"
  have d: "plain_elem ''datasets''" by code_simp
  have ws: "plain_elems (W @ [''datasets''])" using assms(2) d by simp
  have root: "Abs_path env ''datasets'' = Inr ?root"
    using assms Join_plain [OF assms(2) d] by (simp add: Abs_path_def Getwd_def IsAbs_def)
  show ?thesis
  proof
    assume a: "datasetFilePath env filename = Inr p"
    then have g: "?n \<noteq> []" "Clean ?n = ?n" "?n \<noteq> ''.''" "\<not> IsAbs ?n" "?n = Base ?n"
      by (auto simp: datasetFilePath_def Let_def split: if_splits)
    have "?n \<noteq> ''..''"
      using a Rel_parent [OF ws] root by (auto simp: datasetFilePath_def Let_def split: if_splits)
    then have pl: "plain_elem ?n" using g Base_no_sep [OF g(1,4,5)] by (simp add: plain_elem_def)
    then have "p = rooted_path ((W @ [''datasets'']) @ [?n])"
      using a root Join_plain [OF ws pl] by (auto simp: datasetFilePath_def Let_def split: if_splits sum.splits)
    then show "plain_elem ?n \<and> p = rooted_path (W @ [''datasets'', ?n])" using pl by simp
  next
    assume a: "plain_elem ?n \<and> p = rooted_path (W @ [''datasets'', ?n])"
    then have pl: "plain_elems [?n]" by simp
    have "Rel ?root (rooted_path ((W @ [''datasets'']) @ [?n])) = Inr ?n"
      using Rel_rooted [OF ws pl] by simp
    then show "datasetFilePath env filename = Inr p"
      using a root Join_plain [OF ws, of ?n] plain_name_facts [of ?n] by (simp add: datasetFilePath_def Let_def)
  qed
qed

text \<open>
  C21: a dataset file name is accepted exactly when, trimmed, it is a single path element other than \<open>.\<close> and \<open>..\<close>; the
  file then lies directly in the dataset directory of the working directory.
\<close>

theorem datasetFilePath_iff:
  assumes "cwd env = rooted_path W" "plain_elems W" "fault env OpGetwd = None"
  shows "datasetFilePath env filename = Inr p \<longleftrightarrow>
    plain_elem (TrimSpace filename) \<and> p = rooted_path (W @ [''datasets'', TrimSpace filename])"
  by (rule datasetFilePath_Inr [OF assms])

theorem datasetFilePath_iff_witness:
  "datasetFilePath \<lparr>cwd = ''/w'', fault = (\<lambda>c. None), short_write = (\<lambda>p. 0)\<rparr> '' d.csv '' = Inr ''/w/datasets/d.csv''"
proof -
  let ?env = "\<lparr>cwd = ''/w'', fault = (\<lambda>c. None), short_write = (\<lambda>p. 0)\<rparr>"
  have "cwd ?env = rooted_path [''w'']" "fault ?env OpGetwd = None" by (simp_all add: rooted_path_def)
  moreover have "plain_elems [''w'']" "plain_elem (TrimSpace '' d.csv '')"
    "''/w/datasets/d.csv'' = rooted_path ([''w''] @ [''datasets'', TrimSpace '' d.csv ''])" by code_simp+
  ultimately show ?thesis using datasetFilePath_iff [of ?env "[''w'']"] by metis
qed


section \<open>The order of the states\<close>

fun rank :: "AgentState \<Rightarrow> nat" where
  "rank Idle = 0"
| "rank ReceivingManifest = 1"
| "rank ReceivingAlgorithm = 2"
| "rank ReceivingData = 3"
| "rank Running = 4"
| "rank ConsumingResults = 5"
| "rank Complete = 6"
| "rank Failed = 7"

text \<open>The table of the agent: fixed but for the two entries a manifest adds.\<close>

fun agent_table :: "AgentState option \<Rightarrow> AgentState option \<Rightarrow> AgentState \<Rightarrow> AgentEvent \<Rightarrow> AgentState option" where
  "agent_table x y Idle Start = Some ReceivingManifest"
| "agent_table x y ReceivingManifest ManifestReceived = Some ReceivingAlgorithm"
| "agent_table x y ReceivingAlgorithm RunFailed = Some Failed"
| "agent_table x y ReceivingAlgorithm AlgorithmReceived = x"
| "agent_table x y ReceivingData RunFailed = Some Failed"
| "agent_table x y ReceivingData DataReceived = y"
| "agent_table x y Running RunComplete = Some ConsumingResults"
| "agent_table x y Running RunFailed = Some Failed"
| "agent_table x y ConsumingResults ResultsConsumed = Some Complete"
| "agent_table x y _ _ = None"

definition table_ok :: "(AgentState \<Rightarrow> AgentEvent \<Rightarrow> AgentState option) \<Rightarrow> bool" where
  "table_ok t = (\<exists>x y. t = agent_table x y \<and> x \<in> {None, Some ReceivingData, Some Running} \<and> y \<in> {None, Some Running})"

fun_cases agent_table_SomeE: "agent_table x y s e = Some n"

lemma table_edges:
  assumes "table_ok t" and "t s e = Some n"
  shows "s = Idle \<and> e = Start \<and> n = ReceivingManifest
    \<or> s = ReceivingManifest \<and> e = ManifestReceived \<and> n = ReceivingAlgorithm
    \<or> s = ReceivingAlgorithm \<and> e = AlgorithmReceived \<and> (n = ReceivingData \<or> n = Running)
    \<or> s = ReceivingData \<and> e = DataReceived \<and> n = Running
    \<or> s = Running \<and> e = RunComplete \<and> n = ConsumingResults
    \<or> s = ConsumingResults \<and> e = ResultsConsumed \<and> n = Complete
    \<or> s \<in> {ReceivingAlgorithm, ReceivingData, Running} \<and> e = RunFailed \<and> n = Failed"
proof -
  obtain x y where t: "agent_table x y s e = Some n" "x = None \<or> x = Some ReceivingData \<or> x = Some Running"
      "y = None \<or> y = Some Running" using assms by (auto simp: table_ok_def)
  show ?thesis using t by (cases s; cases e) auto
qed

lemma table_increases: "table_ok t \<Longrightarrow> t s e = Some n \<Longrightarrow> rank s < rank n"
  by (drule (1) table_edges) auto

text \<open>The states from the algorithm on, and no way back from them: an interface of the table to its clients.\<close>

interpretation past_manifest:
  closed_states "agent_table (if direct then Some Running else Some ReceivingData) (Some Running)" "\<lambda>s. 1 < rank s"
  for direct :: bool
  by unfold_locales (auto elim: agent_table_SomeE split: if_splits)

lemma transitions_AddTransition:
  "transitions (AddTransition t m) = (\<lambda>s e. if s = tr_From t \<and> e = tr_Event t then Some (tr_To t) else transitions m s e)"
  by (auto simp: AddTransition_def fun_eq_iff)

lemma new_machine_table: "transitions new_machine = agent_table None None"
proof (intro ext)
  fix st e show "transitions new_machine st e = agent_table None None st e"
    by (cases st; cases e) (simp_all add: new_machine_def SetAction_def add_transitions_def base_transitions_def
        transitions_AddTransition NewStateMachine_def)
qed

lemma manifest_table:
  assumes "table_ok (transitions m)"
  shows "table_ok (transitions (add_transitions (manifest_transitions cmp) m))"
    and "transitions (add_transitions (manifest_transitions cmp) m) ReceivingAlgorithm AlgorithmReceived
      = Some (if cmp_Datasets cmp = [] then Running else ReceivingData)"
proof -
  obtain x y where t: "transitions m = agent_table x y" "x \<in> {None, Some ReceivingData, Some Running}" "y \<in> {None, Some Running}"
    using assms by (auto simp: table_ok_def)
  have "transitions (add_transitions (manifest_transitions cmp) m) =
      (if cmp_Datasets cmp = [] then agent_table (Some Running) y else agent_table (Some ReceivingData) (Some Running))"
  proof (intro ext)
    fix st e
    show "transitions (add_transitions (manifest_transitions cmp) m) st e =
        (if cmp_Datasets cmp = [] then agent_table (Some Running) y else agent_table (Some ReceivingData) (Some Running)) st e"
      by (cases st; cases e) (simp_all add: add_transitions_def manifest_transitions_def transitions_AddTransition t(1))
  qed
  then show "table_ok (transitions (add_transitions (manifest_transitions cmp) m))"
    and "transitions (add_transitions (manifest_transitions cmp) m) ReceivingAlgorithm AlgorithmReceived
      = Some (if cmp_Datasets cmp = [] then Running else ReceivingData)"
    using t(3) by (auto simp: table_ok_def)
qed

lemma add_transitions_rest [simp]:
  "currentState (add_transitions ts m) = currentState m" "actions (add_transitions ts m) = actions m"
  "channels (add_transitions ts m) = channels m"
  by (induction ts arbitrary: m) (auto simp: add_transitions_def AddTransition_def)


section \<open>Control: states, pending actions and events in flight\<close>

abbreviation agent_state :: "agent_sys \<Rightarrow> AgentState" where
  "agent_state s \<equiv> currentState (sm (svc s))"

abbreviation datasets_left :: "agent_sys \<Rightarrow> Dataset list" where
  "datasets_left s \<equiv> cmp_Datasets (computation (svc s))"

abbreviation in_flight :: "agent_sys \<Rightarrow> AgentEvent \<Rightarrow> bool" where
  "in_flight s e \<equiv> evloop s = Handling (Some e)"

definition machine_inv :: "agent_sys \<Rightarrow> bool" where
  "machine_inv s = (table_ok (transitions (sm (svc s))) \<and> actions (sm (svc s)) = actions new_machine
     \<and> (\<forall>(a, n) \<in> set (pending s). actions new_machine n = Some a \<and> rank n \<le> rank (agent_state s)))"

definition progress_inv :: "agent_sys \<Rightarrow> bool" where
  "progress_inv s =
     ((rank (agent_state s) \<le> 2 \<longrightarrow> (\<forall>n. transitions (sm (svc s)) ReceivingAlgorithm AlgorithmReceived = Some n \<longrightarrow>
         n = (if datasets_left s = [] then Running else ReceivingData)))
      \<and> (in_flight s AlgorithmReceived \<longrightarrow> algoReceived (svc s) \<and> 2 \<le> rank (agent_state s))
      \<and> (in_flight s DataReceived \<longrightarrow> datasets_left s = [] \<and> 3 \<le> rank (agent_state s))
      \<and> (rank (agent_state s) \<le> 1 \<longrightarrow> \<not> algoReceived (svc s))
      \<and> (3 \<le> rank (agent_state s) \<and> agent_state s \<noteq> Failed \<longrightarrow> algoReceived (svc s))
      \<and> (4 \<le> rank (agent_state s) \<and> agent_state s \<noteq> Failed \<longrightarrow> datasets_left s = []))"

definition control_inv :: "agent_sys \<Rightarrow> bool" where
  "control_inv s = (machine_inv s \<and> progress_inv s)"

lemmas control_defs = control_inv_def machine_inv_def progress_inv_def

lemma pending_rank:
  assumes "control_inv s" and "(a, n) \<in> set (pending s)"
  shows "actions new_machine n = Some a" "rank n \<le> rank (agent_state s)"
  using assms by (auto simp: control_defs)

lemma action_states:
  "actions new_machine n = Some DownloadAlgorithm \<longleftrightarrow> n = ReceivingAlgorithm"
  "actions new_machine n = Some DownloadDatasets \<longleftrightarrow> n = ReceivingData"
  "actions new_machine n = Some RunComputation \<longleftrightarrow> n = Running"
  by (auto simp: new_machine_def SetAction_def add_transitions_def base_transitions_def AddTransition_def
      NewStateMachine_def)

subsection \<open>Updates\<close>

lemma send_event_simps [simp]:
  "svc (send_event e s) = svc s" "os (send_event e s) = os s" "pending (send_event e s) = pending s"
  "runs (send_event e s) = runs s" "manifest (send_event e s) = manifest s" "received (send_event e s) = received s"
  by (simp_all add: send_event_def)

lemma publishEvent_simps [simp]:
  "svc (publishEvent p st s) = svc s" "os (publishEvent p st s) = os s" "pending (publishEvent p st s) = pending s"
  "runs (publishEvent p st s) = runs s" "manifest (publishEvent p st s) = manifest s"
  "received (publishEvent p st s) = received s" "evloop (publishEvent p st s) = evloop s"
  by (simp_all add: publishEvent_def)

lemma in_flight_send: "in_flight (send_event e s) f \<Longrightarrow> in_flight s f \<or> f = e"
  by (auto simp: send_event_def SendEvent_def split: if_splits)

lemma control_send:
  assumes "control_inv s"
    and "e = AlgorithmReceived \<Longrightarrow> algoReceived (svc s) \<and> 2 \<le> rank (agent_state s)"
    and "e = DataReceived \<Longrightarrow> datasets_left s = [] \<and> 3 \<le> rank (agent_state s)"
  shows "control_inv (send_event e s)"
proof -
  have f: "\<And>f. in_flight (send_event e s) f \<Longrightarrow> in_flight s f \<or> f = e" by (rule in_flight_send)
  show ?thesis using assms f unfolding control_defs send_event_simps by blast
qed

text \<open>Two states that agree on what the invariant reads.\<close>

lemma control_cong:
  assumes "control_inv s" and "sm (svc t) = sm (svc s)" "pending t = pending s" "datasets_left t = datasets_left s"
    "algoReceived (svc t) = algoReceived (svc s)" "evloop t = evloop s"
  shows "control_inv t"
  using assms unfolding control_defs by simp

lemma control_received:
  assumes "control_inv s" and "2 \<le> rank (agent_state s)" and "sm (svc t) = sm (svc s)" "pending t = pending s"
    "datasets_left t = datasets_left s" "algoReceived (svc t)" "evloop t = evloop s"
  shows "control_inv t"
  using assms unfolding control_defs by simp

lemma control_pending:
  assumes "control_inv s" and "set ps \<subseteq> set (pending s)"
  shows "control_inv (s\<lparr>pending := ps\<rparr>)"
  using assms unfolding control_defs by auto

lemma control_take:
  assumes "control_inv s" and "3 \<le> rank (agent_state s)" and "i < length (datasets_left s)"
  shows "control_inv (take_dataset i b s)"
proof -
  have "datasets_left s \<noteq> []" using assms(3) by auto
  then show ?thesis using assms(1,2) unfolding control_defs take_dataset_def Let_def by auto
qed

lemma fail_run_control: "control_inv s \<Longrightarrow> control_inv (fail_run e s)"
  unfolding fail_run_def by (intro control_send) (auto intro: control_cong)


section \<open>Datasets: what has arrived and what is left\<close>

definition dataset_inv :: "(bytes \<Rightarrow> bytes) \<Rightarrow> agent_sys \<Rightarrow> bool" where
  "dataset_inv H s =
     (mset (map H (received s)) + mset (map ds_Hash (datasets_left s)) = mset (map ds_Hash (cmp_Datasets (manifest s)))
      \<and> cmp_Algorithm (computation (svc s)) = cmp_Algorithm (manifest s)
      \<and> cmp_KBS (computation (svc s)) = cmp_KBS (manifest s))"

lemma dataset_cong:
  assumes "dataset_inv H s" and "computation (svc t) = computation (svc s)" "received t = received s" "manifest t = manifest s"
  shows "dataset_inv H t"
  using assms by (simp add: dataset_inv_def)

lemma mset_delete_at: "i < length xs \<Longrightarrow> add_mset (f (xs ! i)) (mset (map f (delete_at i xs))) = mset (map f xs)"
proof -
  assume "i < length xs"
  then have "map f xs = map f (take i xs @ xs ! i # drop (Suc i) xs)" by (simp add: id_take_nth_drop [symmetric])
  then show ?thesis by (simp add: delete_at_def)
qed

lemma dataset_take:
  assumes "dataset_inv H s" and "i < length (datasets_left s)" and "H b = ds_Hash (datasets_left s ! i)"
  shows "dataset_inv H (take_dataset i b s)"
proof -
  let ?left = "mset (map ds_Hash (delete_at i (datasets_left s)))"
  have "mset (map H (received s @ [b])) + ?left = mset (map H (received s)) + add_mset (H b) ?left" by simp
  also have "\<dots> = mset (map H (received s)) + mset (map ds_Hash (datasets_left s))"
    unfolding assms(3) mset_delete_at [OF assms(2)] ..
  finally show ?thesis using assms(1) by (simp add: dataset_inv_def take_dataset_def Let_def del: mset_map map_append)
qed

lemma remote_manifest: "dataset_inv H s \<Longrightarrow> remote_algorithm (computation (svc s)) = remote_algorithm (manifest s)"
  by (simp add: dataset_inv_def remote_algorithm_def)

lemma first_index_Some:
  assumes "first_index P xs = Some i"
  shows "i < length xs \<and> P (xs ! i) \<and> (\<forall>j < i. \<not> P (xs ! j))"
proof -
  obtain js where f: "filter (\<lambda>i. P (xs ! i)) [0..<length xs] = i # js"
    using assms by (auto simp: first_index_def split: list.splits)
  then have "i \<in> set (filter (\<lambda>i. P (xs ! i)) [0..<length xs])" by simp
  moreover have "\<not> P (xs ! j)" if "j < i" for j
  proof
    assume "P (xs ! j)"
    moreover have "i < length xs" using \<open>i \<in> set (filter _ _)\<close> by simp
    ultimately have "j \<in> set (filter (\<lambda>i. P (xs ! i)) [0..<length xs])" using that by simp
    then have "j \<in> set (i # js)" unfolding f .
    moreover have "sorted (i # js)" unfolding f [symmetric] by (rule sorted_wrt_filter) simp
    ultimately show False using that by auto
  qed
  ultimately show ?thesis by auto
qed


section \<open>The algorithm file\<close>

definition algo_path :: "string list \<Rightarrow> string" where
  "algo_path W = rooted_path (W @ [''algo''])"

definition verified :: "string list \<Rightarrow> (bytes \<Rightarrow> bytes) \<Rightarrow> agent_sys \<Rightarrow> bool" where
  "verified W H s =
     (\<exists>b. Files (os s) (algo_path W) = Some b \<and> H b = alg_Hash (cmp_Algorithm (manifest s)))"

definition runs_pending :: "agent_sys \<Rightarrow> nat" where
  "runs_pending s = length (filter (\<lambda>p. fst p = RunComputation) (pending s))"

text \<open>
  While an uploaded algorithm waits for its run, the file holds data with the declared hash. The file is removed when the
  one run is over.
\<close>

definition algo_inv :: "string list \<Rightarrow> (bytes \<Rightarrow> bytes) \<Rightarrow> agent_sys \<Rightarrow> bool" where
  "algo_inv W H s =
     (length (runs s) + runs_pending s \<le> 1 \<and> (runs s \<noteq> [] \<longrightarrow> 4 \<le> rank (agent_state s))
      \<and> (\<not> remote_algorithm (manifest s) \<longrightarrow>
           (algoReceived (svc s) \<and> agent_state s \<in> {ReceivingAlgorithm, ReceivingData} \<or> 0 < runs_pending s \<longrightarrow> verified W H s)
           \<and> (\<forall>r \<in> set (runs s). H (run_Algorithm r) = alg_Hash (cmp_Algorithm (manifest s)))))"

lemma no_run_before_Running:
  assumes "control_inv s" and "rank (agent_state s) < 4"
  shows "runs_pending s = 0"
proof -
  have "(RunComputation, n) \<notin> set (pending s)" for n
  proof
    assume a: "(RunComputation, n) \<in> set (pending s)"
    have "n = Running" using pending_rank(1) [OF assms(1) a] by (simp only: action_states(3))
    then show False using pending_rank(2) [OF assms(1) a] assms(2) by simp
  qed
  then show ?thesis by (auto simp: runs_pending_def filter_empty_conv)
qed

lemma algo_cong:
  assumes "algo_inv W H s" and "pending t = pending s" "runs t = runs s" "manifest t = manifest s"
    "agent_state t = agent_state s" "algoReceived (svc t) = algoReceived (svc s)"
    "Files (os t) (algo_path W) = Files (os s) (algo_path W)"
  shows "algo_inv W H t"
  using assms by (simp add: algo_inv_def runs_pending_def verified_def)

lemma algo_remote:
  assumes "algo_inv W H s" and "remote_algorithm (manifest s)" and "pending t = pending s" "runs t = runs s"
    "manifest t = manifest s" "agent_state t = agent_state s"
  shows "algo_inv W H t"
  using assms by (simp add: algo_inv_def runs_pending_def)

text \<open>
  The environments of a computation: one working directory, one hash function, and OCI tools that leave the
  algorithm file alone.
\<close>

definition behaved :: "string list \<Rightarrow> (bytes \<Rightarrow> bytes) \<Rightarrow> agent_env \<Rightarrow> bool" where
  "behaved W H env =
     (cwd env = rooted_path W \<and> plain_elems W \<and> Sum256 env = H
      \<and> (\<forall>u b k d t. Files (snd (PullAndDecrypt env u b k d t)) (algo_path W) = Files t (algo_path W))
      \<and> (\<forall>d f t. Files (snd (ToDockerArchive env d f t)) (algo_path W) = Files t (algo_path W))
      \<and> (\<forall>d x a t. Files (snd (ExtractAlgorithm env d x a t)) (algo_path W) = Files t (algo_path W))
      \<and> (\<forall>d x t. Files (snd (ExtractDataset env d x t)) (algo_path W) = Files t (algo_path W)))"

lemma tools_frame:
  assumes "behaved W H env"
  shows "PullAndDecrypt env u b k d t = (r1, t') \<Longrightarrow> Files t' (algo_path W) = Files t (algo_path W)"
    and "ToDockerArchive env d f t = (r1, t') \<Longrightarrow> Files t' (algo_path W) = Files t (algo_path W)"
    and "ExtractAlgorithm env d x a t = (r2, t') \<Longrightarrow> Files t' (algo_path W) = Files t (algo_path W)"
    and "ExtractDataset env d x t = (r3, t') \<Longrightarrow> Files t' (algo_path W) = Files t (algo_path W)"
  using assms unfolding behaved_def by (metis snd_conv)+

lemma extract_files_frame:
  assumes "behaved W H env" and "extract_files env a r d x t = (q, t')"
  shows "Files t' (algo_path W) = Files t (algo_path W)"
  using assms(2) unfolding extract_files_def Let_def
  by (auto split: if_splits prod.splits option.splits sum.splits list.splits
      dest: MkdirAll_Files tools_frame [OF assms(1)])

lemma download_frame:
  assumes "behaved W H env" and "downloadAndDecryptResource env a src r t = (q, t')"
  shows "Files t' (algo_path W) = Files t (algo_path W)"
proof -
  show ?thesis using assms(2) unfolding downloadAndDecryptResource_def downloadAndDecryptOCIImage_def Let_def
    by (auto split: if_splits prod.splits option.splits sum.splits
        dest!: tools_frame(1) [OF assms(1)] extract_files_frame [OF assms(1)])
qed

lemma plain_workspace: "plain_elem ''datasets''" "plain_elem ''results''" "plain_elem ''algo''"
  by code_simp+

lemma dataset_path_frame:
  assumes "behaved W H env" and "datasetFilePath (osenv_of env) filename = Inr p"
  shows "resolve (osenv_of env) p \<noteq> algo_path W"
proof -
  have c: "cwd (osenv_of env) = rooted_path W" "plain_elems W" using assms(1) by (auto simp: behaved_def os_env.truncate_def)
  have "fault (osenv_of env) OpGetwd = None"
    using assms(2) by (auto simp: datasetFilePath_def Let_def Abs_path_def Getwd_def IsAbs_def split: if_splits option.splits)
  from datasetFilePath_Inr [OF c this, of filename p] assms(2)
  have "plain_elem (TrimSpace filename)" "p = rooted_path (W @ [''datasets'', TrimSpace filename])" by auto
  then show ?thesis using c(2) plain_workspace by (simp add: algo_path_def rooted_path_inj)
qed

lemma unzip_datasets_frame:
  assumes "behaved W H env" and "UnzipFromMemory (zip_of env) b ''datasets'' t = (r, t')"
  shows "Files t' (algo_path W) = Files t (algo_path W)"
proof (cases "Abs_path (os_of (zip_of env)) ''datasets''")
  case (Inl e)
  then show ?thesis using assms(2) by (simp add: UnzipFromMemory_def)
next
  case (Inr root)
  have c: "cwd (zip_of env) = rooted_path W" "plain_elems W" using assms(1) by (auto simp: behaved_def zip_env.truncate_def)
  then have "root = rooted_path (W @ [''datasets''])"
    using Inr Join_plain [OF c(2) plain_workspace(1)]
    by (auto simp: Abs_path_def Getwd_def IsAbs_def os_env.truncate_def split: option.splits)
  then have "\<not> strictly_below (path_elems root) (algo_path W)"
    using c(2) plain_workspace by (auto simp: strictly_below_def algo_path_def rooted_path_inj)
  then show ?thesis using unzip_below [OF assms(2) Inr c] by blast
qed

lemma save_dataset_frame:
  assumes "behaved W H env" and "save_dataset env u c d f b t = (r, t')"
  shows "Files t' (algo_path W) = Files t (algo_path W)"
proof (cases d)
  case True
  then show ?thesis using assms(2) unzip_datasets_frame [OF assms(1)]
    by (auto simp: save_dataset_def split: prod.splits option.splits zip_error.splits)
next
  case False
  show ?thesis
  proof (cases "datasetFilePath (osenv_of env) f")
    case (Inl e)
    then show ?thesis using assms(2) False by (simp add: save_dataset_def)
  next
    case (Inr p)
    have n: "algo_path W \<noteq> resolve (osenv_of env) p" using dataset_path_frame [OF assms(1) Inr] by simp
    show ?thesis using assms(2) False Inr
      by (auto simp: save_dataset_def Close_def split: prod.splits option.splits
          dest!: Create_frame [OF _ n] Write_frame [OF _ n])
  qed
qed

lemma save_algorithm_ok:
  assumes "behaved W H env" and "Getwd (osenv_of env) = Inr dir"
    and "save_algorithm (osenv_of env) (Join [dir, ''algo'']) b t = (None, t')"
  shows "Files t' (algo_path W) = Some b"
proof -
  have c: "dir = rooted_path W" "plain_elems W"
    using assms(1,2) by (auto simp: behaved_def os_env.truncate_def Getwd_def split: option.splits)
  then have p: "Join [dir, ''algo''] = algo_path W" using Join_plain [OF c(2) plain_workspace(3)] by (simp add: algo_path_def)
  then have r: "resolve (osenv_of env) (Join [dir, ''algo'']) = algo_path W"
    using c(2) plain_workspace(3) by (simp add: algo_path_def)
  obtain t1 where "Create (osenv_of env) (Join [dir, ''algo'']) t = (None, t1)"
      "Write (osenv_of env) (Join [dir, ''algo'']) b t1 = (None, t')"
    using assms(3) by (auto simp: save_algorithm_def Chmod_def Close_def split: prod.splits option.splits)
  from Create_then_Write [OF this] show ?thesis by (simp add: r)
qed


section \<open>Every step keeps the invariants\<close>

definition agent_inv :: "string list \<Rightarrow> (bytes \<Rightarrow> bytes) \<Rightarrow> agent_sys \<Rightarrow> bool" where
  "agent_inv W H s = (control_inv s \<and> dataset_inv H s \<and> algo_inv W H s)"

text \<open>An update of the file system that leaves the algorithm file alone, and of fields the invariants do not read.\<close>

lemma inv_cong:
  assumes "agent_inv W H s" and "sm (svc t) = sm (svc s)" "computation (svc t) = computation (svc s)"
    "algoReceived (svc t) = algoReceived (svc s)" "pending t = pending s" "evloop t = evloop s" "runs t = runs s"
    "manifest t = manifest s" "received t = received s"
    "Files (os t) (algo_path W) = Files (os s) (algo_path W)"
  shows "agent_inv W H t"
proof -
  have "control_inv t" by (rule control_cong [of s]) (use assms in \<open>simp_all add: agent_inv_def\<close>)
  moreover have "dataset_inv H t" by (rule dataset_cong [of H s]) (use assms in \<open>simp_all add: agent_inv_def\<close>)
  moreover have "algo_inv W H t" by (rule algo_cong [of W H s]) (use assms in \<open>simp_all add: agent_inv_def\<close>)
  ultimately show ?thesis by (simp add: agent_inv_def)
qed

lemma inv_send:
  assumes "agent_inv W H s"
    and "e = AlgorithmReceived \<Longrightarrow> algoReceived (svc s) \<and> 2 \<le> rank (agent_state s)"
    and "e = DataReceived \<Longrightarrow> datasets_left s = [] \<and> 3 \<le> rank (agent_state s)"
  shows "agent_inv W H (send_event e s)"
proof -
  have "control_inv (send_event e s)" using assms control_send unfolding agent_inv_def by blast
  moreover have "dataset_inv H (send_event e s)" using assms(1) by (simp add: agent_inv_def dataset_inv_def)
  moreover have "algo_inv W H (send_event e s)"
    using assms(1) by (simp add: agent_inv_def algo_inv_def runs_pending_def verified_def)
  ultimately show ?thesis by (simp add: agent_inv_def)
qed

lemma inv_fail: "agent_inv W H s \<Longrightarrow> agent_inv W H (fail_run e s)"
  unfolding fail_run_def by (intro inv_send) (auto intro: inv_cong)

lemma inv_publish: "agent_inv W H s \<Longrightarrow> agent_inv W H (publishEvent p st s)"
  by (rule inv_cong) simp_all

lemma inv_os: "agent_inv W H s \<Longrightarrow> Files t (algo_path W) = Files (os s) (algo_path W) \<Longrightarrow> agent_inv W H (s\<lparr>os := t\<rparr>)"
  by (rule inv_cong) simp_all

text \<open>With a remote algorithm the file is not covered, so any change of it is allowed.\<close>

lemma inv_remote:
  assumes "agent_inv W H s" and "remote_algorithm (manifest s)" and "2 \<le> rank (agent_state s)"
    and "sm (svc t) = sm (svc s)" "computation (svc t) = computation (svc s)"
    "algoReceived (svc t) = algoReceived (svc s) \<or> algoReceived (svc t)" "pending t = pending s" "evloop t = evloop s"
    "runs t = runs s" "manifest t = manifest s" "received t = received s"
  shows "agent_inv W H t"
proof -
  have "control_inv t"
  proof (cases "algoReceived (svc t)")
    case True
    show ?thesis by (rule control_received [of s]) (use assms True in \<open>simp_all add: agent_inv_def\<close>)
  next
    case False
    show ?thesis by (rule control_cong [of s]) (use assms False in \<open>simp_all add: agent_inv_def\<close>)
  qed
  moreover have "dataset_inv H t" by (rule dataset_cong [of H s]) (use assms in \<open>simp_all add: agent_inv_def\<close>)
  moreover have "algo_inv W H t" by (rule algo_remote [of W H s]) (use assms in \<open>simp_all add: agent_inv_def\<close>)
  ultimately show ?thesis by (simp add: agent_inv_def)
qed

lemma inv_take:
  assumes "agent_inv W H s" and "3 \<le> rank (agent_state s)" and "i < length (datasets_left s)"
    and "H b = ds_Hash (datasets_left s ! i)"
  shows "agent_inv W H (take_dataset i b s)"
proof -
  have "control_inv (take_dataset i b s)" using assms control_take unfolding agent_inv_def by blast
  moreover have "dataset_inv H (take_dataset i b s)" using assms dataset_take unfolding agent_inv_def by blast
  moreover have "algo_inv W H (take_dataset i b s)"
    using assms(1) by (simp add: agent_inv_def algo_inv_def runs_pending_def verified_def take_dataset_def Let_def)
  ultimately show ?thesis by (simp add: agent_inv_def)
qed

lemma inv_pending:
  assumes "agent_inv W H s" and "pending s = ps @ p # qs"
  shows "agent_inv W H (s\<lparr>pending := ps @ qs\<rparr>)"
proof -
  have "control_inv (s\<lparr>pending := ps @ qs\<rparr>)" using assms by (intro control_pending) (auto simp: agent_inv_def)
  moreover have "runs_pending (s\<lparr>pending := ps @ qs\<rparr>) \<le> runs_pending s" using assms(2) by (simp add: runs_pending_def)
  then have "algo_inv W H (s\<lparr>pending := ps @ qs\<rparr>)"
    using assms(1) unfolding agent_inv_def algo_inv_def verified_def by auto
  ultimately show ?thesis using assms by (simp add: agent_inv_def dataset_inv_def)
qed

subsection \<open>Downloading\<close>

lemma install_algorithm_inv:
  assumes "agent_inv W H s" and "remote_algorithm (manifest s)" and "2 \<le> rank (agent_state s)"
  shows "agent_inv W H (install_algorithm env res s)"
proof -
  have keep: "agent_inv W H (s\<lparr>os := t\<rparr>)" "agent_inv W H (s\<lparr>svc := (svc s)\<lparr>algoReceived := True, algoRequirements := q\<rparr>, os := t\<rparr>)"
    "agent_inv W H (s\<lparr>os := t, svc := (svc s)\<lparr>algoReceived := True, algoRequirements := q, algoType := y, algoArgs := a\<rparr>\<rparr>)" for t q y a
    by (rule inv_remote [OF assms]; simp)+
  have sent: "agent_inv W H (send_event AlgorithmReceived
      (s\<lparr>os := t, svc := (svc s)\<lparr>algoReceived := True, algoRequirements := q, algoType := y, algoArgs := a\<rparr>\<rparr>))" for t q y a
    by (rule inv_send [OF keep(3)]) (use assms(3) in simp_all)
  show ?thesis
    unfolding install_algorithm_def Let_def
    by (simp split: sum.split prod.split option.split) (intro conjI impI allI inv_fail keep sent assms(1))
qed

lemma downloadAlgorithm_inv:
  assumes "agent_inv W H s" and "2 \<le> rank (agent_state s)"
  shows "agent_inv W H (downloadAlgorithmIfRemote env st s)"
proof -
  let ?s = "publishEvent (Status_String InProgress) st s"
  have i: "agent_inv W H ?s" by (rule inv_publish [OF assms(1)])
  show ?thesis
  proof (cases "remote_algorithm (computation (svc s))")
    case True
    then have r: "remote_algorithm (manifest s)" using assms(1) remote_manifest by (auto simp: agent_inv_def)
    have "agent_inv W H (?s\<lparr>os := t\<rparr>)" for t by (rule inv_remote [OF i]) (use r assms(2) in simp_all)
    then show ?thesis using True r assms(2)
      by (auto simp: downloadAlgorithmIfRemote_def Let_def split: prod.splits sum.splits
          intro!: inv_fail install_algorithm_inv)
  qed (use i in \<open>simp add: downloadAlgorithmIfRemote_def Let_def\<close>)
qed

lemma fetch_dataset_ok:
  assumes "behaved W H env" and "fetch_dataset env d s = (r, t)"
  shows "Files t (algo_path W) = Files (os s) (algo_path W)" and "r = Inr b \<Longrightarrow> H b = ds_Hash d"
proof -
  have h: "Sum256 env = H" using assms(1) by (simp add: behaved_def)
  show "Files t (algo_path W) = Files (os s) (algo_path W)"
    using assms(2) unfolding fetch_dataset_def
    by (auto split: prod.splits sum.splits if_splits option.splits
        dest!: download_frame [OF assms(1)] save_dataset_frame [OF assms(1)])
  show "r = Inr b \<Longrightarrow> H b = ds_Hash d"
    using assms(2) h unfolding fetch_dataset_def by (auto split: prod.splits sum.splits if_splits option.splits)
qed

lemma take_dataset_simps [simp]:
  "datasets_left (take_dataset i b s) = delete_at i (datasets_left s)"
  "agent_state (take_dataset i b s) = agent_state s"
  by (simp_all add: take_dataset_def Let_def)

lemma download_datasets_inv:
  assumes "\<And>i. behaved W H (envs i)"
  shows "agent_inv W H s \<Longrightarrow> 3 \<le> rank (agent_state s) \<Longrightarrow> n \<le> length (datasets_left s) \<Longrightarrow>
    download_datasets envs n s = (ok, t) \<Longrightarrow> agent_inv W H t \<and> agent_state t = agent_state s"
proof (induction n arbitrary: s)
  case (Suc n)
  let ?d = "datasets_left s ! n"
  show ?case
  proof (cases "remote_dataset (computation (svc s)) ?d")
    case False
    then show ?thesis using Suc by (simp add: Let_def)
  next
    case True
    obtain r u where f: "fetch_dataset (envs n) ?d s = (r, u)" by fastforce
    have i: "agent_inv W H (s\<lparr>os := u\<rparr>)" using inv_os [OF Suc.prems(1)] fetch_dataset_ok(1) [OF assms f] by simp
    show ?thesis
    proof (cases r)
      case (Inl e)
      then show ?thesis using Suc.prems(4) True f inv_fail [OF i, of e]
        by (auto simp: Let_def fail_run_def)
    next
      case (Inr b)
      have "agent_inv W H (take_dataset n b (s\<lparr>os := u\<rparr>))"
        by (rule inv_take [OF i]) (use Suc.prems fetch_dataset_ok(2) [OF assms f Inr] in simp_all)
      then show ?thesis using Suc.IH [of "take_dataset n b (s\<lparr>os := u\<rparr>)"] Suc.prems True f Inr
        by (simp add: Let_def delete_at_def)
    qed
  qed
qed simp

lemma downloadDatasets_inv:
  assumes "\<And>i. behaved W H (envs i)" and "agent_inv W H s" and "3 \<le> rank (agent_state s)"
  shows "agent_inv W H (downloadDatasetsIfRemote envs st s)"
proof -
  let ?s = "publishEvent (Status_String InProgress) st s"
  have i: "agent_inv W H ?s" by (rule inv_publish [OF assms(2)])
  obtain ok t where d: "download_datasets envs (length (datasets_left ?s)) ?s = (ok, t)" by fastforce
  from download_datasets_inv [OF assms(1) i _ _ d] assms(3)
  have "agent_inv W H t" "agent_state t = agent_state s" by auto
  then show ?thesis using i d assms(3)
    by (auto simp: downloadDatasetsIfRemote_def Let_def intro!: inv_send split: bool.splits)
qed

subsection \<open>Running\<close>

text \<open>The action itself is no longer pending when it runs.\<close>

lemma runComputation_inv:
  assumes "behaved W H env" and "agent_inv W H s" and "4 \<le> rank (agent_state s)" and "runs_pending s = 0"
    and "\<not> remote_algorithm (manifest s) \<Longrightarrow> verified W H s" and "runs s = []"
  shows "agent_inv W H (runComputation env st s)"
proof -
  let ?s = "publishEvent (Status_String Starting) st s"
  obtain r t where t: "run_algorithm env st ?s = (r, t)" by fastforce
  have c: "cwd (osenv_of env) = rooted_path W" "plain_elems W" using assms(1) by (auto simp: behaved_def os_env.truncate_def)
  have same: "svc t = svc s" "pending t = pending s" "manifest t = manifest s" "received t = received s" "evloop t = evloop s"
    using t unfolding run_algorithm_def Let_def by (auto split: prod.splits option.splits sum.splits if_splits)
  have path: "resolve (osenv_of env) (Join [case Getwd (osenv_of env) of Inl _ \<Rightarrow> [] | Inr d \<Rightarrow> d, ''algo'']) = algo_path W"
    using c Join_plain [OF c(2) plain_workspace(3)] resolve_plain [OF c(1,2) plain_workspace(3)] plain_workspace(3)
    by (auto simp: Getwd_def algo_path_def Join_def plain_name_facts split: option.splits)
  have "runs t = runs s \<or> (\<exists>r b. runs t = runs s @ [r] \<and> Files (os s) (algo_path W) = Some b \<and> run_Algorithm r = b)"
    using t path unfolding run_algorithm_def Let_def
    by (auto simp: ReadFile_def split: prod.splits option.splits sum.splits if_splits dest!: Mkdir_Files)
  then have one: "length (runs t) \<le> 1" and hashes: "\<not> remote_algorithm (manifest s) \<Longrightarrow>
      \<forall>r \<in> set (runs t). H (run_Algorithm r) = alg_Hash (cmp_Algorithm (manifest s))"
    using assms(2,5,6) by (auto simp: agent_inv_def algo_inv_def verified_def)
  have inv: "agent_inv W H u" if "sm (svc u) = sm (svc s)" "computation (svc u) = computation (svc s)"
      "algoReceived (svc u) = algoReceived (svc s)" "pending u = pending s" "evloop u = evloop s" "manifest u = manifest s"
      "received u = received s" "runs u = runs t" for u
  proof -
    have "control_inv u" by (rule control_cong [of s]) (use assms(2) that in \<open>simp_all add: agent_inv_def\<close>)
    moreover have "dataset_inv H u" by (rule dataset_cong [of H s]) (use assms(2) that in \<open>simp_all add: agent_inv_def\<close>)
    moreover have "algo_inv W H u"
      using assms(3,4) that hashes one by (auto simp: algo_inv_def runs_pending_def)
    ultimately show ?thesis by (simp add: agent_inv_def)
  qed
  show ?thesis unfolding runComputation_def Let_def t
    by (auto split: sum.splits intro!: inv_send inv simp: same)
qed

subsection \<open>Requests\<close>

lemma algorithm_data_inv:
  assumes "behaved W H env" and "agent_inv W H s" and "agent_state s = ReceivingAlgorithm"
    and "algorithm_data env a s = (r, t)"
  shows "agent_inv W H t \<and> agent_state t = ReceivingAlgorithm \<and> algoReceived (svc t) = algoReceived (svc s)
    \<and> manifest t = manifest s"
proof (cases "remote_algorithm (computation (svc s))")
  case True
  then have r: "remote_algorithm (manifest s)" using assms(2) remote_manifest by (auto simp: agent_inv_def)
  obtain u where u: "t = s\<lparr>os := u\<rparr> \<or> (\<exists>q. t = s\<lparr>os := u, svc := (svc s)\<lparr>algoRequirements := q\<rparr>\<rparr>)"
    using assms(4) True by (auto simp: algorithm_data_def Let_def split: prod.splits sum.splits)
  have "agent_inv W H t" by (rule inv_remote [OF assms(2) r]) (use assms(3) u in auto)
  then show ?thesis using u assms(3) by auto
qed (use assms in \<open>auto simp: algorithm_data_def\<close>)

text \<open>An accepted upload either fails with nothing but files changed, or has saved an algorithm with the declared hash.\<close>

lemma Algo_locked_cases:
  assumes "algorithm_data env a s = (r, t)" and "\<not> algoReceived (svc s)"
  obtains (failed) e u where "Algo_locked env ctx a s = (Some e, t\<lparr>os := u\<rparr>)"
    | (saved) b dir u m w where "r = Inr b" "Sum256 env b = alg_Hash (cmp_Algorithm (computation (svc t)))"
        "Getwd (osenv_of env) = Inr dir" "save_algorithm (osenv_of env) (Join [dir, ''algo'']) b (os t) = (None, u)"
        "Mkdir (osenv_of env) ''datasets'' u = (m, w)"
        "snd (Algo_locked env ctx a s) = (let v = t\<lparr>svc := (svc t)\<lparr>
             algoType := (if AlgorithmTypeFromContext ctx = [] then ''bin'' else AlgorithmTypeFromContext ctx),
             algoArgs := AlgorithmArgsFromContext ctx, algoRequirements := alg_Requirements a, algoReceived := True\<rparr>, os := w\<rparr> in
           if m = None then send_event AlgorithmReceived v else v)"
proof (cases r)
  case (Inl e)
  then have "Algo_locked env ctx a s = (Some e, t\<lparr>os := os t\<rparr>)" using assms by (simp add: Algo_locked_def)
  then show ?thesis by (rule failed)
next
  case b: (Inr b)
  show ?thesis
  proof (cases "Sum256 env b = alg_Hash (cmp_Algorithm (computation (svc t)))")
    case False
    then have "Algo_locked env ctx a s = (Some ErrHashMismatch, t\<lparr>os := os t\<rparr>)"
      using assms b by (simp add: Algo_locked_def)
    then show ?thesis by (rule failed)
  next
    case h: True
    show ?thesis
    proof (cases "Getwd (osenv_of env)")
      case (Inl e)
      then have "Algo_locked env ctx a s = (Some (Errorf ''error getting current directory'' e), t\<lparr>os := os t\<rparr>)"
        using assms b h by (simp add: Algo_locked_def)
      then show ?thesis by (rule failed)
    next
      case d: (Inr dir)
      obtain q u where u: "save_algorithm (osenv_of env) (Join [dir, ''algo'']) b (os t) = (q, u)" by fastforce
      show ?thesis
      proof (cases q)
        case (Some e)
        then have "Algo_locked env ctx a s = (Some e, t\<lparr>os := u\<rparr>)"
          using assms b h d u by (simp add: Algo_locked_def)
        then show ?thesis by (rule failed)
      next
        case None
        obtain m w where m: "Mkdir (osenv_of env) ''datasets'' u = (m, w)" by fastforce
        show ?thesis
          by (rule saved [OF b h d u [unfolded None] m])
             (use assms b h d u None m in \<open>cases m; simp add: Algo_locked_def Let_def\<close>)
      qed
    qed
  qed
qed

lemma Algo_inv:
  assumes "behaved W H env" and "agent_inv W H s"
  shows "agent_inv W H (snd (Algo env ctx a s))"
proof (cases "agent_state s = ReceivingAlgorithm \<and> \<not> algoReceived (svc s)")
  case True
  obtain r t where d: "algorithm_data env a s = (r, t)" by fastforce
  from algorithm_data_inv [OF assms _ d] True
  have t: "agent_inv W H t" "agent_state t = ReceivingAlgorithm" "\<not> algoReceived (svc t)" by auto
  have unsaved: "agent_inv W H (t\<lparr>os := u\<rparr>)" for u
  proof -
    have "runs_pending t = 0" by (rule no_run_before_Running) (use t in \<open>simp_all add: agent_inv_def\<close>)
    then have "algo_inv W H (t\<lparr>os := u\<rparr>)" using t by (simp add: agent_inv_def algo_inv_def runs_pending_def)
    moreover have "control_inv (t\<lparr>os := u\<rparr>)" by (rule control_cong [of t]) (use t in \<open>simp_all add: agent_inv_def\<close>)
    ultimately show ?thesis using t(1) by (simp add: agent_inv_def dataset_inv_def)
  qed
  have saved: "agent_inv W H v" if "Files (os v) (algo_path W) = Some b" "H b = alg_Hash (cmp_Algorithm (computation (svc t)))"
      "sm (svc v) = sm (svc t)" "computation (svc v) = computation (svc t)" "algoReceived (svc v)" "pending v = pending t"
      "evloop v = evloop t" "manifest v = manifest t" "received v = received t" "runs v = runs t" for v b
  proof -
    have "control_inv v" by (rule control_received [of t]) (use t that in \<open>simp_all add: agent_inv_def\<close>)
    moreover have "dataset_inv H v" by (rule dataset_cong [of H t]) (use t that in \<open>simp_all add: agent_inv_def\<close>)
    moreover have "algo_inv W H v"
      using t(1) that by (auto simp: agent_inv_def algo_inv_def runs_pending_def verified_def dataset_inv_def)
    ultimately show ?thesis by (simp add: agent_inv_def)
  qed
  have h: "Sum256 env = H" using assms(1) by (simp add: behaved_def)
  show ?thesis
  proof (rule Algo_locked_cases [OF d, of ctx])
    show "\<not> algoReceived (svc s)" using True by simp
    fix e u assume "Algo_locked env ctx a s = (Some e, t\<lparr>os := u\<rparr>)"
    then show ?thesis using unsaved True by (simp add: Algo_def GetState_def)
  next
    fix b dir u m w
    assume b: "r = Inr b" "Sum256 env b = alg_Hash (cmp_Algorithm (computation (svc t)))" "Getwd (osenv_of env) = Inr dir"
      "save_algorithm (osenv_of env) (Join [dir, ''algo'']) b (os t) = (None, u)"
      "Mkdir (osenv_of env) ''datasets'' u = (m, w)"
    let ?v = "t\<lparr>svc := (svc t)\<lparr>algoType := (if AlgorithmTypeFromContext ctx = [] then ''bin'' else AlgorithmTypeFromContext ctx),
        algoArgs := AlgorithmArgsFromContext ctx, algoRequirements := alg_Requirements a, algoReceived := True\<rparr>, os := w\<rparr>"
    assume e: "snd (Algo_locked env ctx a s) = (let v = ?v in if m = None then send_event AlgorithmReceived v else v)"
    have f: "Files w (algo_path W) = Some b" using save_algorithm_ok [OF assms(1) b(3,4)] Mkdir_Files [OF b(5)] by simp
    have i: "agent_inv W H ?v" by (rule saved [of _ b]) (use f b(2) h in simp_all)
    then show ?thesis using e inv_send [OF i, of AlgorithmReceived] t(2) True by (simp add: Algo_def GetState_def Let_def)
  qed
qed (use assms(2) in \<open>auto simp: Algo_def Algo_locked_def GetState_def\<close>)

text \<open>A dataset request either changes nothing but files, or takes the first declared dataset with the hash of the data.\<close>

lemma Data_locked_cases:
  assumes "dataset_data env d s = (r, t)" and "datasets_left s \<noteq> []"
  obtains (failed) e u where "Data_locked env ctx d s = (Some e, s\<lparr>os := u\<rparr>)" "u = t \<or> (\<exists>x y c f b q. save_dataset env x y c f b t = (q, u))"
    | (taken) b f i u c where "r = Inr (b, f)" "first_index (\<lambda>d. Sum256 env b = ds_Hash d) (datasets_left s) = Some i"
        "save_dataset env ''error decompressing dataset'' ''error closing file'' c f b t = (None, u)"
        "Data_locked env ctx d s = (None, let v = take_dataset i b (s\<lparr>os := u\<rparr>) in
           if datasets_left v = [] then send_event DataReceived v else v)"
proof (cases r)
  case (Inl e)
  then have "Data_locked env ctx d s = (Some e, s\<lparr>os := t\<rparr>)" using assms by (simp add: Data_locked_def)
  then show ?thesis by (rule failed) simp
next
  case (Inr bf)
  then obtain b f where b: "r = Inr (b, f)" by (cases bf) auto
  show ?thesis
  proof (cases "first_index (\<lambda>d. Sum256 env b = ds_Hash d) (datasets_left s)")
    case None
    then have "Data_locked env ctx d s = (Some ErrUndeclaredDataset, s\<lparr>os := t\<rparr>)" using assms b by (simp add: Data_locked_def Let_def)
    then show ?thesis by (rule failed) simp
  next
    case i: (Some i)
    show ?thesis
    proof (cases "ds_Filename (datasets_left s ! i) \<noteq> [] \<and> ds_Filename (datasets_left s ! i) \<noteq> f")
      case True
      then have "Data_locked env ctx d s = (Some ErrFileNameMismatch, s\<lparr>os := t\<rparr>)"
        using assms b i by (simp add: Data_locked_def Let_def)
      then show ?thesis by (rule failed) simp
    next
      case n: False
      obtain q u where u: "save_dataset env ''error decompressing dataset'' ''error closing file''
          (DecompressFromContext ctx) f b t = (q, u)" by fastforce
      show ?thesis
      proof (cases q)
        case (Some e)
        then have "Data_locked env ctx d s = (Some e, s\<lparr>os := u\<rparr>)" using assms b i n u by (auto simp: Data_locked_def Let_def)
        then show ?thesis by (rule failed) (use u in blast)
      next
        case None
        show ?thesis by (rule taken [OF b i u [unfolded None]]) (use assms b i n u None in \<open>auto simp: Data_locked_def Let_def\<close>)
      qed
    qed
  qed
qed

lemma dataset_data_frame:
  assumes "behaved W H env" and "dataset_data env d s = (r, t)"
  shows "Files t (algo_path W) = Files (os s) (algo_path W)"
  using assms(2) unfolding dataset_data_def Let_def
  by (auto split: option.splits prod.splits sum.splits dest!: download_frame [OF assms(1)])

lemma Data_inv:
  assumes "behaved W H env" and "agent_inv W H s"
  shows "agent_inv W H (snd (Data env ctx d s))"
proof (cases "agent_state s = ReceivingData \<and> datasets_left s \<noteq> []")
  case True
  obtain r t where d: "dataset_data env d s = (r, t)" by fastforce
  have t: "Files t (algo_path W) = Files (os s) (algo_path W)" by (rule dataset_data_frame [OF assms(1) d])
  have D: "Data env ctx d s = Data_locked env ctx d s" using True by (simp add: Data_def GetState_def)
  show ?thesis
  proof (rule Data_locked_cases [OF d, of ctx])
    show "datasets_left s \<noteq> []" using True by simp
    fix e u assume e: "Data_locked env ctx d s = (Some e, s\<lparr>os := u\<rparr>)"
      "u = t \<or> (\<exists>x y c f b q. save_dataset env x y c f b t = (q, u))"
    then have "Files u (algo_path W) = Files (os s) (algo_path W)" using t save_dataset_frame [OF assms(1)] by metis
    then show ?thesis using e(1) D inv_os [OF assms(2)] by simp
  next
    fix b f i u c
    assume b: "first_index (\<lambda>d. Sum256 env b = ds_Hash d) (datasets_left s) = Some i"
      "save_dataset env ''error decompressing dataset'' ''error closing file'' c f b t = (None, u)"
      and e: "Data_locked env ctx d s = (None, let v = take_dataset i b (s\<lparr>os := u\<rparr>) in
           if datasets_left v = [] then send_event DataReceived v else v)"
    have "Files u (algo_path W) = Files (os s) (algo_path W)" using t save_dataset_frame [OF assms(1) b(2)] by simp
    then have i: "agent_inv W H (s\<lparr>os := u\<rparr>)" by (rule inv_os [OF assms(2)])
    have "i < length (datasets_left s)" "H b = ds_Hash (datasets_left s ! i)"
      using first_index_Some [OF b(1)] assms(1) by (auto simp: behaved_def)
    then have v: "agent_inv W H (take_dataset i b (s\<lparr>os := u\<rparr>))" using inv_take [OF i, of i b] True by simp
    show ?thesis using e D v inv_send [OF v, of DataReceived] True by (simp add: Let_def)
  qed
qed (use assms(2) in \<open>auto simp: Data_def Data_locked_def GetState_def\<close>)

lemma Result_inv: "agent_inv W H s \<Longrightarrow> agent_inv W H (snd (Result ctx s))"
  unfolding Result_def Let_def by (auto split: option.splits intro!: inv_send intro: inv_cong)

lemma InitComputation_inv:
  assumes "agent_inv W H s"
  shows "agent_inv W H (snd (InitComputation cmp s))"
proof (cases "agent_state s = ReceivingManifest")
  case True
  let ?m = "add_transitions (manifest_transitions cmp) (sm (svc s))"
  let ?s = "s\<lparr>svc := (svc s)\<lparr>computation := cmp, sm := ?m\<rparr>, manifest := cmp, received := []\<rparr>"
  have c: "control_inv s" "runs s = []" "\<not> algoReceived (svc s)"
    using assms True by (auto simp: agent_inv_def algo_inv_def control_defs)
  then have tab: "table_ok (transitions (sm (svc s)))" by (simp add: control_defs)
  have "machine_inv ?s" using c(1) manifest_table(1) [OF tab] by (simp add: control_inv_def machine_inv_def)
  moreover have "progress_inv ?s"
    using c(1,3) True manifest_table(2) [OF tab, of cmp] by (simp add: control_inv_def progress_inv_def)
  ultimately have "control_inv ?s" by (simp add: control_inv_def)
  moreover have "dataset_inv H ?s" by (simp add: dataset_inv_def)
  moreover have "runs_pending s = 0" by (rule no_run_before_Running [OF c(1)]) (simp add: True)
  then have "algo_inv W H ?s" using c(2) True by (simp add: algo_inv_def runs_pending_def)
  ultimately have "agent_inv W H ?s" by (simp add: agent_inv_def)
  from inv_send [OF this, of ManifestReceived] show ?thesis
    using True by (simp add: InitComputation_def InitComputation_locked_def GetState_def Let_def)
qed (use assms in \<open>simp add: InitComputation_def GetState_def\<close>)

subsection \<open>The loop\<close>

lemma handle_event_Some:
  assumes "handle_event ev s = Some s'"
  obtains e n where "ev = Some e" "transitions (sm (svc s)) (agent_state s) e = Some n"
    "s' = s\<lparr>svc := (svc s)\<lparr>sm := (sm (svc s))\<lparr>currentState := n\<rparr>\<rparr>,
       pending := pending s @ (case actions (sm (svc s)) n of None \<Rightarrow> [] | Some a \<Rightarrow> [(a, n)])\<rparr>"
  using assms
  by (auto simp: handle_event_def handleEvent_def lookup_transition_def commit_state_def split: option.splits)

lemma handle_inv:
  assumes "agent_inv W H s" and "evloop s = Handling ev" and "handle_event ev s = Some s'"
  shows "agent_inv W H (s'\<lparr>evloop := AtTop\<rparr>)"
proof -
  obtain e n where e: "ev = Some e" "transitions (sm (svc s)) (agent_state s) e = Some n"
    and s': "s' = s\<lparr>svc := (svc s)\<lparr>sm := (sm (svc s))\<lparr>currentState := n\<rparr>\<rparr>,
       pending := pending s @ (case actions (sm (svc s)) n of None \<Rightarrow> [] | Some a \<Rightarrow> [(a, n)])\<rparr>"
    using handle_event_Some [OF assms(3)] by metis
  have c: "machine_inv s" "progress_inv s" using assms(1) by (auto simp: agent_inv_def control_inv_def)
  then have act: "actions (sm (svc s)) = actions new_machine" and tab: "table_ok (transitions (sm (svc s)))"
    by (auto simp: machine_inv_def)
  have up: "rank (agent_state s) < rank n" by (rule table_increases [OF tab e(2)])
  have f: "in_flight s e" using assms(2) e(1) by simp
  note edges = table_edges [OF tab e(2)]
  have "actions new_machine k = Some a \<and> rank k \<le> rank n" if "(a, k) \<in> set (pending s')" for a k
  proof -
    have "(a, k) \<in> set (pending s) \<or> actions new_machine n = Some a \<and> k = n"
      using that by (auto simp: s' act split: option.splits)
    then show ?thesis using c(1) up unfolding machine_inv_def by fastforce
  qed
  then have m: "machine_inv (s'\<lparr>evloop := AtTop\<rparr>)"
    using act tab by (auto simp: machine_inv_def s')
  have p: "progress_inv (s'\<lparr>evloop := AtTop\<rparr>)"
    using edges
    by (elim disjE conjE; use c(2) f e(2) in \<open>auto simp: progress_inv_def s' split: if_splits\<close>)
  have r: "runs_pending s' = runs_pending s + (if n = Running then 1 else 0)"
    using action_states(3) [of n] by (auto simp: s' runs_pending_def act split: option.splits)
  have a: "algo_inv W H s" using assms(1) by (simp add: agent_inv_def)
  have src: "agent_state s \<in> {ReceivingAlgorithm, ReceivingData} \<and> algoReceived (svc s)" if "n = Running \<or> n = ReceivingData"
    using edges that by (elim disjE conjE; use c(2) f e(2) in \<open>simp add: progress_inv_def\<close>)
  have ver: "verified W H s'" if "\<not> remote_algorithm (manifest s)"
      "algoReceived (svc s) \<and> n \<in> {ReceivingAlgorithm, ReceivingData} \<or> 0 < runs_pending s'"
  proof -
    have "n = ReceivingAlgorithm \<Longrightarrow> \<not> algoReceived (svc s)"
      using c(2) up unfolding progress_inv_def by auto
    then have "algoReceived (svc s) \<and> agent_state s \<in> {ReceivingAlgorithm, ReceivingData} \<or> 0 < runs_pending s"
      using that(2) src r by (auto split: if_splits)
    then have "verified W H s" using a that(1) unfolding algo_inv_def by blast
    then show ?thesis by (simp add: verified_def s')
  qed
  have "n = Running \<Longrightarrow> runs_pending s = 0"
    by (rule no_run_before_Running) (use assms(1) up in \<open>auto simp: agent_inv_def\<close>)
  moreover have "n = Running \<Longrightarrow> runs s = []" using a edges by (auto simp: algo_inv_def)
  ultimately have one: "length (runs s) + runs_pending s' \<le> 1" using a r by (auto simp: algo_inv_def)
  have same: "runs s' = runs s" "manifest s' = manifest s" "agent_state s' = n" "algoReceived (svc s') = algoReceived (svc s)"
    by (simp_all add: s')
  have "runs s \<noteq> [] \<Longrightarrow> 4 \<le> rank n" using a up by (simp add: algo_inv_def)
  then have "algo_inv W H s'" using a one ver unfolding algo_inv_def same by blast
  then have "algo_inv W H (s'\<lparr>evloop := AtTop\<rparr>)" by (rule algo_cong) simp_all
  moreover have "dataset_inv H (s'\<lparr>evloop := AtTop\<rparr>)" using assms(1) by (simp add: agent_inv_def dataset_inv_def s')
  ultimately show ?thesis using m p by (simp add: agent_inv_def control_inv_def)
qed

lemma inv_loop:
  assumes "agent_inv W H s" and "\<And>e. l \<noteq> Handling (Some e)"
  shows "agent_inv W H (s\<lparr>evloop := l\<rparr>)"
  using assms by (simp add: agent_inv_def control_defs dataset_inv_def algo_inv_def runs_pending_def verified_def)

lemma action_inv:
  assumes "\<forall>i. behaved W H (envs i)" and "agent_inv W H s" and "pending s = ps @ (a, st) # qs"
  shows "agent_inv W H (run_action envs a st (s\<lparr>pending := ps @ qs\<rparr>))"
proof -
  let ?s = "s\<lparr>pending := ps @ qs\<rparr>"
  have i: "agent_inv W H ?s" by (rule inv_pending [OF assms(2,3)])
  have c: "actions new_machine st = Some a" "rank st \<le> rank (agent_state s)"
    using pending_rank [of s a st] assms(2,3) by (auto simp: agent_inv_def)
  show ?thesis
  proof (cases a)
    case DownloadAlgorithm
    then show ?thesis using downloadAlgorithm_inv [OF i] c action_states(1) [of st] by simp
  next
    case DownloadDatasets
    then show ?thesis using downloadDatasets_inv [OF _ i] assms(1) c action_states(2) [of st] by simp
  next
    case RunComputation
    have r: "runs_pending s = Suc (runs_pending ?s)" using assms(3) RunComputation by (simp add: runs_pending_def)
    have st: "st = Running" using c(1) RunComputation action_states(3) [of st] by simp
    have "algo_inv W H s" using assms(2) by (simp add: agent_inv_def)
    then have z: "runs_pending ?s = 0" "runs ?s = []" and v: "\<not> remote_algorithm (manifest s) \<Longrightarrow> verified W H s"
      using r unfolding algo_inv_def by auto
    have "\<not> remote_algorithm (manifest ?s) \<Longrightarrow> verified W H ?s" using v by (simp add: verified_def)
    then show ?thesis using runComputation_inv [OF _ i _ z(1) _ z(2)] assms(1) c(2) st RunComputation by simp
  next
    case (PublishEvent p)
    then show ?thesis using inv_publish [OF i] by simp
  qed
qed

lemma step_inv:
  assumes "agent_step (behaved W H) s t" and "agent_inv W H s"
  shows "agent_inv W H t"
  using assms
proof cases
  case top
  then show ?thesis using inv_loop [OF assms(2)] by simp
next
  case (invalid ev)
  then show ?thesis using inv_loop [OF assms(2)] by simp
qed (use assms(2) handle_inv action_inv InitComputation_inv Algo_inv Data_inv Result_inv in metis)+

lemma New_inv: "agent_inv W H (New os0)"
proof -
  have "table_ok (transitions new_machine)" unfolding new_machine_table table_ok_def by blast
  moreover have "currentState new_machine = Idle"
    by (simp add: new_machine_def SetAction_def NewStateMachine_def)
  moreover have "transitions new_machine ReceivingAlgorithm AlgorithmReceived = None" by (simp add: new_machine_table)
  ultimately show ?thesis
    by (simp add: New_def send_event_def SendEvent_def agent_inv_def control_defs dataset_inv_def algo_inv_def
        runs_pending_def remote_algorithm_def empty_Computation_def empty_Algorithm_def)
qed

lemma run_inv: "agent_run (behaved W H) (New os0) s \<Longrightarrow> agent_inv W H s"
  by (induction "New os0" s rule: agent_run.induct) (auto simp: New_inv intro: step_inv)

end
