(* ===== verification/Agent_Runs.thy ===== *)
theory Agent_Runs
  imports Agent_Invariants
begin

text \<open>
  The guarantees of the agent over whole computations, from the invariants of \<open>Agent_Invariants\<close>, and what
  \<open>StopComputation\<close> and \<open>Result\<close> do. A scheduler that picks each step makes concrete computations
  executable; it is only used to exhibit them.
\<close>

section \<open>Scheduled runs\<close>

datatype choice =
    LoopTop | LoopHandle | RunAction nat | CallInit Computation | CallAlgo call_ctx Algorithm | CallData call_ctx Dataset
  | CallResult call_ctx

fun take_step :: "agent_env \<Rightarrow> choice \<Rightarrow> agent_sys \<Rightarrow> agent_sys option" where
  "take_step env LoopTop s = (case evloop s of AtTop \<Rightarrow> Some (s\<lparr>evloop := Waiting (channels (sm (svc s)))\<rparr>) | _ \<Rightarrow> None)"
| "take_step env LoopHandle s =
     (case evloop s of
        Handling ev \<Rightarrow> (case handle_event ev s of None \<Rightarrow> Some (s\<lparr>evloop := Returned\<rparr>) | Some s' \<Rightarrow> Some (s'\<lparr>evloop := AtTop\<rparr>))
      | _ \<Rightarrow> None)"
| "take_step env (RunAction i) s =
     (if i < length (pending s)
      then Some (run_action (\<lambda>_. env) (fst (pending s ! i)) (snd (pending s ! i)) (s\<lparr>pending := take i (pending s) @ drop (Suc i) (pending s)\<rparr>))
      else None)"
| "take_step env (CallInit cmp) s = Some (snd (InitComputation cmp s))"
| "take_step env (CallAlgo ctx a) s = Some (snd (Algo env ctx a s))"
| "take_step env (CallData ctx d) s = Some (snd (Data env ctx d s))"
| "take_step env (CallResult ctx) s = Some (snd (Result ctx s))"

fun take_steps :: "agent_env \<Rightarrow> choice list \<Rightarrow> agent_sys \<Rightarrow> agent_sys option" where
  "take_steps env [] s = Some s"
| "take_steps env (c # cs) s = (case take_step env c s of None \<Rightarrow> None | Some t \<Rightarrow> take_steps env cs t)"

lemma take_step_step:
  assumes "ok env" and "take_step env c s = Some t"
  shows "agent_step ok s t"
proof (cases c)
  case (RunAction i)
  let ?p = "pending s ! i"
  have i: "i < length (pending s)"
    and t: "t = run_action (\<lambda>_. env) (fst ?p) (snd ?p) (s\<lparr>pending := take i (pending s) @ drop (Suc i) (pending s)\<rparr>)"
    using assms(2) RunAction by (auto split: if_splits)
  have "pending s = take i (pending s) @ (fst ?p, snd ?p) # drop (Suc i) (pending s)" using id_take_nth_drop [OF i] by simp
  then show ?thesis unfolding t by (rule agent_step.action) (use assms(1) in simp)
qed (use assms in \<open>auto split: loop.splits option.splits intro: agent_step.intros\<close>)

lemma take_steps_run:
  assumes "ok env"
  shows "agent_run ok r s \<Longrightarrow> take_steps env cs s = Some t \<Longrightarrow> agent_run ok r t"
proof (induction cs arbitrary: s)
  case (Cons c cs)
  then obtain u where u: "take_step env c s = Some u" "take_steps env cs u = Some t" by (auto split: option.splits)
  have "agent_run ok r u" by (rule agent_run.step [OF Cons.prems(1) take_step_step [of ok, OF assms u(1)]])
  then show ?case using Cons.IH u(2) by blast
qed simp

text \<open>An agent in \<open>/w\<close> whose hash is the identity and whose tools and runner do nothing.\<close>

definition demo_env :: agent_env where
  "demo_env = \<lparr>cwd = ''/w'', fault = (\<lambda>c. None), short_write = (\<lambda>p. 0), Stat = (\<lambda>p. Inr Directory), Walk = (\<lambda>p. Inr []),
     Glob = (\<lambda>p. Inr []), zip_image = (\<lambda>es. [9]), zip_NewReader = (\<lambda>b. Inr []), Sum256 = (\<lambda>b. b), temp_name = ''/t'',
     ociClient_nil = False, PullAndDecrypt = (\<lambda>u b k d t. (None, t)), ToDockerArchive = (\<lambda>d f t. (None, t)),
     ExtractAlgorithm = (\<lambda>d x a t. (Inl '''', t)), ExtractDataset = (\<lambda>d x t. (Inl '''', t)), copy_tree = (\<lambda>a b t. (None, t)),
     TempDir = ''/tmp'', runner_Run = (\<lambda>r t. (Inr [], t)), GetAttestation = (\<lambda>a b c. Inl ''''), GetAzureToken = (\<lambda>n. Inl ''''),
     GetPCRSHA1Value = (\<lambda>n. Inl '''')\<rparr>"

definition demo_os :: os_state where
  "demo_os = \<lparr>Files = (\<lambda>p. None), Dirs = {}\<rparr>"

definition demo_ctx :: call_ctx where
  "demo_ctx = \<lparr>metadata = (\<lambda>k. if k = ''decompress'' then [''true''] else []), manifest_index = Some 0\<rparr>"

definition demo_dataset :: Dataset where
  "demo_dataset = \<lparr>ds_Dataset = [3], ds_Hash = [3], ds_UserKey = [], ds_Filename = ''d'', ds_Source = None, ds_Decompress = False\<rparr>"

definition demo_computation :: Computation where
  "demo_computation = empty_Computation\<lparr>cmp_ID := ''c'', cmp_Datasets := [demo_dataset],
     cmp_Algorithm := empty_Algorithm\<lparr>alg_Algorithm := [5], alg_Hash := [5]\<rparr>, ResultConsumers := [[1]]\<rparr>"

definition demo_upload :: "choice list" where
  "demo_upload = [LoopHandle, LoopTop, CallInit demo_computation, LoopHandle, LoopTop,
     CallAlgo demo_ctx (cmp_Algorithm demo_computation), LoopHandle, LoopTop, CallData demo_ctx demo_dataset, LoopHandle, LoopTop]"

definition demo_state :: agent_sys where
  "demo_state = (case take_steps demo_env demo_upload (New demo_os) of Some s \<Rightarrow> s | None \<Rightarrow> New demo_os)"

lemma demo_upload_runs: "take_steps demo_env demo_upload (New demo_os) = Some demo_state"
proof -
  have "take_steps demo_env demo_upload (New demo_os) \<noteq> None" by code_simp
  then show ?thesis by (auto simp: demo_state_def)
qed


section \<open>What the agent guarantees\<close>



lemma demo_env_behaved: "behaved [''w''] (\<lambda>b. b) demo_env"
proof -
  have "plain_elems [''w'']" by code_simp
  then show ?thesis by (simp add: behaved_def demo_env_def rooted_path_def)
qed

lemma demo_reached: "take_steps demo_env cs demo_state = Some t \<Longrightarrow> agent_run (behaved [''w''] (\<lambda>b. b)) (New demo_os) t"
proof -
  note run = take_steps_run [of "behaved [''w''] (\<lambda>b. b)" demo_env, OF demo_env_behaved]
  show "take_steps demo_env cs demo_state = Some t \<Longrightarrow> agent_run (behaved [''w''] (\<lambda>b. b)) (New demo_os) t"
    by (rule run [OF run [OF agent_run.start demo_upload_runs]])
qed


text \<open>The run itself is the last of the actions started.\<close>

definition demo_done :: agent_sys where
  "demo_done = (case take_steps demo_env [RunAction 2, LoopHandle, LoopTop] demo_state of Some s \<Rightarrow> s | None \<Rightarrow> demo_state)"



subsection \<open>States\<close>

text \<open>Only the loop moves the state of the machine.\<close>

lemma fail_run_state [simp]: "sm (svc (fail_run e s)) = sm (svc s)"
  by (simp add: fail_run_def)

lemma install_algorithm_state [simp]: "sm (svc (install_algorithm env res s)) = sm (svc s)"
  by (simp add: install_algorithm_def Let_def split: sum.split prod.split option.split)

lemma downloadAlgorithm_state [simp]: "sm (svc (downloadAlgorithmIfRemote env st s)) = sm (svc s)"
  by (simp add: downloadAlgorithmIfRemote_def Let_def split: sum.split prod.split)

lemma take_dataset_machine [simp]: "sm (svc (take_dataset i b s)) = sm (svc s)"
  by (simp add: take_dataset_def Let_def)

lemma download_datasets_state: "download_datasets envs n s = (ok, t) \<Longrightarrow> sm (svc t) = sm (svc s)"
  by (induction n arbitrary: s) (auto simp: Let_def split: if_splits prod.splits sum.splits)

lemma downloadDatasets_state [simp]: "sm (svc (downloadDatasetsIfRemote envs st s)) = sm (svc s)"
  by (auto simp: downloadDatasetsIfRemote_def Let_def split: prod.splits bool.splits dest: download_datasets_state)

lemma run_algorithm_svc: "run_algorithm env st s = (r, t) \<Longrightarrow> svc t = svc s \<and> evloop t = evloop s \<and> pending t = pending s"
  by (auto simp: run_algorithm_def Let_def split: prod.splits option.splits sum.splits if_splits)

lemma runComputation_state [simp]: "sm (svc (runComputation env st s)) = sm (svc s)"
  by (auto simp: runComputation_def Let_def split: prod.splits sum.splits dest: run_algorithm_svc)

lemma run_action_state [simp]: "sm (svc (run_action envs a st s)) = sm (svc s)"
  by (cases a) auto

lemma algorithm_data_state: "algorithm_data env a s = (r, t) \<Longrightarrow> sm (svc t) = sm (svc s)"
  by (auto simp: algorithm_data_def Let_def split: if_splits prod.splits sum.splits)

lemma Algo_state [simp]: "sm (svc (snd (Algo env ctx a s))) = sm (svc s)"
proof (cases "algoReceived (svc s)")
  case False
  obtain r t where d: "algorithm_data env a s = (r, t)" by fastforce
  show ?thesis by (rule Algo_locked_cases [OF d False, of ctx]) (auto simp: Algo_def Let_def algorithm_data_state [OF d])
qed (simp add: Algo_def Algo_locked_def)

lemma Data_state [simp]: "sm (svc (snd (Data env ctx d s))) = sm (svc s)"
proof (cases "datasets_left s = []")
  case False
  obtain r t where d: "dataset_data env d s = (r, t)" by fastforce
  show ?thesis by (rule Data_locked_cases [OF d False, of ctx]) (auto simp: Data_def Let_def)
qed (simp add: Data_def Data_locked_def)

lemma Result_state [simp]: "sm (svc (snd (Result ctx s))) = sm (svc s)"
  by (simp add: Result_def Let_def split: option.split)

lemma InitComputation_state [simp]: "agent_state (snd (InitComputation cmp s)) = agent_state s"
  by (simp add: InitComputation_def InitComputation_locked_def Let_def)




section \<open>Stopping a running computation\<close>

text \<open>The new loop has taken the start event and waits again.\<close>

definition restarted :: "agent_sys \<Rightarrow> agent_sys" where
  "restarted s = (case handle_event (Some Start) s of None \<Rightarrow> s | Some t \<Rightarrow> t\<lparr>evloop := Waiting (channels (sm (svc t)))\<rparr>)"

lemma StopComputation_state:
  assumes "StopComputation env s = (None, t)" and "table_ok (transitions (sm (svc s)))"
  shows "agent_state (restarted t) = ReceivingManifest" "evloop (restarted t) = Waiting (channels (sm (svc (restarted t))))"
    "transitions (sm (svc (restarted t))) = transitions (sm (svc s))" "algoReceived (svc (restarted t)) = False"
proof -
  have t: "sm (svc t) = Reset Idle (sm (svc s))" "algoReceived (svc t) = False"
    using assms(1) by (auto simp: StopComputation_def cancel_loop_def Let_def split: prod.splits option.splits)
  obtain x y where "transitions (sm (svc s)) = agent_table x y" using assms(2) by (auto simp: table_ok_def)
  then have "transitions (sm (svc s)) Idle Start = Some ReceivingManifest" by simp
  then show "agent_state (restarted t) = ReceivingManifest" "evloop (restarted t) = Waiting (channels (sm (svc (restarted t))))"
    "transitions (sm (svc (restarted t))) = transitions (sm (svc s))" "algoReceived (svc (restarted t)) = False"
    using t by (auto simp: restarted_def handle_event_def handleEvent_def lookup_transition_def commit_state_def Reset_def)
qed

lemma runComputation_event:
  assumes "evloop s = Waiting (channels (sm (svc s)))"
  shows "\<exists>e. evloop (runComputation env st s) = Handling (Some e) \<and> (e = RunFailed \<or> e = RunComplete)"
proof -
  obtain q v where q: "run_algorithm env st (publishEvent (Status_String Starting) st s) = (q, v)" by fastforce
  have v: "evloop v = Waiting (channels (sm (svc v)))" using run_algorithm_svc [OF q] assms by simp
  show ?thesis
    unfolding runComputation_def Let_def q by (cases q) (auto simp: send_event_def SendEvent_def v)
qed

text \<open>
  C25: stopping a computation whose run is still going ends the event loop. When the stopped run finishes, its
  final event reaches the restarted loop, has no transition in the state the loop is in, and makes the loop return;
  a later manifest is accepted but its event is dropped, so the agent stays where it is.
\<close>

theorem stop_during_run_ends_loop:
  assumes "agent_run (behaved W H) (New os0) s" and "StopComputation env s = (None, t)"
  shows "\<exists>e. evloop (runComputation env' Running (restarted t)) = Handling (Some e)
      \<and> handle_event (Some e) (runComputation env' Running (restarted t)) = None
      \<and> (\<forall>cmp. \<exists>u. InitComputation cmp ((runComputation env' Running (restarted t))\<lparr>evloop := Returned\<rparr>) = (None, u)
             \<and> evloop u = Returned \<and> agent_state u = ReceivingManifest)"
proof -
  have tab: "table_ok (transitions (sm (svc s)))"
    using run_inv [OF assms(1)] by (simp add: agent_inv_def control_defs)
  note r = StopComputation_state [OF assms(2) tab]
  let ?u = "runComputation env' Running (restarted t)"
  have m: "sm (svc ?u) = sm (svc (restarted t))" by simp
  obtain e where e: "evloop ?u = Handling (Some e)" "e = RunFailed \<or> e = RunComplete"
    using runComputation_event [OF r(2)] by blast
  obtain x y where "transitions (sm (svc ?u)) = agent_table x y" using tab r(3) m by (auto simp: table_ok_def)
  then have "handle_event (Some e) ?u = None"
    using e(2) r(1) m by (auto simp: handle_event_def handleEvent_def lookup_transition_def)
  moreover have "\<exists>u. InitComputation cmp (?u\<lparr>evloop := Returned\<rparr>) = (None, u) \<and> evloop u = Returned
      \<and> agent_state u = ReceivingManifest" for cmp
    using r(1) m by (simp add: InitComputation_def InitComputation_locked_def Let_def GetState_def send_event_def SendEvent_def)
  ultimately show ?thesis using e(1) by blast
qed

theorem stop_during_run_ends_loop_witness:
  "agent_state demo_state = Running \<and>
   (\<exists>t e. StopComputation demo_env demo_state = (None, t)
      \<and> evloop (runComputation demo_env Running (restarted t)) = Handling (Some e)
      \<and> handle_event (Some e) (runComputation demo_env Running (restarted t)) = None)"
proof -
  have s: "agent_state demo_state = Running" by code_simp
  have "fst (StopComputation demo_env demo_state) = None" by code_simp
  then obtain t where t: "StopComputation demo_env demo_state = (None, t)" by (metis prod.collapse)
  have "agent_run (behaved [''w''] (\<lambda>b. b)) (New demo_os) demo_state" using demo_reached [of "[]"] by simp
  from stop_during_run_ends_loop [OF this t, of demo_env] show ?thesis using s t by blast
qed


section \<open>Manifests that race\<close>


end
