(* ===== verification/JSON_Members.thy ===== *)
theory JSON_Members
  imports Go_Base
begin

text \<open>
  The check that a token has no duplicate JSON members, \<open>rejectDuplicateJWTMembers\<close>,
  \<open>rejectDuplicateJSONMembers\<close> and \<open>rejectDuplicateJSONObjectMembers\<close> of
  \<open>pkg/clients/identity_jwt.go\<close>, over a byte-level model of what it uses of the standard library:

  \<^item> the token stream of \<open>json.Decoder\<close> (\<open>Token\<close> and \<open>More\<close> with the decoder's nine token states), the
    scanning of one scalar and the unquoting of a string literal, escapes and surrogate pairs included;
  \<^item> \<open>base64.RawURLEncoding.DecodeString\<close> and \<open>strings.Split\<close> on a one-byte separator.

  A grammar of JSON texts (an inductive relation between texts and trees) is the reference: the check succeeds
  exactly on the texts of trees in which no object has two members of the same name.
\<close>


section \<open>Scalars\<close>

datatype json_error = EOF | ErrUnexpectedEOF | SyntaxError char

datatype json_token = Delim char | StringToken string | NumberToken string | BoolToken bool | NullToken

definition digit :: "char \<Rightarrow> bool" where
  "digit c \<longleftrightarrow> 48 \<le> (of_char c :: nat) \<and> (of_char c :: nat) \<le> 57"

definition hex_value :: "char \<Rightarrow> nat option" where
  "hex_value c =
     (let b = of_char c :: nat in
      if 48 \<le> b \<and> b \<le> 57 then Some (b - 48)
      else if 97 \<le> b \<and> b \<le> 102 then Some (b - 87)
      else if 65 \<le> b \<and> b \<le> 70 then Some (b - 55) else None)"

text \<open>
  The scanner on a string literal whose opening quote has been read: the body up to the closing quote, and what
  follows it. A control character, or a backslash that starts no escape, is a syntax error.
\<close>

definition scan_hex :: "string \<Rightarrow> json_error option" where
  "scan_hex s =
     (case dropWhile (\<lambda>c. hex_value c \<noteq> None) (take 4 s) of
        c # _ \<Rightarrow> Some (SyntaxError c)
      | [] \<Rightarrow> if length s < 4 then Some ErrUnexpectedEOF else None)"

fun scan_string :: "string \<Rightarrow> json_error + string \<times> string" where
  "scan_string [] = Inl ErrUnexpectedEOF"
| "scan_string (c # s) =
     (if c = CHR 0x22 then Inr ([], s)
      else if c = CHR 0x5C then
        (case s of
           [] \<Rightarrow> Inl ErrUnexpectedEOF
         | e # s' \<Rightarrow>
             if e \<notin> set [CHR ''b'', CHR ''f'', CHR ''n'', CHR ''r'', CHR ''t'', CHR 0x5C, CHR ''/'', CHR 0x22, CHR ''u'']
             then Inl (SyntaxError e)
             else case (if e = CHR ''u'' then scan_hex s' else None) of
               Some err \<Rightarrow> Inl err
             | None \<Rightarrow> (case scan_string s' of Inl err \<Rightarrow> Inl err | Inr (body, r) \<Rightarrow> Inr (c # e # body, r)))
      else if (of_char c :: nat) < 0x20 then Inl (SyntaxError c)
      else (case scan_string s of Inl err \<Rightarrow> Inl err | Inr (body, r) \<Rightarrow> Inr (c # body, r)))"

text \<open>\<open>utf8.AppendRune\<close> on a valid rune.\<close>

definition rune_string :: "rune \<Rightarrow> string" where
  "rune_string r = map char_of
     (if r < 0x80 then [r]
      else if r < 0x800 then [0xC0 + r div 64, 0x80 + r mod 64]
      else if r < 0x10000 then [0xE0 + r div 4096, 0x80 + r div 64 mod 64, 0x80 + r mod 64]
      else [0xF0 + r div 262144, 0x80 + r div 4096 mod 64, 0x80 + r div 64 mod 64, 0x80 + r mod 64])"

definition hex4 :: "string \<Rightarrow> rune option" where
  "hex4 s =
     (case map hex_value (take 4 s) of
        [Some a, Some b, Some c, Some d] \<Rightarrow> Some (a * 4096 + b * 256 + c * 16 + d)
      | _ \<Rightarrow> None)"

definition IsSurrogate :: "rune \<Rightarrow> bool" where
  "IsSurrogate r \<longleftrightarrow> 0xD800 \<le> r \<and> r < 0xE000"

text \<open>The second half of a surrogate pair: another four-digit escape, with a low surrogate.\<close>

definition low_surrogate :: "string \<Rightarrow> rune option" where
  "low_surrogate s =
     (if take 2 s = [CHR 0x5C, CHR ''u'']
      then (case hex4 (drop 2 s) of
              Some r \<Rightarrow> if 0xDC00 \<le> r \<and> r < 0xE000 then Some r else None
            | None \<Rightarrow> None)
      else None)"

definition escape_char :: "char \<Rightarrow> char" where
  "escape_char e =
     (if e = CHR ''b'' then CHR 0x08 else if e = CHR ''f'' then CHR 0x0C
      else if e = CHR ''n'' then CHR 0x0A else if e = CHR ''r'' then CHR 0x0D
      else if e = CHR ''t'' then CHR 0x09 else e)"

text \<open>
  One step of unquoting the body of a scanned literal: the bytes it yields and how many it consumes. A lone
  surrogate and an invalid UTF-8 byte both become \<open>U+FFFD\<close>.
\<close>

definition unquote_step :: "string \<Rightarrow> string \<times> nat" where
  "unquote_step s =
     (if take 2 s = [CHR 0x5C, CHR ''u''] then
        (case hex4 (drop 2 s) of
           None \<Rightarrow> (rune_string RuneError, 2)
         | Some r \<Rightarrow>
             if \<not> IsSurrogate r then (rune_string r, 6)
             else if r < 0xDC00 then
               (case low_surrogate (drop 6 s) of
                  Some r2 \<Rightarrow> (rune_string ((r - 0xD800) * 1024 + (r2 - 0xDC00) + 0x10000), 12)
                | None \<Rightarrow> (rune_string RuneError, 6))
             else (rune_string RuneError, 6))
      else if take 1 s = [CHR 0x5C] then (map escape_char (take 1 (drop 1 s)), 2)
      else case decode_rune (string_bytes s) of
        (r, w) \<Rightarrow> if r = RuneError \<and> w = 1 then (rune_string RuneError, 1) else (take w s, w))"

lemma unquote_step_width: "s \<noteq> [] \<Longrightarrow> 0 < snd (unquote_step s)"
  using decode_rune_width [of "string_bytes s"]
  by (auto simp: unquote_step_def string_bytes_def split: option.splits prod.splits)

function unquote :: "string \<Rightarrow> string" where
  "unquote s = (if s = [] then [] else fst (unquote_step s) @ unquote (drop (snd (unquote_step s)) s))"
  by pat_completeness auto
termination
  by (relation "measure length") (use unquote_step_width in auto)

declare unquote.simps [simp del]

text \<open>The scanner on a number: as many bytes as the grammar of numbers takes.\<close>

definition digits :: "string \<Rightarrow> string \<times> string" where
  "digits s = (takeWhile digit s, dropWhile digit s)"

text \<open>At least one digit, after a sign, a point or an exponent.\<close>

definition digits1 :: "string \<Rightarrow> json_error + string \<times> string" where
  "digits1 s =
     (case s of [] \<Rightarrow> Inl ErrUnexpectedEOF | c # _ \<Rightarrow> if digit c then Inr (digits s) else Inl (SyntaxError c))"

definition scan_int :: "string \<Rightarrow> json_error + string \<times> string" where
  "scan_int s = (if take 1 s = ''0'' then Inr (''0'', drop 1 s) else digits1 s)"

definition scan_frac :: "string \<Rightarrow> json_error + string \<times> string" where
  "scan_frac s =
     (if take 1 s = ''.''
      then (case digits1 (drop 1 s) of Inl e \<Rightarrow> Inl e | Inr (d, r) \<Rightarrow> Inr (CHR ''.'' # d, r))
      else Inr ([], s))"

definition scan_exp :: "string \<Rightarrow> json_error + string \<times> string" where
  "scan_exp s =
     (if take 1 s = ''e'' \<or> take 1 s = ''E''
      then let k = (if take 1 (drop 1 s) = ''+'' \<or> take 1 (drop 1 s) = ''-'' then 2 else 1) in
        (case digits1 (drop k s) of Inl e \<Rightarrow> Inl e | Inr (d, r) \<Rightarrow> Inr (take k s @ d, r))
      else Inr ([], s))"

definition scan_number :: "string \<Rightarrow> json_error + string \<times> string" where
  "scan_number s =
     (let sign = (if take 1 s = ''-'' then ''-'' else []) in
      case scan_int (drop (length sign) s) of
        Inl e \<Rightarrow> Inl e
      | Inr (i, s1) \<Rightarrow>
          (case scan_frac s1 of
             Inl e \<Rightarrow> Inl e
           | Inr (f, s2) \<Rightarrow>
               (case scan_exp s2 of
                  Inl e \<Rightarrow> Inl e
                | Inr (x, s3) \<Rightarrow> Inr (sign @ i @ f @ x, s3))))"

text \<open>The scanner on one of the words \<open>true\<close>, \<open>false\<close> and \<open>null\<close>.\<close>

fun scan_word :: "string \<Rightarrow> string \<Rightarrow> json_error + string" where
  "scan_word [] s = Inr s"
| "scan_word (w # ws) [] = Inl ErrUnexpectedEOF"
| "scan_word (w # ws) (c # s) = (if c = w then scan_word ws s else Inl (SyntaxError c))"

definition word_token :: "string \<Rightarrow> json_token \<Rightarrow> string \<Rightarrow> json_error + json_token \<times> string" where
  "word_token w t s = (case scan_word w s of Inl e \<Rightarrow> Inl e | Inr r \<Rightarrow> Inr (t, r))"

text \<open>\<open>Decode\<close> on an input whose first byte starts no array and no object.\<close>

definition decode_string :: "string \<Rightarrow> json_error + string \<times> string" where
  "decode_string s = (case scan_string (drop 1 s) of Inl e \<Rightarrow> Inl e | Inr (body, r) \<Rightarrow> Inr (unquote body, r))"

definition decode_scalar :: "string \<Rightarrow> json_error + json_token \<times> string" where
  "decode_scalar s =
     (case s of
        [] \<Rightarrow> Inl EOF
      | c # _ \<Rightarrow>
          if c = CHR 0x22
          then (case decode_string s of Inl e \<Rightarrow> Inl e | Inr (v, r) \<Rightarrow> Inr (StringToken v, r))
          else if c = CHR ''-'' \<or> digit c
          then (case scan_number s of Inl e \<Rightarrow> Inl e | Inr (v, r) \<Rightarrow> Inr (NumberToken v, r))
          else if c = CHR ''t'' then word_token ''true'' (BoolToken True) s
          else if c = CHR ''f'' then word_token ''false'' (BoolToken False) s
          else if c = CHR ''n'' then word_token ''null'' NullToken s
          else Inl (SyntaxError c))"


section \<open>The token stream\<close>

datatype token_state = TokenTopValue | TokenArrayStart | TokenArrayValue | TokenArrayComma
  | TokenObjectStart | TokenObjectKey | TokenObjectColon | TokenObjectValue | TokenObjectComma

record decoder =
  dec_in :: string
  dec_state :: token_state
  dec_stack :: "token_state list"

definition NewDecoder :: "string \<Rightarrow> decoder" where
  "NewDecoder s = \<lparr>dec_in = s, dec_state = TokenTopValue, dec_stack = []\<rparr>"

definition json_space :: "char \<Rightarrow> bool" where
  "json_space c \<longleftrightarrow> c = CHR 0x20 \<or> c = CHR 0x09 \<or> c = CHR 0x0D \<or> c = CHR 0x0A"

text \<open>\<open>peek\<close> skips space and leaves the decoder at the byte it returns.\<close>

definition peek :: "decoder \<Rightarrow> (json_error + char) \<times> decoder" where
  "peek d =
     (case dropWhile json_space (dec_in d) of
        [] \<Rightarrow> (Inl EOF, d\<lparr>dec_in := []\<rparr>)
      | c # s \<Rightarrow> (Inr c, d\<lparr>dec_in := c # s\<rparr>))"

definition tokenValueAllowed :: "token_state \<Rightarrow> bool" where
  "tokenValueAllowed st \<longleftrightarrow>
     st = TokenTopValue \<or> st = TokenArrayStart \<or> st = TokenArrayValue \<or> st = TokenObjectValue"

fun tokenValueEnd :: "token_state \<Rightarrow> token_state" where
  "tokenValueEnd TokenArrayStart = TokenArrayComma"
| "tokenValueEnd TokenArrayValue = TokenArrayComma"
| "tokenValueEnd TokenObjectValue = TokenObjectComma"
| "tokenValueEnd st = st"

definition advance :: "decoder \<Rightarrow> decoder" where
  "advance d = d\<lparr>dec_in := tl (dec_in d)\<rparr>"

text \<open>An opening delimiter pushes the state; a closing one pops it and ends the value.\<close>

definition open_token :: "char \<Rightarrow> token_state \<Rightarrow> decoder \<Rightarrow> (json_error + json_token) \<times> decoder" where
  "open_token c st d =
     (if \<not> tokenValueAllowed (dec_state d) then (Inl (SyntaxError c), d)
      else (Inr (Delim c), \<lparr>dec_in = tl (dec_in d), dec_state = st, dec_stack = dec_state d # dec_stack d\<rparr>))"

definition close_token :: "char \<Rightarrow> token_state list \<Rightarrow> decoder \<Rightarrow> (json_error + json_token) \<times> decoder" where
  "close_token c sts d =
     (if dec_state d \<notin> set sts then (Inl (SyntaxError c), d)
      else (Inr (Delim c),
        \<lparr>dec_in = tl (dec_in d), dec_state = tokenValueEnd (hd (dec_stack d)), dec_stack = tl (dec_stack d)\<rparr>))"

definition key_token :: "decoder \<Rightarrow> (json_error + json_token) \<times> decoder" where
  "key_token d =
     (case decode_string (dec_in d) of
        Inl e \<Rightarrow> (Inl e, d)
      | Inr (x, r) \<Rightarrow> (Inr (StringToken x), d\<lparr>dec_in := r, dec_state := TokenObjectColon\<rparr>))"

definition value_token :: "char \<Rightarrow> decoder \<Rightarrow> (json_error + json_token) \<times> decoder" where
  "value_token c d =
     (if \<not> tokenValueAllowed (dec_state d) then (Inl (SyntaxError c), d)
      else case decode_scalar (dec_in d) of
        Inl e \<Rightarrow> (Inl e, d)
      | Inr (t, r) \<Rightarrow> (Inr t, d\<lparr>dec_in := r, dec_state := tokenValueEnd (dec_state d)\<rparr>))"

lemma dropWhile_length: "length (dropWhile P xs) \<le> length xs"
  by (induction xs) auto

lemma peek_Inr_iff:
  "peek d = (Inr c, d') \<longleftrightarrow> (\<exists>s. dropWhile json_space (dec_in d) = c # s \<and> d' = d\<lparr>dec_in := c # s\<rparr>)"
  by (cases "dropWhile json_space (dec_in d)") (auto simp: peek_def simp del: dropWhile_eq_Nil_conv)

lemma peek_shrinks: "peek d = (Inr c, d') \<Longrightarrow> length (dec_in (advance d')) < length (dec_in d)"
  using dropWhile_length [of json_space "dec_in d"] by (auto simp: peek_Inr_iff advance_def)

function Token :: "decoder \<Rightarrow> (json_error + json_token) \<times> decoder" where
  "Token d0 =
     (case peek d0 of
        (Inl e, d) \<Rightarrow> (Inl e, d)
      | (Inr c, d) \<Rightarrow>
          if c = CHR ''['' then open_token c TokenArrayStart d
          else if c = CHR '']'' then close_token c [TokenArrayStart, TokenArrayComma] d
          else if c = CHR ''{'' then open_token c TokenObjectStart d
          else if c = CHR ''}'' then close_token c [TokenObjectStart, TokenObjectComma] d
          else if c = CHR '':'' then
            (if dec_state d \<noteq> TokenObjectColon then (Inl (SyntaxError c), d)
             else Token ((advance d)\<lparr>dec_state := TokenObjectValue\<rparr>))
          else if c = CHR '','' then
            (if dec_state d = TokenArrayComma then Token ((advance d)\<lparr>dec_state := TokenArrayValue\<rparr>)
             else if dec_state d = TokenObjectComma then Token ((advance d)\<lparr>dec_state := TokenObjectKey\<rparr>)
             else (Inl (SyntaxError c), d))
          else if c = CHR 0x22 \<and> (dec_state d = TokenObjectStart \<or> dec_state d = TokenObjectKey)
          then key_token d
          else value_token c d)"
  by pat_completeness auto
termination
  by (relation "measure (\<lambda>d. length (dec_in d))") (simp_all, (metis peek_shrinks)+)

declare Token.simps [simp del]

definition More :: "decoder \<Rightarrow> bool \<times> decoder" where
  "More d =
     (case peek d of
        (Inl e, d) \<Rightarrow> (False, d)
      | (Inr c, d) \<Rightarrow> (c \<noteq> CHR '']'' \<and> c \<noteq> CHR ''}'', d))"



subsection \<open>What a scalar consumes\<close>

text \<open>
  Scanning is determined by the bytes it consumes: put anything after them that cannot continue the scalar, and
  the same scalar is scanned.
\<close>

lemma scan_hex_again:
  assumes "scan_hex (b @ CHR 0x22 # r) = None"
  shows "scan_hex (b @ r') = None"
proof -
  have h: "list_all (\<lambda>c. hex_value c \<noteq> None) (take 4 (b @ CHR 0x22 # r))" "4 \<le> length (b @ CHR 0x22 # r)"
    using assms by (auto simp: scan_hex_def list_all_iff dropWhile_eq_Nil_conv split: list.splits if_splits)
  have "4 \<le> length b"
  proof (rule ccontr)
    assume "\<not> 4 \<le> length b"
    then have "CHR 0x22 \<in> set (take 4 (b @ CHR 0x22 # r))" by (cases "4 - length b") auto
    then have "hex_value (CHR 0x22) \<noteq> None" using h(1) unfolding list_all_iff by blast
    then show False by (simp add: hex_value_def)
  qed
  then have t: "take 4 (b @ r') = take 4 (b @ CHR 0x22 # r)" by simp
  have "dropWhile (\<lambda>c. hex_value c \<noteq> None) (take 4 (b @ r')) = []"
    using h(1) unfolding t dropWhile_eq_Nil_conv list_all_iff .
  then have "scan_hex (b @ r') = (if length (b @ r') < 4 then Some ErrUnexpectedEOF else None)"
    by (simp only: scan_hex_def list.case)
  then show ?thesis using \<open>4 \<le> length b\<close> by simp
qed

lemma scan_string_prefix: "scan_string s = Inr (body, r) \<Longrightarrow> s = body @ CHR 0x22 # r"
proof (induction s arbitrary: body rule: scan_string.induct)
  case (2 c s)
  then show ?case
    by (auto split: if_splits list.splits option.splits sum.splits prod.splits)
qed simp

lemma scan_string_again: "scan_string s = Inr (body, r) \<Longrightarrow> scan_string (body @ CHR 0x22 # r') = Inr (body, r')"
proof (induction s arbitrary: body rule: scan_string.induct)
  case (2 c s)
  consider "c = CHR 0x22" | "c \<noteq> CHR 0x22" "c = CHR 0x5C" | "c \<noteq> CHR 0x22" "c \<noteq> CHR 0x5C" by blast
  then show ?case
  proof cases
    case 2
    with "2.prems" obtain e s' b where s: "s = e # s'" "body = c # e # b"
      and e: "e \<in> set [CHR ''b'', CHR ''f'', CHR ''n'', CHR ''r'', CHR ''t'', CHR 0x5C, CHR ''/'', CHR 0x22, CHR ''u'']"
      and h: "(if e = CHR ''u'' then scan_hex s' else None) = None" and b: "scan_string s' = Inr (b, r)"
      by (auto split: if_splits list.splits option.splits sum.splits prod.splits)
    have "scan_string (b @ CHR 0x22 # r') = Inr (b, r')" using "2.IH"(1) [of e s'] 2 s e h b by simp
    moreover have "(if e = CHR ''u'' then scan_hex (b @ CHR 0x22 # r') else None) = None"
      using h scan_string_prefix [OF b] scan_hex_again [of b r] by (simp split: if_splits)
    ultimately show ?thesis using 2 s e by simp
  next
    case 3
    with "2.prems" obtain b where s: "body = c # b" "\<not> (of_char c :: nat) < 0x20" "scan_string s = Inr (b, r)"
      by (auto split: if_splits sum.splits prod.splits)
    then have "scan_string (b @ CHR 0x22 # r') = Inr (b, r')" using "2.IH"(2) 3 by blast
    then show ?thesis using 3 s by simp
  qed (use "2.prems" in auto)
qed simp

definition no_digit :: "string \<Rightarrow> bool" where
  "no_digit r \<longleftrightarrow> r = [] \<or> \<not> digit (hd r)"

lemma digits1_again:
  assumes "digits1 s = Inr (d, r)"
  shows "s = d @ r \<and> d \<noteq> [] \<and> (\<forall>r'. no_digit r' \<longrightarrow> digits1 (d @ r') = Inr (d, r'))"
proof -
  from assms obtain c s' where s: "s = c # s'" "digit c" "d = takeWhile digit s" "r = dropWhile digit s"
    by (auto simp: digits1_def digits_def split: list.splits if_splits)
  have "digits1 (d @ r') = Inr (d, r')" if "no_digit r'" for r'
  proof -
    have d: "\<forall>x \<in> set d. digit x" using s set_takeWhileD by metis
    have "takeWhile digit (d @ r') = d" "dropWhile digit (d @ r') = r'"
      using d that by (cases r'; simp add: no_digit_def)+
    moreover have "d = c # takeWhile digit s'" using s by simp
    ultimately show ?thesis using s(2) by (simp add: digits1_def digits_def)
  qed
  then show ?thesis using s by simp
qed

lemma scan_int_again:
  assumes "scan_int s = Inr (d, r)"
  shows "s = d @ r \<and> d \<noteq> [] \<and> (\<forall>r'. no_digit r' \<longrightarrow> scan_int (d @ r') = Inr (d, r'))"
proof (cases "take 1 s = ''0''")
  case True
  then show ?thesis using assms by (cases s) (auto simp: scan_int_def)
next
  case False
  then have "digits1 s = Inr (d, r)" using assms by (simp add: scan_int_def)
  from digits1_again [OF this] False show ?thesis by (cases d) (auto simp: scan_int_def)
qed

lemma scan_frac_again:
  assumes "scan_frac s = Inr (f, r)"
  shows "s = f @ r \<and> (f = [] \<or> hd f = CHR ''.'')
    \<and> (\<forall>r'. no_digit r' \<and> take 1 r' \<noteq> ''.'' \<longrightarrow> scan_frac (f @ r') = Inr (f, r'))"
proof (cases "take 1 s = ''.''")
  case True
  then obtain s' where s: "s = CHR ''.'' # s'" by (cases s) auto
  with assms obtain d where "digits1 s' = Inr (d, r)" "f = CHR ''.'' # d"
    by (auto simp: scan_frac_def split: sum.splits prod.splits)
  then show ?thesis using digits1_again s by (auto simp: scan_frac_def)
qed (use assms in \<open>auto simp: scan_frac_def\<close>)

lemma scan_exp_again:
  assumes "scan_exp s = Inr (x, r)"
  shows "s = x @ r \<and> (x = [] \<or> hd x = CHR ''e'' \<or> hd x = CHR ''E'')
    \<and> (\<forall>r'. no_digit r' \<and> take 1 r' \<noteq> ''e'' \<and> take 1 r' \<noteq> ''E'' \<longrightarrow> scan_exp (x @ r') = Inr (x, r'))"
proof (cases "take 1 s = ''e'' \<or> take 1 s = ''E''")
  case True
  define k :: nat where "k = (if take 1 (drop 1 s) = ''+'' \<or> take 1 (drop 1 s) = ''-'' then 2 else 1)"
  from assms obtain d where d: "digits1 (drop k s) = Inr (d, r)" "x = take k s @ d"
    unfolding scan_exp_def Let_def k_def [symmetric] if_P [OF True] by (auto split: sum.splits prod.splits)
  note a = digits1_again [OF d(1)]
  have k: "k \<le> length s" "0 < k"
    using True by (cases s; cases "tl s"; auto simp: k_def)+
  have dd: "digit (hd d)" using d(1) a by (cases "drop k s"; cases d) (auto simp: digits1_def split: if_splits)
  have "scan_exp (x @ r') = Inr (x, r')" if "no_digit r'" for r'
  proof -
    have len: "length (take k s) = k" using k by simp
    have "take 1 (x @ r') = take 1 s" using k d(2) by (cases s; cases k) auto
    moreover have "(take 1 (drop 1 (x @ r')) = ''+'' \<or> take 1 (drop 1 (x @ r')) = ''-'') \<longleftrightarrow> k = 2"
    proof (cases "k = 2")
      case True
      then obtain u v s' where "s = u # v # s'" using k by (cases s; cases "tl s") auto
      then show ?thesis using d(2) True by (auto simp: k_def split: if_splits)
    next
      case False
      then have "k = 1" by (simp add: k_def split: if_splits)
      then obtain u s' where "s = u # s'" using k by (cases s) auto
      then show ?thesis using d(2) a dd \<open>k = 1\<close> by (cases d) (auto simp: digit_def)
    qed
    moreover have "k = 2 \<or> k = 1" by (simp add: k_def)
    moreover have "drop k (x @ r') = d @ r'" "take k (x @ r') = take k s" using d(2) len by simp_all
    ultimately show ?thesis using True a that d(2) by (auto simp: scan_exp_def Let_def)
  qed
  moreover have "s = x @ r" using a d(2) append_take_drop_id [of k s] by simp
  moreover have "hd x = hd s" using k d(2) by (cases s; cases k) auto
  moreover have "hd s = CHR ''e'' \<or> hd s = CHR ''E''" using True by (cases s) auto
  ultimately show ?thesis by simp
qed (use assms in \<open>auto simp: scan_exp_def\<close>)

text \<open>What may follow a scalar in a text.\<close>

definition stops :: "string \<Rightarrow> bool" where
  "stops r \<longleftrightarrow> r = [] \<or> json_space (hd r) \<or> hd r \<in> set '',:]}''"

lemma stops_number: "stops r \<Longrightarrow> no_digit r \<and> take 1 r \<noteq> ''.'' \<and> take 1 r \<noteq> ''e'' \<and> take 1 r \<noteq> ''E''"
  by (cases r) (auto simp: stops_def no_digit_def digit_def json_space_def)

lemma scan_number_again:
  assumes "scan_number s = Inr (v, r)"
  shows "s = v @ r \<and> v \<noteq> [] \<and> (stops r' \<longrightarrow> scan_number (v @ r') = Inr (v, r'))"
proof -
  define sign where "sign = (if take 1 s = ''-'' then ''-'' else [])"
  from assms obtain i s1 f s2 x where p: "scan_int (drop (length sign) s) = Inr (i, s1)"
      "scan_frac s1 = Inr (f, s2)" "scan_exp s2 = Inr (x, r)" "v = sign @ i @ f @ x"
    unfolding scan_number_def Let_def sign_def [symmetric] by (auto split: sum.splits prod.splits)
  note i = scan_int_again [OF p(1)] and f = scan_frac_again [OF p(2)] and x = scan_exp_again [OF p(3)]
  have s: "s = sign @ drop (length sign) s" by (cases s) (auto simp: sign_def)
  have "scan_number (v @ r') = Inr (v, r')" if "stops r'"
  proof -
    note st = stops_number [OF that]
    have x': "scan_exp (x @ r') = Inr (x, r')" using x st by blast
    have "no_digit (x @ r') \<and> take 1 (x @ r') \<noteq> ''.''"
      using x st by (cases x) (auto simp: no_digit_def digit_def)
    then have f': "scan_frac (f @ x @ r') = Inr (f, x @ r')" using f by blast
    have "no_digit (f @ x @ r')"
      using f \<open>no_digit (x @ r') \<and> _\<close> by (cases f) (auto simp: no_digit_def digit_def)
    then have i': "scan_int (i @ f @ x @ r') = Inr (i, f @ x @ r')" using i by blast
    have "i \<noteq> []" "drop (length sign) s = i @ s1" using i by simp_all
    then have "(if take 1 (v @ r') = ''-'' then ''-'' else []) = sign"
      using p(4) by (cases i; cases s) (auto simp: sign_def split: if_splits)
    then show ?thesis using p(4) i' f' x' by (simp add: scan_number_def Let_def)
  qed
  then show ?thesis using i f x p(4) s by simp
qed

lemma scan_word_again: "scan_word w s = Inr r \<longleftrightarrow> s = w @ r"
  by (induction w s rule: scan_word.induct) auto

text \<open>A scalar stands at the head of its input and is scanned again before anything that stops it.\<close>

lemma decode_string_again:
  assumes "decode_string (CHR 0x22 # s) = Inr (v, r)"
  shows "\<exists>b. s = b @ CHR 0x22 # r \<and> decode_string (CHR 0x22 # b @ CHR 0x22 # r') = Inr (v, r')"
proof -
  from assms obtain b where "scan_string s = Inr (b, r)" "v = unquote b"
    by (auto simp: decode_string_def split: sum.splits)
  then show ?thesis using scan_string_prefix scan_string_again by (fastforce simp: decode_string_def)
qed

lemma word_token_again:
  assumes "word_token w t s = Inr (t', r)"
  shows "s = w @ r \<and> t' = t \<and> word_token w t (w @ r') = Inr (t, r')"
proof -
  from assms have "scan_word w s = Inr r" "t' = t" by (auto simp: word_token_def split: sum.splits)
  moreover from this have "s = w @ r" by (simp only: scan_word_again)
  moreover have "scan_word w (w @ r') = Inr r'" by (simp only: scan_word_again)
  ultimately show ?thesis by (simp add: word_token_def)
qed

text \<open>The bytes of a scalar, on their own.\<close>

definition scalar_text :: "string \<Rightarrow> json_token \<Rightarrow> bool" where
  "scalar_text p t \<longleftrightarrow> decode_scalar p = Inr (t, [])"

definition key_text :: "string \<Rightarrow> string \<Rightarrow> bool" where
  "key_text p name \<longleftrightarrow> take 1 p = [CHR 0x22] \<and> decode_string p = Inr (name, [])"

lemma decode_string_key:
  assumes "decode_string s = Inr (v, r)" "take 1 s = [CHR 0x22]"
  obtains p where "s = p @ r" "key_text p v"
proof -
  from assms(2) obtain s' where s: "s = CHR 0x22 # s'" by (cases s) auto
  from decode_string_again [OF assms(1) [unfolded s], of "[]"] obtain b where
    "s' = b @ CHR 0x22 # r" "decode_string (CHR 0x22 # b @ [CHR 0x22]) = Inr (v, [])" by blast
  then show thesis using that [of "CHR 0x22 # b @ [CHR 0x22]"] s by (simp add: key_text_def)
qed

lemma key_text_again:
  assumes "key_text p v"
  shows "\<exists>p'. p = CHR 0x22 # p'" "decode_string (p @ r) = Inr (v, r)"
proof -
  from assms obtain p' where p: "p = CHR 0x22 # p'" by (cases p) (auto simp: key_text_def)
  then show "\<exists>p'. p = CHR 0x22 # p'" by blast
  from assms decode_string_again [of p' v "[]" r] show "decode_string (p @ r) = Inr (v, r)"
    by (auto simp: key_text_def p)
qed

lemma decode_scalar_cases:
  assumes "decode_scalar s = Inr (t, r)"
  obtains (str) p v where "s = p @ r" "key_text p v" "t = StringToken v"
  | (num) v where "scan_number s = Inr (v, r)" "t = NumberToken v" "hd s = CHR ''-'' \<or> digit (hd s)" "s \<noteq> []"
  | (word) w where "s = w @ r" "(w, t) \<in> {(''true'', BoolToken True), (''false'', BoolToken False), (''null'', NullToken)}"
proof -
  from assms obtain c s' where s: "s = c # s'" by (cases s) (auto simp: decode_scalar_def)
  consider "c = CHR 0x22" | "c \<noteq> CHR 0x22" "c = CHR ''-'' \<or> digit c" | "c \<noteq> CHR 0x22" "\<not> (c = CHR ''-'' \<or> digit c)" by blast
  then show thesis
  proof cases
    case 1
    with assms obtain v where "decode_string s = Inr (v, r)" "t = StringToken v"
      by (auto simp: decode_scalar_def s split: sum.splits)
    moreover have "take 1 s = [CHR 0x22]" using 1 s by simp
    ultimately show thesis using str decode_string_key by metis
  next
    case 2
    with assms obtain v where "scan_number s = Inr (v, r)" "t = NumberToken v"
      by (auto simp: decode_scalar_def s split: sum.splits)
    then show thesis using num 2(2) s by simp
  next
    case 3
    with assms have "word_token ''true'' (BoolToken True) s = Inr (t, r)
        \<or> word_token ''false'' (BoolToken False) s = Inr (t, r) \<or> word_token ''null'' NullToken s = Inr (t, r)"
      by (simp add: decode_scalar_def s split: if_splits)
    then show thesis using word word_token_again by blast
  qed
qed

lemma decode_scalar_intro:
  "key_text p v \<Longrightarrow> decode_scalar (p @ r) = Inr (StringToken v, r)"
  "scan_number s = Inr (v, r) \<Longrightarrow> hd s = CHR ''-'' \<or> digit (hd s) \<Longrightarrow> s \<noteq> [] \<Longrightarrow> decode_scalar s = Inr (NumberToken v, r)"
  "(w, t) \<in> {(''true'', BoolToken True), (''false'', BoolToken False), (''null'', NullToken)} \<Longrightarrow>
    decode_scalar (w @ r) = Inr (t, r)"
proof -
  assume "key_text p v"
  with key_text_again show "decode_scalar (p @ r) = Inr (StringToken v, r)"
    by (fastforce simp: decode_scalar_def)
next
  assume "scan_number s = Inr (v, r)" "hd s = CHR ''-'' \<or> digit (hd s)" "s \<noteq> []"
  then show "decode_scalar s = Inr (NumberToken v, r)"
    by (cases s) (auto simp: decode_scalar_def digit_def)
next
  assume "(w, t) \<in> {(''true'', BoolToken True), (''false'', BoolToken False), (''null'', NullToken)}"
  then show "decode_scalar (w @ r) = Inr (t, r)"
    by (auto simp: decode_scalar_def digit_def word_token_def)
qed

text \<open>The first byte of a value: no space, no separator and no closing delimiter.\<close>

definition starts :: "string \<Rightarrow> bool" where
  "starts p \<longleftrightarrow> p \<noteq> [] \<and> \<not> json_space (hd p) \<and> hd p \<notin> set '',:]}''"

lemma decode_scalar_again:
  assumes "decode_scalar s = Inr (t, r)"
  obtains p where "s = p @ r" "starts p" "hd p \<notin> set ''[{''" "scalar_text p t"
    "\<And>r'. stops r' \<Longrightarrow> decode_scalar (p @ r') = Inr (t, r')"
  using assms
proof (cases rule: decode_scalar_cases)
  case (str p v)
  obtain p' where "p = CHR 0x22 # p'" using key_text_again(1) [OF str(2)] by blast
  then show thesis
    using that [of p] str decode_scalar_intro(1) [OF str(2)] decode_scalar_intro(1) [OF str(2), of "[]"]
    by (auto simp: starts_def scalar_text_def json_space_def)
next
  case (num v)
  have v: "s = v @ r" "v \<noteq> []" "stops r' \<Longrightarrow> scan_number (v @ r') = Inr (v, r')" for r'
    using scan_number_again [OF num(1)] by auto
  have hd: "hd v = CHR ''-'' \<or> digit (hd v)" using num(3) v by simp
  have d: "decode_scalar (v @ r') = Inr (t, r')" if "stops r'" for r'
    using decode_scalar_intro(2) [OF v(3) [OF that]] hd v(2) num(2) by simp
  moreover have "starts v" "hd v \<notin> set ''[{''"
    using hd v(2) by (auto simp: starts_def digit_def json_space_def)
  moreover have "scalar_text v t" using d [of "[]"] by (simp add: scalar_text_def stops_def)
  ultimately show thesis using that v(1) by blast
next
  case (word w)
  then have "starts w" "hd w \<notin> set ''[{''" by (auto simp: starts_def json_space_def)
  moreover have "scalar_text w t" using decode_scalar_intro(3) [OF word(2), of "[]"] by (simp add: scalar_text_def)
  ultimately show thesis using that word decode_scalar_intro(3) [OF word(2)] by blast
qed

lemma scalar_text_again:
  assumes "scalar_text p t"
  shows "starts p" "hd p \<notin> set ''[{''" "stops r \<Longrightarrow> decode_scalar (p @ r) = Inr (t, r)" "t \<noteq> Delim c"
proof -
  from assms have d: "decode_scalar p = Inr (t, [])" by (simp add: scalar_text_def)
  show "starts p" "hd p \<notin> set ''[{''" "stops r \<Longrightarrow> decode_scalar (p @ r) = Inr (t, r)"
    using decode_scalar_again [OF d] by auto
  show "t \<noteq> Delim c" using d by (cases rule: decode_scalar_cases) auto
qed


subsection \<open>One token\<close>

text \<open>The separators before a value or a key, by the state the decoder is in, and the state after them.\<close>

definition spaces :: "string \<Rightarrow> bool" where
  "spaces w \<longleftrightarrow> list_all json_space w"

fun after_separator :: "token_state \<Rightarrow> token_state" where
  "after_separator TokenArrayComma = TokenArrayValue"
| "after_separator TokenObjectComma = TokenObjectKey"
| "after_separator TokenObjectColon = TokenObjectValue"
| "after_separator st = st"

fun separator :: "token_state \<Rightarrow> char option" where
  "separator TokenArrayComma = Some CHR '',''"
| "separator TokenObjectComma = Some CHR '',''"
| "separator TokenObjectColon = Some CHR '':''"
| "separator st = None"

definition lead :: "token_state \<Rightarrow> string \<Rightarrow> bool" where
  "lead st l \<longleftrightarrow>
     (case separator st of
        None \<Rightarrow> spaces l
      | Some c \<Rightarrow> (\<exists>w w'. l = w @ c # w' \<and> spaces w \<and> spaces w'))"

text \<open>The token at a byte that is neither a separator nor a closing delimiter.\<close>

definition token_at :: "char \<Rightarrow> decoder \<Rightarrow> (json_error + json_token) \<times> decoder" where
  "token_at c d =
     (if c = CHR ''['' then open_token c TokenArrayStart d
      else if c = CHR ''{'' then open_token c TokenObjectStart d
      else if c = CHR 0x22 \<and> (dec_state d = TokenObjectStart \<or> dec_state d = TokenObjectKey) then key_token d
      else value_token c d)"

lemma dropWhile_spaces: "spaces w \<Longrightarrow> dropWhile json_space (w @ s) = dropWhile json_space s"
  by (induction w) (auto simp: spaces_def)

lemma spaces_split: obtains w where "spaces w" "s = w @ dropWhile json_space s"
proof
  show "spaces (takeWhile json_space s)" by (auto simp: spaces_def list_all_iff dest: set_takeWhileD)
qed simp

lemma dropWhile_starts: "starts s \<Longrightarrow> dropWhile json_space s = s"
  by (cases s) (auto simp: starts_def)

lemma peek_starts: "spaces w \<Longrightarrow> starts s \<Longrightarrow> dec_in d = w @ s \<Longrightarrow> peek d = (Inr (hd s), d\<lparr>dec_in := s\<rparr>)"
  by (cases s) (auto simp: peek_def dropWhile_spaces dropWhile_starts starts_def)

lemma peek_char: "spaces w \<Longrightarrow> \<not> json_space c \<Longrightarrow> dec_in d = w @ c # s \<Longrightarrow> peek d = (Inr c, d\<lparr>dec_in := c # s\<rparr>)"
  by (simp add: peek_def dropWhile_spaces)

lemma Token_starts:
  assumes "spaces w" "starts s" "dec_in d = w @ s"
  shows "Token d = token_at (hd s) (d\<lparr>dec_in := s\<rparr>)"
  using assms(2) peek_starts [OF assms] by (subst Token.simps) (auto simp: token_at_def starts_def)

lemma json_space_simps [simp]:
  "\<not> json_space (CHR '','')" "\<not> json_space (CHR '':'')" "\<not> json_space (CHR '']'')" "\<not> json_space (CHR ''}'')"
  by (simp_all add: json_space_def)

lemma decoder_updates [simp]:
  "d\<lparr>dec_state := st, dec_in := s\<rparr> = (d :: decoder)\<lparr>dec_in := s, dec_state := st\<rparr>"
  by (cases d) simp

lemma Token_lead:
  assumes "lead (dec_state d) l" "starts s" "dec_in d = l @ s"
  shows "Token d = token_at (hd s) (d\<lparr>dec_in := s, dec_state := after_separator (dec_state d)\<rparr>)"
proof (cases "separator (dec_state d)")
  case None
  then have "after_separator (dec_state d) = dec_state d" by (cases "dec_state d") auto
  moreover have "spaces l" using assms(1) None by (simp add: lead_def)
  ultimately show ?thesis using Token_starts [OF _ assms(2,3)] by simp
next
  case (Some c)
  then obtain w w' where l: "l = w @ c # w'" "spaces w" "spaces w'" using assms(1) by (auto simp: lead_def)
  have c: "\<not> json_space c" using Some by (cases "dec_state d") auto
  have "peek d = (Inr c, d\<lparr>dec_in := c # w' @ s\<rparr>)" using peek_char [OF l(2) c] assms(3) l(1) by simp
  then have "Token d = Token (d\<lparr>dec_in := w' @ s, dec_state := after_separator (dec_state d)\<rparr>)"
    using Some by (subst Token.simps) (cases "dec_state d"; auto simp: advance_def)
  then show ?thesis using Token_starts [OF l(3) assms(2)] by simp
qed

text \<open>Conversely, a token that is no closing delimiter comes after the separators its state asks for.\<close>

definition between :: "token_state \<Rightarrow> bool" where
  "between st \<longleftrightarrow> st \<noteq> TokenArrayValue \<and> st \<noteq> TokenObjectKey \<and> st \<noteq> TokenObjectValue"

lemma close_states:
  "close_token c [TokenArrayStart, TokenArrayComma] d = (Inr t, d') \<Longrightarrow> dec_state d = TokenArrayStart \<or> dec_state d = TokenArrayComma"
  "close_token c [TokenObjectStart, TokenObjectComma] d = (Inr t, d') \<Longrightarrow> dec_state d = TokenObjectStart \<or> dec_state d = TokenObjectComma"
  by (auto simp: close_token_def split: if_splits)

lemma Token_plain:
  assumes "Token d = (Inr t, d')" and "\<not> between (dec_state d)"
  obtains l s where "spaces l" "dec_in d = l @ s" "starts s"
    "token_at (hd s) (d\<lparr>dec_in := s\<rparr>) = (Inr t, d')"
proof -
  obtain w where w: "spaces w" "dec_in d = w @ dropWhile json_space (dec_in d)" by (rule spaces_split)
  obtain c s where s: "dropWhile json_space (dec_in d) = c # s"
    using assms(1) by (cases "dropWhile json_space (dec_in d)") (auto simp: Token.simps [of d] peek_def)
  then have c: "\<not> json_space c" by (metis hd_dropWhile list.discI list.sel(1))
  have p: "peek d = (Inr c, d\<lparr>dec_in := c # s\<rparr>)" using s by (simp add: peek_def)
  have "c \<notin> set '',:]}''"
    using assms p by (auto simp: Token.simps [of d] between_def close_token_def)
  then have "starts (c # s)" using c by (simp add: starts_def)
  then show thesis using that [OF w(1), of "c # s"] Token_starts [OF w(1), of "c # s" d] w(2) s assms(1) by simp
qed

lemma Token_cases:
  assumes "Token d = (Inr t, d')" and "between (dec_state d)"
  obtains (close) c s w where "spaces w" "dec_in d = w @ c # s" "c = CHR '']'' \<or> c = CHR ''}''" "t = Delim c"
      "dec_state d \<in> (if c = CHR '']'' then {TokenArrayStart, TokenArrayComma} else {TokenObjectStart, TokenObjectComma})"
      "d' = \<lparr>dec_in = s, dec_state = tokenValueEnd (hd (dec_stack d)), dec_stack = tl (dec_stack d)\<rparr>"
  | (item) l s where "lead (dec_state d) l" "dec_in d = l @ s" "starts s"
      "token_at (hd s) (d\<lparr>dec_in := s, dec_state := after_separator (dec_state d)\<rparr>) = (Inr t, d')"
proof -
  obtain w where w: "spaces w" "dec_in d = w @ dropWhile json_space (dec_in d)" by (rule spaces_split)
  obtain c s where s: "dropWhile json_space (dec_in d) = c # s"
    using assms(1) by (cases "dropWhile json_space (dec_in d)") (auto simp: Token.simps [of d] peek_def)
  then have c: "\<not> json_space c" by (metis hd_dropWhile list.discI list.sel(1))
  have p: "peek d = (Inr c, d\<lparr>dec_in := c # s\<rparr>)" using s by (simp add: peek_def)
  have dw: "dec_in d = w @ c # s" using w(2) s by simp
  consider "c = CHR '']'' \<or> c = CHR ''}''" | "c = CHR '','' \<or> c = CHR '':''" | "c \<notin> set '',:]}''" by auto
  then show thesis
  proof cases
    case 1
    then show thesis
      using close [OF w(1) dw] assms(1) p
      by (subst (asm) Token.simps) (auto simp: close_token_def split: if_splits)
  next
    case 2
    let ?d = "d\<lparr>dec_in := s, dec_state := after_separator (dec_state d)\<rparr>"
    from 2 assms(1) p have sep: "separator (dec_state d) = Some c" and tk: "Token ?d = (Inr t, d')"
      by (auto simp: Token.simps [of d] advance_def split: if_splits)
    have "\<not> between (dec_state ?d)" using sep by (cases "dec_state d") (auto simp: between_def)
    from Token_plain [OF tk this] obtain l s' where
      l: "spaces l" "s = l @ s'" "starts s'" "token_at (hd s') (?d\<lparr>dec_in := s'\<rparr>) = (Inr t, d')" by auto
    moreover have "lead (dec_state d) (w @ c # l)" using sep w(1) l(1) by (auto simp: lead_def)
    ultimately show thesis using item [of "w @ c # l" s'] dw by simp
  next
    case 3
    then have st: "starts (c # s)" using c by (simp add: starts_def)
    have tk: "token_at c (d\<lparr>dec_in := c # s\<rparr>) = (Inr t, d')"
      using Token_starts [OF w(1) st, of d] dw assms(1) by simp
    have "separator (dec_state d) = None"
    proof (rule ccontr)
      assume "separator (dec_state d) \<noteq> None"
      then have "dec_state d \<in> {TokenArrayComma, TokenObjectComma, TokenObjectColon}" by (cases "dec_state d") auto
      then show False
        using tk by (auto simp: token_at_def open_token_def value_token_def tokenValueAllowed_def split: if_splits)
    qed
    moreover from this have "after_separator (dec_state d) = dec_state d" by (cases "dec_state d") auto
    ultimately show thesis using item [of w "c # s"] st dw tk w(1) by (simp add: lead_def)
  qed
qed

lemma token_at_cases:
  assumes "token_at c d = (Inr t, d')" "dec_in d = c # s"
  obtains (array) "c = CHR ''[''" "t = Delim c" "tokenValueAllowed (dec_state d)"
      "d' = \<lparr>dec_in = s, dec_state = TokenArrayStart, dec_stack = dec_state d # dec_stack d\<rparr>"
  | (object) "c = CHR ''{''" "t = Delim c" "tokenValueAllowed (dec_state d)"
      "d' = \<lparr>dec_in = s, dec_state = TokenObjectStart, dec_stack = dec_state d # dec_stack d\<rparr>"
  | (key) p v where "c # s = p @ dec_in d'" "key_text p v" "t = StringToken v"
      "dec_state d = TokenObjectStart \<or> dec_state d = TokenObjectKey"
      "d' = d\<lparr>dec_in := dec_in d', dec_state := TokenObjectColon\<rparr>"
  | (scalar) p where "c # s = p @ dec_in d'" "scalar_text p t" "tokenValueAllowed (dec_state d)"
      "d' = d\<lparr>dec_in := dec_in d', dec_state := tokenValueEnd (dec_state d)\<rparr>"
proof -
  consider "c = CHR ''[''" | "c = CHR ''{''" | "c \<noteq> CHR ''[''" "c \<noteq> CHR ''{''" by blast
  then show thesis
  proof cases
    case 3
    show thesis
    proof (cases "c = CHR 0x22 \<and> (dec_state d = TokenObjectStart \<or> dec_state d = TokenObjectKey)")
      case True
      then obtain v r where v: "decode_string (c # s) = Inr (v, r)" "t = StringToken v"
          "d' = d\<lparr>dec_in := r, dec_state := TokenObjectColon\<rparr>"
        using assms 3 by (auto simp: token_at_def key_token_def split: sum.splits)
      from decode_string_key [OF v(1)] True obtain p where "c # s = p @ r" "key_text p v" by auto
      then show thesis using key [of p v] v True by simp
    next
      case False
      then have "value_token c d = (Inr t, d')" using assms(1) 3 by (simp only: token_at_def if_False)
      then obtain r where r: "tokenValueAllowed (dec_state d)" "decode_scalar (c # s) = Inr (t, r)"
          "d' = d\<lparr>dec_in := r, dec_state := tokenValueEnd (dec_state d)\<rparr>"
        using assms(2) by (auto simp: value_token_def split: sum.splits if_splits)
      from decode_scalar_again [OF r(2)] obtain p where "c # s = p @ r" "scalar_text p t" by metis
      then show thesis using scalar [of p] r by simp
    qed
  qed (use assms array object in \<open>auto simp: token_at_def open_token_def split: if_splits\<close>)
qed

lemma key_text_not_Nil: "key_text p v \<Longrightarrow> p \<noteq> []"
  by (auto simp: key_text_def)

lemma scalar_text_not_Nil: "scalar_text p t \<Longrightarrow> p \<noteq> []"
  by (auto simp: scalar_text_def decode_scalar_def)

lemma token_at_progress:
  assumes "token_at (hd s) (d\<lparr>dec_in := s, dec_state := st\<rparr>) = (Inr t, d')" "s \<noteq> []"
  shows "length (dec_in d') < length s"
proof -
  obtain c s' where s: "s = c # s'" using assms(2) by (cases s) auto
  from assms(1) have "token_at c (d\<lparr>dec_in := s, dec_state := st\<rparr>) = (Inr t, d')" by (simp add: s)
  then show ?thesis
  proof (rule token_at_cases [where s = s'])
    fix p v assume p: "c # s' = p @ dec_in d'" "key_text p v"
    then have "length s = length p + length (dec_in d')" "p \<noteq> []" using s key_text_not_Nil by (metis length_append)+
    then show ?thesis by simp
  next
    fix p assume p: "c # s' = p @ dec_in d'" "scalar_text p t"
    then have "length s = length p + length (dec_in d')" "p \<noteq> []" using s scalar_text_not_Nil by (metis length_append)+
    then show ?thesis by simp
  qed (simp_all add: s)
qed

lemma Token_progress:
  assumes "Token d = (Inr t, d')"
  shows "length (dec_in d') < length (dec_in d)"
proof (cases "between (dec_state d)")
  case True
  show ?thesis
    using assms True
  proof (cases rule: Token_cases)
    case (item l s)
    then show ?thesis using token_at_progress [OF item(4)] by (simp add: starts_def)
  qed simp
next
  case False
  from Token_plain [OF assms False] obtain l s where "dec_in d = l @ s" "starts s"
      "token_at (hd s) (d\<lparr>dec_in := s, dec_state := dec_state d\<rparr>) = (Inr t, d')" by simp metis
  then show ?thesis using token_at_progress [of s "dec_state d" d t d'] by (simp add: starts_def)
qed

lemma More_length: "More d = (b, d') \<Longrightarrow> length (dec_in d') \<le> length (dec_in d)"
  using dropWhile_length [of json_space "dec_in d"]
  by (auto simp: More_def peek_def split: list.splits)


section \<open>The check\<close>

datatype member_error = ErrDuplicateJWTMember | JSONError json_error | NonStringKey | TrailingData

text \<open>
  The loops over the members of an object, with the names seen so far, and over the elements of an array are
  functions of their own; each iteration is a call of the function on the member's or element's value. A value that
  passes consumes input, so the loops end.
\<close>

function rejectDuplicateJSONObjectMembers :: "decoder \<Rightarrow> member_error option \<times> decoder"
  and members_loop :: "string set \<Rightarrow> decoder \<Rightarrow> member_error option \<times> decoder"
  and elements_loop :: "decoder \<Rightarrow> member_error option \<times> decoder" where
  "rejectDuplicateJSONObjectMembers d0 =
     (case Token d0 of
        (Inl e, d) \<Rightarrow> (Some (JSONError e), d)
      | (Inr t, d) \<Rightarrow>
          (case t of
             Delim c \<Rightarrow>
               (case (if c = CHR ''{'' then members_loop {} d
                      else if c = CHR ''['' then elements_loop d else (None, d)) of
                  (Some e, d) \<Rightarrow> (Some e, d)
                | (None, d) \<Rightarrow>
                    (case Token d of
                       (Inl e, d) \<Rightarrow> (Some (JSONError e), d)
                     | (Inr _, d) \<Rightarrow> (None, d)))
           | _ \<Rightarrow> (None, d)))"
| "members_loop seen d0 =
     (case More d0 of
        (False, d) \<Rightarrow> (None, d)
      | (True, d) \<Rightarrow>
          (case Token d of
             (Inl e, d) \<Rightarrow> (Some (JSONError e), d)
           | (Inr t, d) \<Rightarrow>
               (case t of
                  StringToken name \<Rightarrow>
                    if name \<in> seen then (Some ErrDuplicateJWTMember, d)
                    else (case rejectDuplicateJSONObjectMembers d of
                            (Some e, d) \<Rightarrow> (Some e, d)
                          | (None, d) \<Rightarrow> members_loop (insert name seen) d)
                | _ \<Rightarrow> (Some NonStringKey, d))))"
| "elements_loop d0 =
     (case More d0 of
        (False, d) \<Rightarrow> (None, d)
      | (True, d) \<Rightarrow>
          (case rejectDuplicateJSONObjectMembers d of
             (Some e, d) \<Rightarrow> (Some e, d)
           | (None, d) \<Rightarrow> elements_loop d))"
  by pat_completeness auto


termination
proof -
  have shrinks:
    "rejectDuplicateJSONObjectMembers_members_loop_elements_loop_dom (Inl d) \<Longrightarrow>
       rejectDuplicateJSONObjectMembers d = (None, d') \<Longrightarrow> length (dec_in d') < length (dec_in d)"
    "rejectDuplicateJSONObjectMembers_members_loop_elements_loop_dom (Inr (Inl (seen, d))) \<Longrightarrow>
       members_loop seen d = (None, d') \<Longrightarrow> length (dec_in d') \<le> length (dec_in d)"
    "rejectDuplicateJSONObjectMembers_members_loop_elements_loop_dom (Inr (Inr d)) \<Longrightarrow>
       elements_loop d = (None, d') \<Longrightarrow> length (dec_in d') \<le> length (dec_in d)"
    for d d' seen
  proof (induction d and seen d and d arbitrary: d' and d' and d'
      rule: rejectDuplicateJSONObjectMembers_members_loop_elements_loop.pinduct)
    case (1 d0)
    note psimp = rejectDuplicateJSONObjectMembers.psimps [OF "1.hyps"]
    obtain t d1 where t: "Token d0 = (Inr t, d1)" "length (dec_in d1) < length (dec_in d0)"
      using "1.prems" Token_progress psimp by (cases "Token d0"; cases "fst (Token d0)") auto
    show ?case
    proof (cases t)
      case (Delim c)
      define loop where "loop = (if c = CHR ''{'' then members_loop {} d1 else if c = CHR ''['' then elements_loop d1 else (None, d1))"
      obtain d2 t2 where l: "loop = (None, d2)" "Token d2 = (Inr t2, d')"
        using "1.prems" unfolding psimp t(1) Delim prod.case sum.case json_token.case loop_def [symmetric]
        by (auto split: prod.splits option.splits sum.splits)
      have "length (dec_in d2) \<le> length (dec_in d1)"
        using l(1) "1.IH" [OF t(1) [symmetric] refl Delim] by (auto simp: loop_def split: if_splits)
      then show ?thesis using t Token_progress [OF l(2)] by simp
    qed (use "1.prems" psimp t in auto)
  next
    case (2 seen d0)
    note psimp = members_loop.psimps [OF "2.hyps"]
    obtain b d1 where m: "More d0 = (b, d1)" by (cases "More d0")
    note len = More_length [OF m]
    show ?case
    proof (cases b)
      case True
      then have T: "b = True" by simp
      obtain name d2 d3 where n: "Token d1 = (Inr (StringToken name), d2)" "name \<notin> seen"
        "rejectDuplicateJSONObjectMembers d2 = (None, d3)" "members_loop (insert name seen) d3 = (None, d')"
        using "2.prems" True unfolding psimp m by (auto split: prod.splits sum.splits json_token.splits if_splits option.splits)
      have "length (dec_in d3) < length (dec_in d2)"
        using "2.IH"(1) [OF m [symmetric] T n(1) [symmetric] refl refl n(2) n(3)] .
      moreover have "length (dec_in d') \<le> length (dec_in d3)"
        using "2.IH"(2) [OF m [symmetric] T n(1) [symmetric] refl refl n(2) n(3) [symmetric] refl n(4)] .
      ultimately show ?thesis using len Token_progress [OF n(1)] by simp
    qed (use "2.prems" psimp m len in auto)
  next
    case (3 d0)
    note psimp = elements_loop.psimps [OF "3.hyps"]
    obtain b d1 where m: "More d0 = (b, d1)" by (cases "More d0")
    note len = More_length [OF m]
    show ?case
    proof (cases b)
      case True
      then have T: "b = True" by simp
      obtain d2 where n: "rejectDuplicateJSONObjectMembers d1 = (None, d2)" "elements_loop d2 = (None, d')"
        using "3.prems" True unfolding psimp m by (auto split: prod.splits option.splits)
      have "length (dec_in d2) < length (dec_in d1)" using "3.IH"(1) [OF m [symmetric] T n(1)] .
      moreover have "length (dec_in d') \<le> length (dec_in d2)"
        using "3.IH"(2) [OF m [symmetric] T n(1) [symmetric] refl n(2)] .
      ultimately show ?thesis using len by simp
    qed (use "3.prems" psimp m len in auto)
  qed
  show ?thesis
  proof (relation "measure (\<lambda>x. case x of Inl d \<Rightarrow> 2 * length (dec_in d)
      | Inr (Inl (_, d)) \<Rightarrow> 2 * length (dec_in d) + 1 | Inr (Inr d) \<Rightarrow> 2 * length (dec_in d) + 1)")
  qed (auto dest!: Token_progress [OF sym] More_length [OF sym] shrinks(1) [OF _ sym])
qed

declare rejectDuplicateJSONObjectMembers.simps [simp del] members_loop.simps [simp del] elements_loop.simps [simp del]

definition rejectDuplicateJSONMembers :: "string \<Rightarrow> member_error option" where
  "rejectDuplicateJSONMembers raw =
     (case rejectDuplicateJSONObjectMembers (NewDecoder raw) of
        (Some e, d) \<Rightarrow> Some e
      | (None, d) \<Rightarrow>
          (case Token d of
             (Inr t, _) \<Rightarrow> Some TrailingData
           | (Inl e, _) \<Rightarrow> if e = EOF then None else Some (JSONError e)))"

text \<open>\<open>base64.RawURLEncoding.DecodeString\<close>: line breaks are skipped, no padding is allowed.\<close>

definition base64url_value :: "char \<Rightarrow> nat option" where
  "base64url_value c =
     (let b = of_char c :: nat in
      if 65 \<le> b \<and> b \<le> 90 then Some (b - 65)
      else if 97 \<le> b \<and> b \<le> 122 then Some (b - 71)
      else if 48 \<le> b \<and> b \<le> 57 then Some (b + 4)
      else if c = CHR ''-'' then Some 62 else if c = CHR ''_'' then Some 63 else None)"

fun base64_groups :: "nat list \<Rightarrow> nat list" where
  "base64_groups (a # b # c # d # r) =
     [a * 4 + b div 16, b mod 16 * 16 + c div 4, c mod 4 * 64 + d] @ base64_groups r"
| "base64_groups [a, b, c] = [a * 4 + b div 16, b mod 16 * 16 + c div 4]"
| "base64_groups [a, b] = [a * 4 + b div 16]"
| "base64_groups _ = []"

definition RawURLEncoding_DecodeString :: "string \<Rightarrow> string option" where
  "RawURLEncoding_DecodeString s =
     (let vs = map base64url_value (filter (\<lambda>c. c \<noteq> CHR 0x0A \<and> c \<noteq> CHR 0x0D) s) in
      if None \<in> set vs \<or> length vs mod 4 = 1 then None
      else Some (map char_of (base64_groups (map the vs))))"

text \<open>\<open>strings.Split\<close> with a separator of one byte.\<close>

fun Split :: "string \<Rightarrow> char \<Rightarrow> string list" where
  "Split [] sep = [[]]"
| "Split (c # s) sep =
     (if c = sep then [] # Split s sep
      else case Split s sep of [] \<Rightarrow> [[c]] | p # ps \<Rightarrow> (c # p) # ps)"

text \<open>The loop over the header and the payload returns at the first part that does not decode.\<close>

fun reject_parts :: "string list \<Rightarrow> member_error option" where
  "reject_parts [] = None"
| "reject_parts (part # parts) =
     (case RawURLEncoding_DecodeString part of
        None \<Rightarrow> None
      | Some raw \<Rightarrow>
          (case rejectDuplicateJSONMembers raw of
             Some e \<Rightarrow> Some e
           | None \<Rightarrow> reject_parts parts))"

definition rejectDuplicateJWTMembers :: "string \<Rightarrow> member_error option" where
  "rejectDuplicateJWTMembers tokenString =
     (let parts = Split tokenString (CHR ''.'') in
      if length parts \<noteq> 3 then None else reject_parts (take 2 parts))"

end
