(* ===== verification/JSON_Grammar.thy ===== *)
theory JSON_Grammar
  imports JSON_Members
begin

text \<open>
  The reference for the duplicate-member check: JSON texts as an inductive relation between a byte string and
  the tree it denotes (RFC 8259: space around tokens, elements and members separated by commas, scalars as the
  scanner reads them), and the condition that no object of the tree has two members of the same name. The token
  loop of \<open>rejectDuplicateJSONObjectMembers\<close> accepts exactly the texts of such trees.
\<close>


section \<open>Texts and trees\<close>

datatype json = Scalar json_token | Array "json list" | Object "(string \<times> json) list"

inductive json_value :: "string \<Rightarrow> json \<Rightarrow> bool"
  and json_elements :: "string \<Rightarrow> json list \<Rightarrow> bool"
  and json_members :: "string \<Rightarrow> (string \<times> json) list \<Rightarrow> bool" where
  scalar: "scalar_text p t \<Longrightarrow> json_value p (Scalar t)"
| array_empty: "spaces w \<Longrightarrow> json_value (CHR ''['' # w @ '']'') (Array [])"
| array: "json_elements e ts \<Longrightarrow> json_value (CHR ''['' # e @ '']'') (Array ts)"
| object_empty: "spaces w \<Longrightarrow> json_value (CHR ''{'' # w @ ''}'') (Object [])"
| object: "json_members m ms \<Longrightarrow> json_value (CHR ''{'' # m @ ''}'') (Object ms)"
| element: "spaces w \<Longrightarrow> json_value p t \<Longrightarrow> spaces w' \<Longrightarrow> json_elements (w @ p @ w') [t]"
| elements: "spaces w \<Longrightarrow> json_value p t \<Longrightarrow> spaces w' \<Longrightarrow> json_elements e ts \<Longrightarrow>
    json_elements (w @ p @ w' @ CHR '','' # e) (t # ts)"
| member_pair: "spaces w \<Longrightarrow> key_text k name \<Longrightarrow> spaces w1 \<Longrightarrow> spaces w2 \<Longrightarrow> json_value p t \<Longrightarrow> spaces w' \<Longrightarrow>
    json_members (w @ k @ w1 @ CHR '':'' # w2 @ p @ w') [(name, t)]"
| member_pairs: "spaces w \<Longrightarrow> key_text k name \<Longrightarrow> spaces w1 \<Longrightarrow> spaces w2 \<Longrightarrow> json_value p t \<Longrightarrow> spaces w' \<Longrightarrow>
    json_members m ms \<Longrightarrow>
    json_members (w @ k @ w1 @ CHR '':'' # w2 @ p @ w' @ CHR '','' # m) ((name, t) # ms)"

definition json_text :: "string \<Rightarrow> json \<Rightarrow> bool" where
  "json_text s t \<longleftrightarrow> (\<exists>w p w'. s = w @ p @ w' \<and> spaces w \<and> json_value p t \<and> spaces w')"

fun distinct_members :: "json \<Rightarrow> bool" where
  "distinct_members (Scalar t) \<longleftrightarrow> True"
| "distinct_members (Array ts) \<longleftrightarrow> (\<forall>t \<in> set ts. distinct_members t)"
| "distinct_members (Object ms) \<longleftrightarrow> distinct (map fst ms) \<and> (\<forall>m \<in> set ms. distinct_members (snd m))"


section \<open>The check accepts the texts without duplicates\<close>

lemma spaces_simps [simp]: "spaces []" "spaces (v @ w) \<longleftrightarrow> spaces v \<and> spaces w"
  by (auto simp: spaces_def)

lemma json_value_starts: "json_value p t \<Longrightarrow> starts p"
  by (cases rule: json_value.cases) (auto simp: starts_def json_space_def dest: scalar_text_again(1))

lemma stops_spaces: "spaces w \<Longrightarrow> stops (w @ r) \<longleftrightarrow> w \<noteq> [] \<or> stops r"
  by (cases w) (auto simp: spaces_def stops_def)

lemma stops_Cons [simp]: "c \<in> set '',:]}'' \<Longrightarrow> stops (c # r)"
  by (simp add: stops_def)

text \<open>The states in which a value is read, and the state after it.\<close>

fun value_state :: "token_state \<Rightarrow> bool" where
  "value_state st = (st \<in> {TokenTopValue, TokenArrayStart, TokenArrayComma, TokenObjectColon})"

definition after_value :: "token_state \<Rightarrow> token_state" where
  "after_value st = tokenValueEnd (after_separator st)"

lemma value_state_allowed: "value_state st \<Longrightarrow> tokenValueAllowed (after_separator st)"
  by (auto simp: tokenValueAllowed_def)

lemma after_separator_key: "value_state st \<Longrightarrow> after_separator st \<noteq> TokenObjectStart \<and> after_separator st \<noteq> TokenObjectKey"
  by auto

lemma Token_close:
  assumes "spaces w" "dec_in d = w @ c # r"
    and "c = CHR '']'' \<and> (dec_state d = TokenArrayStart \<or> dec_state d = TokenArrayComma)
      \<or> c = CHR ''}'' \<and> (dec_state d = TokenObjectStart \<or> dec_state d = TokenObjectComma)"
  shows "Token d = (Inr (Delim c),
    \<lparr>dec_in = r, dec_state = tokenValueEnd (hd (dec_stack d)), dec_stack = tl (dec_stack d)\<rparr>)"
proof -
  have "\<not> json_space c" using assms(3) by (elim disjE conjE) simp_all
  from peek_char [OF assms(1) this assms(2)] have p: "peek d = (Inr c, d\<lparr>dec_in := c # r\<rparr>)" .
  from assms(3) show ?thesis
    by (elim disjE conjE) (simp_all add: Token.simps [of d] p close_token_def)
qed

lemma More_close: "spaces w \<Longrightarrow> dec_in d = w @ c # r \<Longrightarrow> c \<in> set '']}'' \<Longrightarrow> More d = (False, d\<lparr>dec_in := c # r\<rparr>)"
  using peek_char [of w c d r] by (simp add: More_def) (elim disjE; simp)

lemma More_starts: "spaces w \<Longrightarrow> starts s \<Longrightarrow> dec_in d = w @ s \<Longrightarrow> More d = (True, d\<lparr>dec_in := s\<rparr>)"
  using peek_starts [of w s d] by (auto simp: More_def starts_def)

lemma More_comma: "spaces w \<Longrightarrow> dec_in d = w @ CHR '','' # s \<Longrightarrow> More d = (True, d\<lparr>dec_in := CHR '','' # s\<rparr>)"
  using peek_char [of w "CHR '',''" d s] by (auto simp: More_def)

lemma lead_spaces: "lead st l \<Longrightarrow> spaces w \<Longrightarrow> lead st (l @ w)"
  by (cases "separator st") (fastforce simp: lead_def)+

lemma More_lead:
  assumes "lead (dec_state d) l" "dec_in d = l @ s" "starts s" "separator (dec_state d) \<noteq> Some CHR '':''"
  obtains l' where "More d = (True, d\<lparr>dec_in := l' @ s\<rparr>)" "lead (dec_state d) l'"
proof (cases "separator (dec_state d)")
  case None
  then have "spaces l" using assms(1) by (simp add: lead_def)
  from More_starts [OF this assms(3,2)] show thesis using that [of "[]"] None by (simp add: lead_def)
next
  case (Some c)
  then have c: "c = CHR '',''" using assms(4) by (cases "dec_state d") auto
  from Some obtain w w' where l: "l = w @ c # w'" "spaces w" "spaces w'" using assms(1) by (auto simp: lead_def)
  have "More d = (True, d\<lparr>dec_in := c # w' @ s\<rparr>)" using More_comma [OF l(2)] assms(2) l(1) c by simp
  moreover have "lead (dec_state d) (c # w')"
    using Some l(3) by (simp add: lead_def) (metis append_Nil spaces_simps(1))
  ultimately show thesis using that [of "c # w'"] by simp
qed

lemma reject_scalar: "Token d = (Inr t, d') \<Longrightarrow> \<forall>c. t \<noteq> Delim c \<Longrightarrow> rejectDuplicateJSONObjectMembers d = (None, d')"
  by (subst rejectDuplicateJSONObjectMembers.simps) (cases t; auto)

lemma reject_array:
  "Token d = (Inr (Delim CHR ''[''), d1) \<Longrightarrow> elements_loop d1 = (None, d2) \<Longrightarrow> Token d2 = (Inr t, d3) \<Longrightarrow>
   rejectDuplicateJSONObjectMembers d = (None, d3)"
  by (subst rejectDuplicateJSONObjectMembers.simps) simp

lemma reject_object:
  "Token d = (Inr (Delim CHR ''{''), d1) \<Longrightarrow> members_loop {} d1 = (None, d2) \<Longrightarrow> Token d2 = (Inr t, d3) \<Longrightarrow>
   rejectDuplicateJSONObjectMembers d = (None, d3)"
  by (subst rejectDuplicateJSONObjectMembers.simps) simp

lemma Token_open:
  assumes "value_state (dec_state d)" "lead (dec_state d) l" "dec_in d = l @ c # s" "c = CHR ''['' \<or> c = CHR ''{''"
  shows "Token d = (Inr (Delim c), \<lparr>dec_in = s, dec_state = (if c = CHR ''['' then TokenArrayStart else TokenObjectStart),
    dec_stack = after_separator (dec_state d) # dec_stack d\<rparr>)"
proof -
  have "starts (c # s)" using assms(4) by (elim disjE) (simp_all add: starts_def json_space_def)
  from Token_lead [OF assms(2) this assms(3)] assms(4) value_state_allowed [OF assms(1)] show ?thesis
    by (elim disjE) (simp_all add: token_at_def open_token_def)
qed

lemma Token_scalar:
  assumes "value_state (dec_state d)" "lead (dec_state d) l" "dec_in d = l @ p @ r" "scalar_text p t" "stops r"
  shows "Token d = (Inr t, d\<lparr>dec_in := r, dec_state := after_value (dec_state d)\<rparr>)"
proof -
  note p = scalar_text_again [OF assms(4)]
  have s: "starts (p @ r)" "hd (p @ r) = hd p" using p(1) by (auto simp: starts_def)
  have "Token d = token_at (hd (p @ r)) (d\<lparr>dec_in := p @ r, dec_state := after_separator (dec_state d)\<rparr>)"
    by (rule Token_lead [OF assms(2) s(1)]) (simp add: assms(3))
  also have "\<dots> = value_token (hd p) (d\<lparr>dec_in := p @ r, dec_state := after_separator (dec_state d)\<rparr>)"
    using p(2) after_separator_key [OF assms(1)] s(2) by (simp add: token_at_def)
  also have "\<dots> = (Inr t, d\<lparr>dec_in := r, dec_state := after_value (dec_state d)\<rparr>)"
    using value_state_allowed [OF assms(1)] p(3) [OF assms(5)] by (simp add: value_token_def after_value_def)
  finally show ?thesis .
qed

lemma Token_key:
  assumes "lead (dec_state d) l" "dec_in d = l @ k @ r" "key_text k name"
    and "dec_state d = TokenObjectStart \<or> dec_state d = TokenObjectComma"
  shows "Token d = (Inr (StringToken name), d\<lparr>dec_in := r, dec_state := TokenObjectColon\<rparr>)"
proof -
  obtain k' where k: "k = CHR 0x22 # k'" using key_text_again(1) [OF assms(3)] by blast
  have s: "starts (k @ r)" by (simp add: k starts_def json_space_def)
  have "Token d = token_at (hd (k @ r)) (d\<lparr>dec_in := k @ r, dec_state := after_separator (dec_state d)\<rparr>)"
    by (rule Token_lead [OF assms(1) s]) (simp add: assms(2))
  also have "\<dots> = key_token (d\<lparr>dec_in := k @ r, dec_state := after_separator (dec_state d)\<rparr>)"
    using assms(4) by (elim disjE) (simp_all add: token_at_def k)
  also have "\<dots> = (Inr (StringToken name), d\<lparr>dec_in := r, dec_state := TokenObjectColon\<rparr>)"
    using key_text_again(2) [OF assms(3), of r] by (simp add: key_token_def)
  finally show ?thesis .
qed

definition value_ok :: "string \<Rightarrow> bool" where
  "value_ok p \<longleftrightarrow> starts p \<and> (\<forall>d l r. value_state (dec_state d) \<longrightarrow> lead (dec_state d) l \<longrightarrow> dec_in d = l @ p @ r \<longrightarrow> stops r \<longrightarrow>
     rejectDuplicateJSONObjectMembers d = (None, d\<lparr>dec_in := r, dec_state := after_value (dec_state d)\<rparr>))"

definition elements_ok :: "string \<Rightarrow> bool" where
  "elements_ok e \<longleftrightarrow> (\<forall>d l r. dec_state d \<in> {TokenArrayStart, TokenArrayComma} \<longrightarrow> lead (dec_state d) l \<longrightarrow>
     dec_in d = l @ e @ CHR '']'' # r \<longrightarrow>
     elements_loop d = (None, d\<lparr>dec_in := CHR '']'' # r, dec_state := TokenArrayComma\<rparr>))"

definition members_ok :: "string set \<Rightarrow> string \<Rightarrow> bool" where
  "members_ok seen m \<longleftrightarrow> (\<forall>d l r. dec_state d \<in> {TokenObjectStart, TokenObjectComma} \<longrightarrow> lead (dec_state d) l \<longrightarrow>
     dec_in d = l @ m @ CHR ''}'' # r \<longrightarrow>
     members_loop seen d = (None, d\<lparr>dec_in := CHR ''}'' # r, dec_state := TokenObjectComma\<rparr>))"


lemma value_ok_scalar: "scalar_text p t \<Longrightarrow> value_ok p"
  unfolding value_ok_def
  by (intro conjI allI impI) (blast intro: scalar_text_again(1), rule reject_scalar [OF Token_scalar], auto dest: scalar_text_again(4))

lemma starts_open: "starts (CHR ''['' # s)" "starts (CHR ''{'' # s)"
  by (simp_all add: starts_def json_space_def)

lemma lead_Nil: "lead TokenArrayStart []" "lead TokenObjectStart []"
  by (simp_all add: lead_def)

lemma value_ok_array:
  assumes "elements_ok e \<or> spaces e"
  shows "value_ok (CHR ''['' # e @ '']'')"
  unfolding value_ok_def
proof (intro conjI allI impI)
  fix d :: decoder and l r
  assume v: "value_state (dec_state d)" and l: "lead (dec_state d) l" "dec_in d = l @ (CHR ''['' # e @ '']'') @ r"
  define d1 where "d1 = \<lparr>dec_in = e @ CHR '']'' # r, dec_state = TokenArrayStart,
    dec_stack = after_separator (dec_state d) # dec_stack d\<rparr>"
  have t: "Token d = (Inr (Delim CHR ''[''), d1)" using Token_open [OF v l(1), of "CHR ''[''"] l(2) by (simp add: d1_def)
  obtain st where st: "st = TokenArrayStart \<or> st = TokenArrayComma"
    "elements_loop d1 = (None, d1\<lparr>dec_in := CHR '']'' # r, dec_state := st\<rparr>)"
  proof (cases "spaces e")
    case True
    have "elements_loop d1 = (None, d1\<lparr>dec_in := CHR '']'' # r\<rparr>)"
      using More_close [OF True, of d1 "CHR '']''" r] by (subst elements_loop.simps) (simp add: d1_def)
    then show thesis using that [of TokenArrayStart] by (simp add: d1_def)
  next
    case False
    then have "elements_ok e" using assms by blast
    then show thesis using that [of TokenArrayComma] lead_Nil(1) by (auto simp: elements_ok_def d1_def)
  qed
  from reject_array [OF t st(2) Token_close [where w = "[]"]] st(1)
  show "rejectDuplicateJSONObjectMembers d = (None, d\<lparr>dec_in := r, dec_state := after_value (dec_state d)\<rparr>)"
    by (cases d) (auto simp: d1_def after_value_def)
qed (simp add: starts_open)

lemma value_ok_object:
  assumes "members_ok {} m \<or> spaces m"
  shows "value_ok (CHR ''{'' # m @ ''}'')"
  unfolding value_ok_def
proof (intro conjI allI impI)
  fix d :: decoder and l r
  assume v: "value_state (dec_state d)" and l: "lead (dec_state d) l" "dec_in d = l @ (CHR ''{'' # m @ ''}'') @ r"
  define d1 where "d1 = \<lparr>dec_in = m @ CHR ''}'' # r, dec_state = TokenObjectStart,
    dec_stack = after_separator (dec_state d) # dec_stack d\<rparr>"
  have t: "Token d = (Inr (Delim CHR ''{''), d1)" using Token_open [OF v l(1), of "CHR ''{''"] l(2) by (simp add: d1_def)
  obtain st where st: "st = TokenObjectStart \<or> st = TokenObjectComma"
    "members_loop {} d1 = (None, d1\<lparr>dec_in := CHR ''}'' # r, dec_state := st\<rparr>)"
  proof (cases "spaces m")
    case True
    have "members_loop {} d1 = (None, d1\<lparr>dec_in := CHR ''}'' # r\<rparr>)"
      using More_close [OF True, of d1 "CHR ''}''" r] by (subst members_loop.simps) (simp add: d1_def)
    then show thesis using that [of TokenObjectStart] by (simp add: d1_def)
  next
    case False
    then have "members_ok {} m" using assms by blast
    then show thesis using that [of TokenObjectComma] lead_Nil(2) by (auto simp: members_ok_def d1_def)
  qed
  from reject_object [OF t st(2) Token_close [where w = "[]"]] st(1)
  show "rejectDuplicateJSONObjectMembers d = (None, d\<lparr>dec_in := r, dec_state := after_value (dec_state d)\<rparr>)"
    by (cases d) (auto simp: d1_def after_value_def)
qed (simp add: starts_open)

lemma lead_comma: "spaces w \<Longrightarrow> lead TokenArrayComma (w @ '','')" "spaces w \<Longrightarrow> lead TokenObjectComma (w @ '','')"
  using spaces_simps(1) by (fastforce simp: lead_def)+

lemma elements_step:
  assumes "dec_state d \<in> {TokenArrayStart, TokenArrayComma}" "lead (dec_state d) l" "spaces w" "value_ok p"
    "dec_in d = l @ w @ p @ r" "stops r"
  shows "elements_loop d = elements_loop (d\<lparr>dec_in := r, dec_state := TokenArrayComma\<rparr>)"
proof -
  have st: "starts (p @ r)" using assms(4) by (auto simp: value_ok_def starts_def)
  have sep: "separator (dec_state d) \<noteq> Some CHR '':''" using assms(1) by auto
  obtain l' where l': "More d = (True, d\<lparr>dec_in := l' @ p @ r\<rparr>)" "lead (dec_state d) l'"
    using More_lead [OF lead_spaces [OF assms(2,3)] _ st sep] assms(5) by auto
  have "rejectDuplicateJSONObjectMembers (d\<lparr>dec_in := l' @ p @ r\<rparr>) = (None, d\<lparr>dec_in := r, dec_state := TokenArrayComma\<rparr>)"
    using assms(1,4,6) l'(2) by (auto simp: value_ok_def after_value_def)
  then show ?thesis using l'(1) by (subst elements_loop.simps) simp
qed

lemma members_step:
  assumes "dec_state d \<in> {TokenObjectStart, TokenObjectComma}" "lead (dec_state d) l" "spaces w" "key_text k name"
    "name \<notin> seen" "spaces w1" "spaces w2" "value_ok p" "dec_in d = l @ w @ k @ w1 @ CHR '':'' # w2 @ p @ r" "stops r"
  shows "members_loop seen d = members_loop (insert name seen) (d\<lparr>dec_in := r, dec_state := TokenObjectComma\<rparr>)"
proof -
  let ?s = "w1 @ CHR '':'' # w2 @ p @ r"
  obtain k' where k: "k = CHR 0x22 # k'" using key_text_again(1) [OF assms(4)] by blast
  have st: "starts (k @ ?s)" by (simp add: k starts_def json_space_def)
  have sep: "separator (dec_state d) \<noteq> Some CHR '':''" using assms(1) by auto
  obtain l' where l': "More d = (True, d\<lparr>dec_in := l' @ k @ ?s\<rparr>)" "lead (dec_state d) l'"
    using More_lead [OF lead_spaces [OF assms(2,3)] _ st sep] assms(9) by auto
  have "Token (d\<lparr>dec_in := l' @ k @ ?s\<rparr>) = (Inr (StringToken name), d\<lparr>dec_in := ?s, dec_state := TokenObjectColon\<rparr>)"
    using Token_key [of "d\<lparr>dec_in := l' @ k @ ?s\<rparr>" l' k ?s name] l'(2) assms(1,4) by auto
  moreover have "lead TokenObjectColon (w1 @ CHR '':'' # w2)" using assms(6,7) by (auto simp: lead_def)
  then have "rejectDuplicateJSONObjectMembers (d\<lparr>dec_in := ?s, dec_state := TokenObjectColon\<rparr>)
      = (None, d\<lparr>dec_in := r, dec_state := TokenObjectComma\<rparr>)"
    using assms(8,10) by (auto simp: value_ok_def after_value_def)
  ultimately show ?thesis using l'(1) assms(5) by (subst members_loop.simps) simp
qed

lemma elements_ok_one:
  assumes "spaces w" "value_ok p" "spaces w'"
  shows "elements_ok (w @ p @ w')"
  unfolding elements_ok_def
proof (intro allI impI)
  fix d :: decoder and l r
  assume d: "dec_state d \<in> {TokenArrayStart, TokenArrayComma}" "lead (dec_state d) l"
    "dec_in d = l @ (w @ p @ w') @ CHR '']'' # r"
  let ?d = "d\<lparr>dec_in := w' @ CHR '']'' # r, dec_state := TokenArrayComma\<rparr>"
  have "elements_loop d = elements_loop ?d"
    using elements_step [OF d(1,2) assms(1,2)] d(3) assms(3) by (simp add: stops_spaces)
  moreover have "More ?d = (False, ?d\<lparr>dec_in := CHR '']'' # r\<rparr>)" using More_close [OF assms(3), of ?d] by simp
  ultimately show "elements_loop d = (None, d\<lparr>dec_in := CHR '']'' # r, dec_state := TokenArrayComma\<rparr>)"
    by (simp add: elements_loop.simps [of ?d])
qed

lemma elements_ok_more:
  assumes "spaces w" "value_ok p" "spaces w'" "elements_ok e"
  shows "elements_ok (w @ p @ w' @ CHR '','' # e)"
  unfolding elements_ok_def
proof (intro allI impI)
  fix d :: decoder and l r
  assume d: "dec_state d \<in> {TokenArrayStart, TokenArrayComma}" "lead (dec_state d) l"
    "dec_in d = l @ (w @ p @ w' @ CHR '','' # e) @ CHR '']'' # r"
  let ?d = "d\<lparr>dec_in := (w' @ '','') @ e @ CHR '']'' # r, dec_state := TokenArrayComma\<rparr>"
  have "elements_loop d = elements_loop ?d"
    using elements_step [OF d(1,2) assms(1,2)] d(3) assms(3) by (simp add: stops_spaces)
  moreover have "lead TokenArrayComma (w' @ '','')" using lead_comma(1) assms(3) .
  then have "elements_loop ?d = (None, ?d\<lparr>dec_in := CHR '']'' # r, dec_state := TokenArrayComma\<rparr>)"
    using assms(4) unfolding elements_ok_def by simp
  ultimately show "elements_loop d = (None, d\<lparr>dec_in := CHR '']'' # r, dec_state := TokenArrayComma\<rparr>)" by simp
qed

lemma members_ok_one:
  assumes "spaces w" "key_text k name" "spaces w1" "spaces w2" "value_ok p" "spaces w'" "name \<notin> seen"
  shows "members_ok seen (w @ k @ w1 @ CHR '':'' # w2 @ p @ w')"
  unfolding members_ok_def
proof (intro allI impI)
  fix d :: decoder and l r
  assume d: "dec_state d \<in> {TokenObjectStart, TokenObjectComma}" "lead (dec_state d) l"
    "dec_in d = l @ (w @ k @ w1 @ CHR '':'' # w2 @ p @ w') @ CHR ''}'' # r"
  let ?d = "d\<lparr>dec_in := w' @ CHR ''}'' # r, dec_state := TokenObjectComma\<rparr>"
  have "members_loop seen d = members_loop (insert name seen) ?d"
    using members_step [OF d(1,2) assms(1,2,7,3,4,5)] d(3) assms(6) by (simp add: stops_spaces)
  moreover have "More ?d = (False, ?d\<lparr>dec_in := CHR ''}'' # r\<rparr>)" using More_close [OF assms(6), of ?d] by simp
  ultimately show "members_loop seen d = (None, d\<lparr>dec_in := CHR ''}'' # r, dec_state := TokenObjectComma\<rparr>)"
    by (simp add: members_loop.simps [of _ ?d])
qed

lemma members_ok_more:
  assumes "spaces w" "key_text k name" "spaces w1" "spaces w2" "value_ok p" "spaces w'" "name \<notin> seen"
    "members_ok (insert name seen) m"
  shows "members_ok seen (w @ k @ w1 @ CHR '':'' # w2 @ p @ w' @ CHR '','' # m)"
  unfolding members_ok_def
proof (intro allI impI)
  fix d :: decoder and l r
  assume d: "dec_state d \<in> {TokenObjectStart, TokenObjectComma}" "lead (dec_state d) l"
    "dec_in d = l @ (w @ k @ w1 @ CHR '':'' # w2 @ p @ w' @ CHR '','' # m) @ CHR ''}'' # r"
  let ?d = "d\<lparr>dec_in := (w' @ '','') @ m @ CHR ''}'' # r, dec_state := TokenObjectComma\<rparr>"
  have "members_loop seen d = members_loop (insert name seen) ?d"
    using members_step [OF d(1,2) assms(1,2,7,3,4,5)] d(3) assms(6) by (simp add: stops_spaces)
  moreover have "lead TokenObjectComma (w' @ '','')" using lead_comma(2) assms(6) .
  then have "members_loop (insert name seen) ?d = (None, ?d\<lparr>dec_in := CHR ''}'' # r, dec_state := TokenObjectComma\<rparr>)"
    using assms(8) unfolding members_ok_def by simp
  ultimately show "members_loop seen d = (None, d\<lparr>dec_in := CHR ''}'' # r, dec_state := TokenObjectComma\<rparr>)" by simp
qed

lemma grammar_accepted:
  "json_value p t \<Longrightarrow> distinct_members t \<Longrightarrow> value_ok p"
  "json_elements e ts \<Longrightarrow> \<forall>t \<in> set ts. distinct_members t \<Longrightarrow> elements_ok e"
  "json_members m ms \<Longrightarrow> distinct (map fst ms) \<Longrightarrow> \<forall>x \<in> set ms. distinct_members (snd x) \<Longrightarrow>
     fst ` set ms \<inter> seen = {} \<Longrightarrow> members_ok seen m"
proof (induction p t and e ts and m ms arbitrary: and and seen rule: json_value_json_elements_json_members.inducts)
  case (member_pairs w k name w1 w2 p t w' m ms)
  have "members_ok (insert name seen) m"
    by (rule member_pairs.IH(2)) (use member_pairs.prems in auto)
  then show ?case using member_pairs by (auto intro: members_ok_more)
qed (auto intro: value_ok_scalar value_ok_array value_ok_object elements_ok_one elements_ok_more members_ok_one)



section \<open>What the check accepts is a text without duplicates\<close>

definition at_end :: "string \<Rightarrow> bool" where
  "at_end s \<longleftrightarrow> s = [] \<or> hd s = CHR '']'' \<or> hd s = CHR ''}''"

lemma lead_not_at_end: "lead st l \<Longrightarrow> starts s \<Longrightarrow> \<not> at_end (l @ s)"
proof
  assume l: "lead st l" "starts s" "at_end (l @ s)"
  have s: "s \<noteq> []" "hd s \<noteq> CHR '']''" "hd s \<noteq> CHR ''}''" using l(2) by (auto simp: starts_def)
  have "\<not> at_end (w @ c # r)" if "spaces w" "c = CHR '','' \<or> c = CHR '':''" for w c r
    using that by (cases w) (auto simp: at_end_def spaces_def json_space_def)
  moreover have "separator st = Some c \<Longrightarrow> c = CHR '','' \<or> c = CHR '':''" for c by (cases st) auto
  moreover have "\<not> at_end (w @ s)" if "spaces w" for w
    using that s by (cases w) (auto simp: at_end_def spaces_def json_space_def)
  ultimately show False using l(1,3) by (cases "separator st") (auto simp: lead_def)
qed

lemma More_False:
  assumes "More d = (False, d')"
  obtains w where "spaces w" "dec_in d = w @ dec_in d'" "at_end (dec_in d')" "d' = d\<lparr>dec_in := dec_in d'\<rparr>"
proof -
  obtain w where w: "spaces w" "dec_in d = w @ dropWhile json_space (dec_in d)" by (rule spaces_split)
  show thesis
  proof (cases "dropWhile json_space (dec_in d)")
    case Nil
    then have "d' = d\<lparr>dec_in := []\<rparr>" using assms by (simp add: More_def peek_def del: dropWhile_eq_Nil_conv)
    then show thesis using that [OF w(1)] w(2) Nil by (simp add: at_end_def)
  next
    case (Cons c s)
    then have "d' = d\<lparr>dec_in := c # s\<rparr>" "c = CHR '']'' \<or> c = CHR ''}''"
      using assms by (auto simp: More_def peek_def)
    then show thesis using that [OF w(1)] w(2) Cons by (simp add: at_end_def)
  qed
qed

lemma More_True:
  assumes "More d = (True, d')"
  obtains w where "spaces w" "dec_in d = w @ dec_in d'" "\<not> at_end (dec_in d')" "\<not> json_space (hd (dec_in d'))"
    "d' = d\<lparr>dec_in := dec_in d'\<rparr>"
proof -
  obtain w where w: "spaces w" "dec_in d = w @ dropWhile json_space (dec_in d)" by (rule spaces_split)
  show thesis
  proof (cases "dropWhile json_space (dec_in d)")
    case Nil
    then show thesis using assms by (simp add: More_def peek_def del: dropWhile_eq_Nil_conv)
  next
    case (Cons c s)
    then have "d' = d\<lparr>dec_in := c # s\<rparr>" "c \<noteq> CHR '']''" "c \<noteq> CHR ''}''"
      using assms by (auto simp: More_def peek_def)
    moreover have "\<not> json_space c" using Cons by (metis hd_dropWhile list.discI list.sel(1))
    ultimately show thesis using that [OF w(1)] w(2) Cons by (simp add: at_end_def)
  qed
qed

lemma Token_at_end:
  assumes "Token d = (Inr t, d')" "at_end (dec_in d)" "between (dec_state d)"
  obtains c where "dec_in d = c # dec_in d'" "c = CHR '']'' \<or> c = CHR ''}''"
    "dec_state d \<in> (if c = CHR '']'' then {TokenArrayStart, TokenArrayComma} else {TokenObjectStart, TokenObjectComma})"
    "d' = \<lparr>dec_in = dec_in d', dec_state = tokenValueEnd (hd (dec_stack d)), dec_stack = tl (dec_stack d)\<rparr>"
  using assms(1,3)
proof (cases rule: Token_cases)
  case (close c s w)
  then have "w = []" using assms(2) by (cases w) (auto simp: at_end_def spaces_def)
  then show thesis using that close by simp
next
  case (item l s)
  then show thesis using lead_not_at_end assms(2) by metis
qed

text \<open>A token read where a value or a key is due.\<close>

lemma Token_item:
  assumes "Token d = (Inr t, d')" "between (dec_state d)"
    and "separator (dec_state d) = Some CHR '':'' \<or> dec_state d = TokenTopValue \<or> \<not> at_end (dec_in d) \<and> \<not> json_space (hd (dec_in d))"
  obtains l c s where "lead (dec_state d) l" "dec_in d = l @ c # s"
    "token_at c (d\<lparr>dec_in := c # s, dec_state := after_separator (dec_state d)\<rparr>) = (Inr t, d')"
  using assms(1,2)
proof (cases rule: Token_cases)
  case (close c s w)
  then have "at_end (dec_in d) \<or> json_space (hd (dec_in d))" by (cases w) (auto simp: at_end_def spaces_def)
  moreover have "separator (dec_state d) \<noteq> Some CHR '':''" "dec_state d \<noteq> TokenTopValue"
    using close(5) by (auto split: if_splits)
  ultimately show thesis using assms(3) by blast
next
  case (item l s)
  then show thesis using that by (cases s) (auto simp: starts_def)
qed

lemmas json_intros = json_value_json_elements_json_members.intros

lemma elements_spaces:
  assumes "json_elements e ts" "spaces w"
  shows "json_elements (w @ e) ts"
  using assms(1)
proof cases
  case (element v p t w')
  then show ?thesis using json_intros(6) [of "w @ v" p t w'] assms(2) by simp
next
  case (elements v p t w' e' ts')
  then show ?thesis using json_intros(7) [of "w @ v" p t w' e' ts'] assms(2) by simp
qed

lemma members_spaces:
  assumes "json_members m ms" "spaces w"
  shows "json_members (w @ m) ms"
  using assms(1)
proof cases
  case (member_pair v k name w1 w2 p t w')
  then show ?thesis using json_intros(8) [of "w @ v" k name w1 w2 p t w'] assms(2) by simp
next
  case (member_pairs v k name w1 w2 p t w' m' ms')
  then show ?thesis using json_intros(9) [of "w @ v" k name w1 w2 p t w' m' ms'] assms(2) by simp
qed

definition value_read :: "decoder \<Rightarrow> decoder \<Rightarrow> bool" where
  "value_read d d' \<longleftrightarrow> (\<exists>l p t. lead (dec_state d) l \<and> dec_in d = l @ p @ dec_in d' \<and> json_value p t \<and> distinct_members t)
     \<and> dec_state d' = after_value (dec_state d) \<and> dec_stack d' = dec_stack d"

definition elements_read :: "decoder \<Rightarrow> decoder \<Rightarrow> bool" where
  "elements_read d d' \<longleftrightarrow> at_end (dec_in d') \<and> dec_stack d' = dec_stack d
     \<and> ((\<exists>w. spaces w \<and> dec_in d = w @ dec_in d' \<and> dec_state d' = dec_state d)
       \<or> (\<exists>l e ts. lead (dec_state d) l \<and> dec_in d = l @ e @ dec_in d' \<and> json_elements e ts
            \<and> (\<forall>t \<in> set ts. distinct_members t) \<and> dec_state d' = TokenArrayComma))"

definition members_read :: "string set \<Rightarrow> decoder \<Rightarrow> decoder \<Rightarrow> bool" where
  "members_read seen d d' \<longleftrightarrow> at_end (dec_in d') \<and> dec_stack d' = dec_stack d
     \<and> ((\<exists>w. spaces w \<and> dec_in d = w @ dec_in d' \<and> dec_state d' = dec_state d)
       \<or> (\<exists>l m ms. lead (dec_state d) l \<and> dec_in d = l @ m @ dec_in d' \<and> json_members m ms
            \<and> distinct (map fst ms) \<and> fst ` set ms \<inter> seen = {} \<and> (\<forall>x \<in> set ms. distinct_members (snd x))
            \<and> dec_state d' = TokenObjectComma))"

text \<open>A delimited value, from what its loop read to the closing delimiter.\<close>

lemma array_read:
  assumes "lead (dec_state d) l" "dec_in d = l @ CHR ''['' # s"
    and d1: "d1 = \<lparr>dec_in = s, dec_state = TokenArrayStart, dec_stack = after_separator (dec_state d) # dec_stack d\<rparr>"
    and r: "elements_read d1 d2" and t: "Token d2 = (Inr t, d')"
  shows "value_read d d'"
proof -
  have st: "dec_state d2 = TokenArrayStart \<or> dec_state d2 = TokenArrayComma"
    and stk: "dec_stack d2 = after_separator (dec_state d) # dec_stack d" and e: "at_end (dec_in d2)"
    using r by (auto simp: elements_read_def d1)
  from st have "between (dec_state d2)" by (auto simp: between_def)
  from Token_at_end [OF t e this] obtain c where c: "dec_in d2 = c # dec_in d'" "c = CHR '']'' \<or> c = CHR ''}''"
    "dec_state d2 \<in> (if c = CHR '']'' then {TokenArrayStart, TokenArrayComma} else {TokenObjectStart, TokenObjectComma})"
    "d' = \<lparr>dec_in = dec_in d', dec_state = tokenValueEnd (hd (dec_stack d2)), dec_stack = tl (dec_stack d2)\<rparr>" .
  have br: "c = CHR '']''" using c(2,3) st by (elim disjE) simp_all
  have d': "dec_state d' = after_value (dec_state d)" "dec_stack d' = dec_stack d"
    using stk by (subst c(4), simp add: after_value_def)+
  obtain b ts where b: "s = b @ dec_in d2" "spaces b \<and> ts = [] \<or> json_elements b ts" "\<forall>t \<in> set ts. distinct_members t"
  proof (cases "\<exists>w. spaces w \<and> s = w @ dec_in d2")
    case True
    then show thesis using that [of _ "[]"] by auto
  next
    case False
    then obtain l' e ts where "spaces l'" "s = l' @ e @ dec_in d2" "json_elements e ts" "\<forall>t \<in> set ts. distinct_members t"
      using r by (auto simp: elements_read_def d1 lead_def)
    then show thesis using that [of "l' @ e" ts] elements_spaces by simp
  qed
  have "json_value (CHR ''['' # b @ '']'') (Array ts)" using b(2) json_intros(2,3) by blast
  moreover have "dec_in d = l @ (CHR ''['' # b @ '']'') @ dec_in d'" using assms(2) b(1) c(1) br by simp
  ultimately show ?thesis using assms(1) b(3) d' unfolding value_read_def by (metis distinct_members.simps(2))
qed

lemma object_read:
  assumes "lead (dec_state d) l" "dec_in d = l @ CHR ''{'' # s"
    and d1: "d1 = \<lparr>dec_in = s, dec_state = TokenObjectStart, dec_stack = after_separator (dec_state d) # dec_stack d\<rparr>"
    and r: "members_read {} d1 d2" and t: "Token d2 = (Inr t, d')"
  shows "value_read d d'"
proof -
  have st: "dec_state d2 = TokenObjectStart \<or> dec_state d2 = TokenObjectComma"
    and stk: "dec_stack d2 = after_separator (dec_state d) # dec_stack d" and e: "at_end (dec_in d2)"
    using r by (auto simp: members_read_def d1)
  from st have "between (dec_state d2)" by (auto simp: between_def)
  from Token_at_end [OF t e this] obtain c where c: "dec_in d2 = c # dec_in d'" "c = CHR '']'' \<or> c = CHR ''}''"
    "dec_state d2 \<in> (if c = CHR '']'' then {TokenArrayStart, TokenArrayComma} else {TokenObjectStart, TokenObjectComma})"
    "d' = \<lparr>dec_in = dec_in d', dec_state = tokenValueEnd (hd (dec_stack d2)), dec_stack = tl (dec_stack d2)\<rparr>" .
  have br: "c = CHR ''}''" using c(2,3) st by (elim disjE) simp_all
  have d': "dec_state d' = after_value (dec_state d)" "dec_stack d' = dec_stack d"
    using stk by (subst c(4), simp add: after_value_def)+
  obtain b ms where b: "s = b @ dec_in d2" "spaces b \<and> ms = [] \<or> json_members b ms" "distinct_members (Object ms)"
  proof (cases "\<exists>w. spaces w \<and> s = w @ dec_in d2")
    case True
    then show thesis using that [of _ "[]"] by auto
  next
    case False
    then obtain l' m ms where "spaces l'" "s = l' @ m @ dec_in d2" "json_members m ms" "distinct_members (Object ms)"
      using r by (auto simp: members_read_def d1 lead_def)
    then show thesis using that [of "l' @ m" ms] members_spaces by simp
  qed
  have "json_value (CHR ''{'' # b @ ''}'') (Object ms)" using b(2) json_intros(4,5) by blast
  moreover have "dec_in d = l @ (CHR ''{'' # b @ ''}'') @ dec_in d'" using assms(2) b(1) c(1) br by simp
  ultimately show ?thesis using assms(1) b(3) d' unfolding value_read_def by metis
qed

definition due :: "decoder \<Rightarrow> bool" where
  "due d \<longleftrightarrow> separator (dec_state d) = Some CHR '':'' \<or> dec_state d = TokenTopValue
     \<or> \<not> at_end (dec_in d) \<and> \<not> json_space (hd (dec_in d))"

lemma value_between: "value_state st \<Longrightarrow> between st"
  by (auto simp: between_def)

lemma reject_cases:
  assumes "rejectDuplicateJSONObjectMembers d = (None, d')" "value_state (dec_state d)" "due d"
  obtains (scalar) "value_read d d'"
  | (array) l s d1 d2 t where "lead (dec_state d) l" "dec_in d = l @ CHR ''['' # s" "Token d = (Inr (Delim (CHR ''['')), d1)"
      "d1 = \<lparr>dec_in = s, dec_state = TokenArrayStart, dec_stack = after_separator (dec_state d) # dec_stack d\<rparr>"
      "elements_loop d1 = (None, d2)" "Token d2 = (Inr t, d')"
  | (object) l s d1 d2 t where "lead (dec_state d) l" "dec_in d = l @ CHR ''{'' # s" "Token d = (Inr (Delim (CHR ''{'')), d1)"
      "d1 = \<lparr>dec_in = s, dec_state = TokenObjectStart, dec_stack = after_separator (dec_state d) # dec_stack d\<rparr>"
      "members_loop {} d1 = (None, d2)" "Token d2 = (Inr t, d')"
proof -
  obtain t d1 where t: "Token d = (Inr t, d1)"
    using assms(1) rejectDuplicateJSONObjectMembers.simps [of d] by (cases "Token d"; cases "fst (Token d)") auto
  obtain l c s where l: "lead (dec_state d) l" "dec_in d = l @ c # s"
    "token_at c (d\<lparr>dec_in := c # s, dec_state := after_separator (dec_state d)\<rparr>) = (Inr t, d1)"
    using Token_item [OF t value_between [OF assms(2)] assms(3) [unfolded due_def]] .
  have rest: "\<exists>d2 t'. loop = (None, d2) \<and> Token d2 = (Inr t', d')"
    if "(case loop of (Some e, d) \<Rightarrow> (Some e, d) | (None, d) \<Rightarrow> (case Token d of (Inl e, d) \<Rightarrow> (Some (JSONError e), d) | (Inr _, d) \<Rightarrow> (None, d))) = (None, d')"
    for loop :: "member_error option \<times> decoder"
    using that by (auto split: prod.splits option.splits sum.splits)
  note unf = assms(1) [unfolded rejectDuplicateJSONObjectMembers.simps [of d] t prod.case sum.case]
  from l(3) show thesis
  proof (rule token_at_cases [where s = s])
    assume a: "c = CHR ''[''" "t = Delim c"
      and d1: "d1 = \<lparr>dec_in = s, dec_state = TokenArrayStart,
        dec_stack = dec_state (d\<lparr>dec_in := c # s, dec_state := after_separator (dec_state d)\<rparr>) # dec_stack (d\<lparr>dec_in := c # s, dec_state := after_separator (dec_state d)\<rparr>)\<rparr>"
    have "\<exists>d2 t'. elements_loop d1 = (None, d2) \<and> Token d2 = (Inr t', d')" by (rule rest) (use unf a in simp)
    then show thesis using array [OF l(1), of s d1] l(2) t a d1 by auto
  next
    assume a: "c = CHR ''{''" "t = Delim c"
      and d1: "d1 = \<lparr>dec_in = s, dec_state = TokenObjectStart,
        dec_stack = dec_state (d\<lparr>dec_in := c # s, dec_state := after_separator (dec_state d)\<rparr>) # dec_stack (d\<lparr>dec_in := c # s, dec_state := after_separator (dec_state d)\<rparr>)\<rparr>"
    have "\<exists>d2 t'. members_loop {} d1 = (None, d2) \<and> Token d2 = (Inr t', d')" by (rule rest) (use unf a in simp)
    then show thesis using object [OF l(1), of s d1] l(2) t a d1 by auto
  next
    fix p assume p: "c # s = p @ dec_in d1" "scalar_text p t"
      and d1: "d1 = (d\<lparr>dec_in := c # s, dec_state := after_separator (dec_state d)\<rparr>)\<lparr>dec_in := dec_in d1,
        dec_state := tokenValueEnd (dec_state (d\<lparr>dec_in := c # s, dec_state := after_separator (dec_state d)\<rparr>))\<rparr>"
    have "d' = d1" using unf scalar_text_again(4) [OF p(2)] by (cases t) auto
    moreover have "dec_state d1 = after_value (dec_state d)" "dec_stack d1 = dec_stack d"
      by (subst d1, simp add: after_value_def)+
    moreover have "dec_in d = l @ p @ dec_in d1" using l(2) p(1) by simp
    moreover have "json_value p (Scalar t)" using json_intros(1) [OF p(2)] .
    ultimately show thesis using scalar l(1) unfolding value_read_def by (metis distinct_members.simps(1))
  qed (use assms(2) after_separator_key in auto)
qed

lemma elements_read_Nil: "More d = (False, d') \<Longrightarrow> elements_read d d'"
  by (erule More_False) (auto simp: elements_read_def dest: arg_cong [where f = dec_state] arg_cong [where f = dec_stack])

lemma members_read_Nil: "More d = (False, d') \<Longrightarrow> members_read seen d d'"
  by (erule More_False) (auto simp: members_read_def dest: arg_cong [where f = dec_state] arg_cong [where f = dec_stack])

lemma lead_absorb: "spaces w \<Longrightarrow> lead st l \<Longrightarrow> lead st (w @ l)"
  by (cases "separator st") (auto simp: lead_def, metis append.assoc spaces_simps(2))

lemma More_due:
  assumes "More d = (True, d1)"
  obtains w where "spaces w" "dec_in d = w @ dec_in d1" "dec_state d1 = dec_state d" "dec_stack d1 = dec_stack d" "due d1"
  using assms
proof (rule More_True)
  fix w assume w: "spaces w" "dec_in d = w @ dec_in d1" "\<not> at_end (dec_in d1)" "\<not> json_space (hd (dec_in d1))"
    and d1: "d1 = d\<lparr>dec_in := dec_in d1\<rparr>"
  have "dec_state d1 = dec_state d" "dec_stack d1 = dec_stack d" by (subst d1, simp)+
  then show thesis using that w by (simp add: due_def)
qed

lemma lead_comma_split:
  assumes "lead TokenArrayComma l \<or> lead TokenObjectComma l"
  obtains u u' where "l = u @ CHR '','' # u'" "spaces u" "spaces u'"
  using assms by (auto simp: lead_def)

lemma elements_read_Cons:
  assumes st: "dec_state d \<in> {TokenArrayStart, TokenArrayComma}" and m: "More d = (True, d1)"
    and v: "value_read d1 d2" and r: "elements_read d2 d'"
  shows "elements_read d d'"
proof -
  obtain w where w: "spaces w" "dec_in d = w @ dec_in d1" "dec_state d1 = dec_state d" "dec_stack d1 = dec_stack d"
    using More_due [OF m] .
  obtain l p t where p: "lead (dec_state d) l" "dec_in d1 = l @ p @ dec_in d2" "json_value p t" "distinct_members t"
    using v w(3) by (auto simp: value_read_def)
  have st2: "dec_state d2 = TokenArrayComma" "dec_stack d2 = dec_stack d"
    using v w(3,4) st by (auto simp: value_read_def after_value_def)
  have l: "lead (dec_state d) (w @ l)" using lead_absorb w(1) p(1) by blast
  have end': "at_end (dec_in d')" "dec_stack d' = dec_stack d" using r st2 by (auto simp: elements_read_def)
  show ?thesis
  proof (cases "\<exists>w'. spaces w' \<and> dec_in d2 = w' @ dec_in d' \<and> dec_state d' = dec_state d2")
    case True
    then obtain w' where w': "spaces w'" "dec_in d2 = w' @ dec_in d'" "dec_state d' = TokenArrayComma" using st2 by auto
    have "json_elements (p @ w') [t]" using json_intros(6) [of "[]" p t w'] p(3) w'(1) by simp
    moreover have "dec_in d = (w @ l) @ (p @ w') @ dec_in d'" using w(2) p(2) w'(2) by simp
    moreover have "\<forall>t' \<in> set [t]. distinct_members t'" using p(4) by simp
    ultimately show ?thesis using l end' w'(3) unfolding elements_read_def by blast
  next
    case False
    then obtain l' e ts where e: "lead TokenArrayComma l'" "dec_in d2 = l' @ e @ dec_in d'" "json_elements e ts"
        "\<forall>t \<in> set ts. distinct_members t" "dec_state d' = TokenArrayComma"
      using r st2 by (auto simp: elements_read_def)
    obtain u u' where u: "l' = u @ CHR '','' # u'" "spaces u" "spaces u'" using lead_comma_split e(1) by blast
    have "json_elements (p @ u @ CHR '','' # (u' @ e)) (t # ts)"
      using json_intros(7) [of "[]" p t u "u' @ e" ts] p(3) u elements_spaces [OF e(3) u(3)] by simp
    moreover have "dec_in d = (w @ l) @ (p @ u @ CHR '','' # (u' @ e)) @ dec_in d'" using w(2) p(2) e(2) u(1) by simp
    moreover have "\<forall>t' \<in> set (t # ts). distinct_members t'" using p(4) e(4) by simp
    ultimately show ?thesis using l end' e(5) unfolding elements_read_def by blast
  qed
qed

lemma members_read_Cons:
  assumes st: "dec_state d \<in> {TokenObjectStart, TokenObjectComma}" and m: "More d = (True, d1)"
    and t: "Token d1 = (Inr (StringToken name), d2)" and n: "name \<notin> seen"
    and v: "dec_state d2 = TokenObjectColon \<Longrightarrow> value_read d2 d3"
    and r: "dec_state d3 = TokenObjectComma \<Longrightarrow> members_read (insert name seen) d3 d'"
  shows "members_read seen d d'"
proof -
  obtain w where w: "spaces w" "dec_in d = w @ dec_in d1" "dec_state d1 = dec_state d" "dec_stack d1 = dec_stack d" "due d1"
    using More_due [OF m] .
  have "between (dec_state d1)" using st w(3) by (auto simp: between_def)
  from Token_item [OF t this w(5) [unfolded due_def]] obtain l c s where l: "lead (dec_state d) l" "dec_in d1 = l @ c # s"
      and tk: "token_at c (d1\<lparr>dec_in := c # s, dec_state := after_separator (dec_state d)\<rparr>) = (Inr (StringToken name), d2)"
    unfolding w(3) .
  obtain k where k: "c # s = k @ dec_in d2" "key_text k name" "dec_state d2 = TokenObjectColon" "dec_stack d2 = dec_stack d"
    using tk
  proof (rule token_at_cases [where s = s])
    fix p v assume "c # s = p @ dec_in d2" "key_text p v" "StringToken name = StringToken v"
      and d2: "d2 = (d1\<lparr>dec_in := c # s, dec_state := after_separator (dec_state d)\<rparr>)\<lparr>dec_in := dec_in d2, dec_state := TokenObjectColon\<rparr>"
    moreover have "dec_state d2 = TokenObjectColon" "dec_stack d2 = dec_stack d" by (subst d2, simp add: w(4))+
    ultimately show thesis using that by simp
  qed (use st in \<open>auto simp: tokenValueAllowed_def\<close>)
  obtain lc p u where p: "lead TokenObjectColon lc" "dec_in d2 = lc @ p @ dec_in d3" "json_value p u" "distinct_members u"
      "dec_state d3 = TokenObjectComma" "dec_stack d3 = dec_stack d"
    using v k(3,4) by (auto simp: value_read_def after_value_def)
  obtain w1 w2 where lc: "lc = w1 @ CHR '':'' # w2" "spaces w1" "spaces w2" using p(1) by (auto simp: lead_def)
  note r = r [OF p(5)]
  have wl: "lead (dec_state d) (w @ l)" using lead_absorb w(1) l(1) by blast
  have din: "dec_in d = (w @ l) @ k @ w1 @ CHR '':'' # w2 @ p @ dec_in d3" using w(2) l(2) k(1) p(2) lc(1) by simp
  have end': "at_end (dec_in d')" "dec_stack d' = dec_stack d" using r p(6) by (auto simp: members_read_def)
  show ?thesis
  proof (cases "\<exists>w'. spaces w' \<and> dec_in d3 = w' @ dec_in d' \<and> dec_state d' = dec_state d3")
    case True
    then obtain w' where w': "spaces w'" "dec_in d3 = w' @ dec_in d'" "dec_state d' = TokenObjectComma" using p(5) by auto
    have "json_members (k @ w1 @ CHR '':'' # w2 @ p @ w') [(name, u)]"
      using json_intros(8) [of "[]" k name w1 w2 p u w'] k(2) lc p(3) w'(1) by simp
    moreover have "dec_in d = (w @ l) @ (k @ w1 @ CHR '':'' # w2 @ p @ w') @ dec_in d'" using din w'(2) by simp
    moreover have "distinct (map fst [(name, u)])" "fst ` set [(name, u)] \<inter> seen = {}"
        "\<forall>x \<in> set [(name, u)]. distinct_members (snd x)" using n p(4) by simp_all
    ultimately show ?thesis using wl end' w'(3) unfolding members_read_def by blast
  next
    case False
    then obtain l' e ms where e: "lead TokenObjectComma l'" "dec_in d3 = l' @ e @ dec_in d'" "json_members e ms"
        "distinct (map fst ms)" "fst ` set ms \<inter> insert name seen = {}"
        "\<forall>x \<in> set ms. distinct_members (snd x)" "dec_state d' = TokenObjectComma"
      using r p(5) by (auto simp: members_read_def)
    obtain x x' where x: "l' = x @ CHR '','' # x'" "spaces x" "spaces x'" using lead_comma_split e(1) by blast
    have "json_members (k @ w1 @ CHR '':'' # w2 @ p @ x @ CHR '','' # (x' @ e)) ((name, u) # ms)"
      using json_intros(9) [of "[]" k name w1 w2 p u x "x' @ e" ms] k(2) lc p(3) x members_spaces [OF e(3) x(3)] by simp
    moreover have "dec_in d = (w @ l) @ (k @ w1 @ CHR '':'' # w2 @ p @ x @ CHR '','' # (x' @ e)) @ dec_in d'"
      using din e(2) x(1) by simp
    moreover have "distinct (map fst ((name, u) # ms))" using e(4,5) by (auto simp: image_iff)
    moreover have "fst ` set ((name, u) # ms) \<inter> seen = {}" using e(5) n by auto
    moreover have "\<forall>x \<in> set ((name, u) # ms). distinct_members (snd x)" using e(6) p(4) by simp
    ultimately show ?thesis using wl end' e(7) unfolding members_read_def by blast
  qed
qed

lemma check_reads:
  "rejectDuplicateJSONObjectMembers d = (None, d') \<Longrightarrow> value_state (dec_state d) \<Longrightarrow> due d \<Longrightarrow> value_read d d'"
  "members_loop seen d = (None, d') \<Longrightarrow> dec_state d \<in> {TokenObjectStart, TokenObjectComma} \<Longrightarrow> members_read seen d d'"
  "elements_loop d = (None, d') \<Longrightarrow> dec_state d \<in> {TokenArrayStart, TokenArrayComma} \<Longrightarrow> elements_read d d'"
proof (induction d and seen d and d arbitrary: d' and d' and d'
    rule: rejectDuplicateJSONObjectMembers_members_loop_elements_loop.induct)
  case (1 d0)
  from "1.prems" show ?case
  proof (cases rule: reject_cases)
    case (array l s d1 d2 t)
    then have "elements_read d1 d2" using "1.IH"(2) [OF array(3) [symmetric] refl refl] by simp
    then show ?thesis by (rule array_read [OF array(1,2,4) _ array(6)])
  next
    case (object l s d1 d2 t)
    then have "members_read {} d1 d2" using "1.IH"(1) [OF object(3) [symmetric] refl refl] by simp
    then show ?thesis by (rule object_read [OF object(1,2,4) _ object(6)])
  qed
next
  case (2 seen d0)
  obtain b d1 where m: "More d0 = (b, d1)" by (cases "More d0")
  show ?case
  proof (cases b)
    case True
    then have T: "b = True" by simp
    obtain name d2 d3 where n: "Token d1 = (Inr (StringToken name), d2)" "name \<notin> seen"
      "rejectDuplicateJSONObjectMembers d2 = (None, d3)" "members_loop (insert name seen) d3 = (None, d')"
      using "2.prems"(1) True unfolding members_loop.simps [of seen d0] m
      by (auto split: prod.splits sum.splits json_token.splits if_splits option.splits)
    show ?thesis
    proof (rule members_read_Cons [OF "2.prems"(2) _ n(1,2)])
      assume "dec_state d2 = TokenObjectColon"
      then show "value_read d2 d3"
        using "2.IH"(1) [OF m [symmetric] T n(1) [symmetric] refl refl n(2) n(3)] by (simp add: due_def)
    next
      assume "dec_state d3 = TokenObjectComma"
      then show "members_read (insert name seen) d3 d'"
        using "2.IH"(2) [OF m [symmetric] T n(1) [symmetric] refl refl n(2) n(3) [symmetric] refl n(4)] by simp
    qed (use m True in simp)
  next
    case False
    then have "d1 = d'" using "2.prems"(1) unfolding members_loop.simps [of seen d0] m by simp
    then show ?thesis using members_read_Nil m False by simp
  qed
next
  case (3 d0)
  obtain b d1 where m: "More d0 = (b, d1)" by (cases "More d0")
  show ?case
  proof (cases b)
    case True
    then have T: "b = True" by simp
    obtain d2 where n: "rejectDuplicateJSONObjectMembers d1 = (None, d2)" "elements_loop d2 = (None, d')"
      using "3.prems"(1) True unfolding elements_loop.simps [of d0] m by (auto split: prod.splits option.splits)
    have d1: "dec_state d1 = dec_state d0" "due d1" using More_due [of d0 d1] m True by auto
    have v: "value_read d1 d2" using "3.IH"(1) [OF m [symmetric] T n(1)] d1 "3.prems"(2) by auto
    have "dec_state d2 = TokenArrayComma" using v d1 "3.prems"(2) by (auto simp: value_read_def after_value_def)
    then have "elements_read d2 d'" using "3.IH"(2) [OF m [symmetric] T n(1) [symmetric] refl n(2)] by simp
    then show ?thesis using elements_read_Cons [OF "3.prems"(2) _ v] m True by simp
  next
    case False
    then have "d1 = d'" using "3.prems"(1) unfolding elements_loop.simps [of d0] m by simp
    then show ?thesis using elements_read_Nil m False by simp
  qed
qed



section \<open>The end of the input\<close>

lemma scan_hex_EOF: "scan_hex s \<noteq> Some EOF"
  by (auto simp: scan_hex_def split: list.splits)

lemma scan_string_EOF: "scan_string s \<noteq> Inl EOF"
proof (induction s rule: scan_string.induct)
  case (2 c s)
  have pass: "(case x of Inl err \<Rightarrow> Inl err | Inr (body, r) \<Rightarrow> Inr (f body, r)) = Inl EOF \<longleftrightarrow> x = Inl EOF"
    for x :: "json_error + string \<times> string" and f by (cases x) auto
  show ?case
  proof
    assume e: "scan_string (c # s) = Inl EOF"
    then have c: "c \<noteq> CHR 0x22" by auto
    show False
    proof (cases "c = CHR 0x5C")
      case True
      with e obtain x s' where s: "s = x # s'" by (cases s) auto
      from e True s have "scan_hex s' = Some EOF \<or> scan_string s' = Inl EOF \<and> (if x = CHR ''u'' then scan_hex s' else None) = None
          \<and> x \<in> set [CHR ''b'', CHR ''f'', CHR ''n'', CHR ''r'', CHR ''t'', CHR 0x5C, CHR ''/'', CHR 0x22, CHR ''u'']"
        by (simp only: scan_string.simps list.case if_True if_False pass split: if_splits option.splits) auto
      then show False using scan_hex_EOF "2.IH"(1) [OF c True s] by blast
    next
      case False
      then have "scan_string s = Inl EOF" "\<not> (of_char c :: nat) < 0x20"
        using e c by (simp_all add: pass split: if_splits)
      then show False using "2.IH"(2) [OF c False] by blast
    qed
  qed
qed simp

lemma scan_number_EOF: "scan_number s \<noteq> Inl EOF"
proof -
  have d: "digits1 r \<noteq> Inl EOF" for r by (auto simp: digits1_def split: list.splits)
  then have "scan_int r \<noteq> Inl EOF" "scan_frac r \<noteq> Inl EOF" "scan_exp r \<noteq> Inl EOF" for r
    by (auto simp: scan_int_def scan_frac_def scan_exp_def Let_def split: sum.splits prod.splits)
  then show ?thesis unfolding scan_number_def Let_def by (auto split: sum.splits prod.splits)
qed

lemma scan_word_EOF: "scan_word w s \<noteq> Inl EOF"
  by (induction w s rule: scan_word.induct) auto

lemma decode_scalar_EOF: "decode_scalar (c # s) \<noteq> Inl EOF"
proof -
  have "word_token w t r \<noteq> Inl EOF" for w t r
    using scan_word_EOF [of w r] by (cases "scan_word w r") (simp_all add: word_token_def)
  moreover have "decode_string r \<noteq> Inl EOF" for r
    using scan_string_EOF [of "drop 1 r"] by (cases "scan_string (drop 1 r)") (auto simp: decode_string_def)
  ultimately show ?thesis
    using scan_number_EOF [of "c # s"]
    by (cases "decode_string (c # s)"; cases "scan_number (c # s)") (auto simp: decode_scalar_def)
qed

lemma Token_EOF:
  assumes "dec_state d = TokenTopValue"
  shows "(\<exists>d'. Token d = (Inl EOF, d')) \<longleftrightarrow> spaces (dec_in d)"
proof (cases "dropWhile json_space (dec_in d)")
  case Nil
  then have "spaces (dec_in d)" by (simp add: spaces_def list_all_iff)
  moreover have "Token d = (Inl EOF, d\<lparr>dec_in := []\<rparr>)"
    using Nil by (simp add: Token.simps [of d] peek_def del: dropWhile_eq_Nil_conv)
  ultimately show ?thesis by blast
next
  case (Cons c s)
  then have "\<not> spaces (dec_in d)" by (metis append_Nil2 dropWhile.simps(1) dropWhile_spaces list.discI)
  moreover have "value_token c (d\<lparr>dec_in := c # s\<rparr>) \<noteq> (Inl EOF, d')" for d'
    using decode_scalar_EOF [of c s] by (auto simp: value_token_def split: sum.splits)
  then have "Token d \<noteq> (Inl EOF, d')" for d'
    using assms by (simp add: Token.simps [of d] peek_def Cons open_token_def close_token_def)
  ultimately show ?thesis by blast
qed

lemma check_passes_iff:
  "rejectDuplicateJSONMembers raw = None \<longleftrightarrow>
     (\<exists>d. rejectDuplicateJSONObjectMembers (NewDecoder raw) = (None, d) \<and> (\<exists>d'. Token d = (Inl EOF, d')))"
  by (auto simp: rejectDuplicateJSONMembers_def split: prod.splits option.splits sum.splits)

text \<open>
  C27: the duplicate-member check of the runtime client decides a property of the text. It passes on a byte
  string exactly when the string is a JSON text in which no object, at any depth, has two members whose names are
  equal after unquoting; the token loop, its seen-sets and the scanner's escape handling are equivalent to the
  grammar and the condition on the tree.
\<close>

theorem rejectDuplicateJSONMembers_iff:
  "rejectDuplicateJSONMembers raw = None \<longleftrightarrow> (\<exists>t. json_text raw t \<and> distinct_members t)"
proof
  assume "rejectDuplicateJSONMembers raw = None"
  then obtain d d' where d: "rejectDuplicateJSONObjectMembers (NewDecoder raw) = (None, d)" "Token d = (Inl EOF, d')"
    by (auto simp: check_passes_iff)
  have r: "value_read (NewDecoder raw) d" by (rule check_reads(1) [OF d(1)]) (simp_all add: NewDecoder_def due_def)
  then have "dec_state d = TokenTopValue" by (simp add: value_read_def NewDecoder_def after_value_def)
  then have "spaces (dec_in d)" using Token_EOF d(2) by blast
  then show "\<exists>t. json_text raw t \<and> distinct_members t"
    using r by (auto simp: value_read_def NewDecoder_def json_text_def lead_def)
next
  assume "\<exists>t. json_text raw t \<and> distinct_members t"
  then obtain w p w' t where p: "raw = w @ p @ w'" "spaces w" "json_value p t" "spaces w'" "distinct_members t"
    by (auto simp: json_text_def)
  have "stops w'" using stops_spaces [OF p(4), of "[]"] by (simp add: stops_def)
  then have "rejectDuplicateJSONObjectMembers (NewDecoder raw) = (None, \<lparr>dec_in = w', dec_state = TokenTopValue, dec_stack = []\<rparr>)"
    using grammar_accepted(1) [OF p(3,5)] p(1,2) by (auto simp: value_ok_def NewDecoder_def lead_def after_value_def)
  then show "rejectDuplicateJSONMembers raw = None" using Token_EOF p(4) by (simp add: check_passes_iff)
qed

end
