(* ===== verification/Identity_Policy.thy ===== *)
theory Identity_Policy
  imports Go_Base
begin

text \<open>
  The verifier-local identity policy, \<open>pkg/atls/identitypolicy/policy.go\<close>.

  Expected values (local policy) and observed values (from an authenticated assertion) are the same
  record \<open>Values\<close>. \<open>Validate\<close> compares them layer by layer (L3 service and tenant, L4 agent, L5 task,
  L6 authorization sets and references) and collects every failure into a \<open>ValidationErrors\<close>;
  \<open>ValidateAssertion\<close> adds the comparison of the session binding. A Go \<open>error\<close> is a \<open>go_error option\<close>
  (\<open>None\<close> is \<open>nil\<close>); a \<open>*ValidationError\<close> inside a \<open>ValidationErrors\<close> slice is a
  \<open>validation_error option\<close>, since the slice may hold \<open>nil\<close> pointers.
  The second half states what acceptance means (\<open>policy_ok\<close>, \<open>binding_ok\<close>) without loops and error
  lists and proves that the code decides exactly that.
\<close>

subsection \<open>Errors\<close>

datatype sentinel =
    ErrMissingExpected | ErrMissingObserved | ErrMismatch | ErrInvalidMode | ErrUnsafeValue
  | ErrValueTooLong | ErrTooManyValues | ErrMissingBinding | ErrExpiredAssertion | ErrFutureAssertion
  | ErrUnauthorizedBindingKey | ErrReplayDetected | ErrMissingSetNXStore | ErrReplayStoreFailed
  | ErrForeign string \<comment> \<open>any other error value, e.g. of a caller-supplied cache\<close>

datatype go_error =
    Sentinel sentinel
  | VErr validation_error
  | VErrs "validation_error option list"
and validation_error = ValidationError (Layer: string) (Field: string) (Err: go_error)

type_synonym validation_errors = "validation_error option list"

text \<open>\<open>errors.Is\<close> against one of the sentinels: it follows both \<open>Unwrap\<close> methods.\<close>

fun errors_is :: "go_error \<Rightarrow> sentinel \<Rightarrow> bool" and
    verr_is :: "validation_error \<Rightarrow> sentinel \<Rightarrow> bool" where
  "errors_is (Sentinel s) t = (s = t)"
| "errors_is (VErr v) t = verr_is v t"
| "errors_is (VErrs vs) t = list_ex (\<lambda>p. case p of None \<Rightarrow> False | Some v \<Rightarrow> verr_is v t) vs"
| "verr_is (ValidationError _ _ e) t = errors_is e t"

abbreviation (input) LayerL3 :: string where "LayerL3 \<equiv> ''L3''"
abbreviation (input) LayerL4 :: string where "LayerL4 \<equiv> ''L4''"
abbreviation (input) LayerL5 :: string where "LayerL5 \<equiv> ''L5''"
abbreviation (input) LayerL6 :: string where "LayerL6 \<equiv> ''L6''"

abbreviation (input) ModeDefault :: string where "ModeDefault \<equiv> ''''"
abbreviation (input) ModeDisabled :: string where "ModeDisabled \<equiv> ''disabled''"
abbreviation (input) ModeRequired :: string where "ModeRequired \<equiv> ''required''"
abbreviation (input) SetModeDefault :: string where "SetModeDefault \<equiv> ''''"
abbreviation (input) SetModeContainsAll :: string where "SetModeContainsAll \<equiv> ''contains_all''"
abbreviation (input) SetModeExact :: string where "SetModeExact \<equiv> ''exact''"

abbreviation (input) FieldAll :: string where "FieldAll \<equiv> ''*''"
abbreviation (input) FieldService :: string where "FieldService \<equiv> ''service''"
abbreviation (input) FieldTenant :: string where "FieldTenant \<equiv> ''tenant''"
abbreviation (input) FieldDeployment :: string where "FieldDeployment \<equiv> ''deployment''"
abbreviation (input) FieldEnvironment :: string where "FieldEnvironment \<equiv> ''environment''"
abbreviation (input) FieldWorkload :: string where "FieldWorkload \<equiv> ''workload''"
abbreviation (input) FieldAgent :: string where "FieldAgent \<equiv> ''agent''"
abbreviation (input) FieldAgentPublicKey :: string where "FieldAgentPublicKey \<equiv> ''agent_public_key''"
abbreviation (input) FieldComputationID :: string where "FieldComputationID \<equiv> ''computation_id''"
abbreviation (input) FieldTaskID :: string where "FieldTaskID \<equiv> ''task_id''"
abbreviation (input) FieldThreadID :: string where "FieldThreadID \<equiv> ''thread_id''"
abbreviation (input) FieldDelegationID :: string where "FieldDelegationID \<equiv> ''delegation_id''"
abbreviation (input) FieldIntentRef :: string where "FieldIntentRef \<equiv> ''intent_ref''"
abbreviation (input) FieldCapabilityRef :: string where "FieldCapabilityRef \<equiv> ''capability_ref''"
abbreviation (input) FieldOntologyID :: string where "FieldOntologyID \<equiv> ''ontology_id''"
abbreviation (input) FieldScopes :: string where "FieldScopes \<equiv> ''scopes''"
abbreviation (input) FieldResources :: string where "FieldResources \<equiv> ''resources''"
abbreviation (input) FieldAuthorizationDetails :: string where "FieldAuthorizationDetails \<equiv> ''authorization_details''"
abbreviation (input) FieldLeafPublicKeyHash :: string where "FieldLeafPublicKeyHash \<equiv> ''leaf_public_key_sha256''"
abbreviation (input) FieldTLSExporterHash :: string where "FieldTLSExporterHash \<equiv> ''tls_exporter_sha256''"
abbreviation (input) FieldRequestContextHash :: string where "FieldRequestContextHash \<equiv> ''request_context_sha256''"
abbreviation (input) FieldAttestationBinderHash :: string where
  "FieldAttestationBinderHash \<equiv> ''attestation_binder_sha256''"
abbreviation (input) FieldNonce :: string where "FieldNonce \<equiv> ''nonce''"
abbreviation (input) FieldExpiresAt :: string where "FieldExpiresAt \<equiv> ''expires_at''"
abbreviation (input) FieldIssuedAt :: string where "FieldIssuedAt \<equiv> ''issued_at''"

definition MaxValueLength :: nat where "MaxValueLength = 1024"
definition MaxSetValues :: nat where "MaxSetValues = 128"


subsection \<open>Data\<close>

record Requirements =
  L3 :: bool
  L4 :: bool
  L5 :: bool
  L6 :: bool

definition Requirements_Enabled :: "Requirements \<Rightarrow> bool" where
  "Requirements_Enabled r \<longleftrightarrow> L3 r \<or> L4 r \<or> L5 r \<or> L6 r"

record Values =
  Service :: string
  Tenant :: string
  Deployment :: string
  Environment :: string
  Workload :: string
  Agent :: string
  AgentPublicKey :: string
  ComputationID :: string
  TaskID :: string
  ThreadID :: string
  DelegationID :: string
  IntentRef :: string
  CapabilityRef :: string
  OntologyID :: string
  Scopes :: "string list"
  Resources :: "string list"
  AuthorizationDetails :: "string list"

record Binding =
  LeafPublicKeySHA256 :: string
  TLSExporterSHA256 :: string
  RequestContextSHA256 :: string
  AttestationBinderSHA256 :: string
  Nonce :: string
  IssuedAt :: go_time
  ExpiresAt :: go_time

record Assertion =
  A_Issuer :: string
  A_Values :: Values
  A_Binding :: Binding

record Policy =
  P_Mode :: string
  P_SetMode :: string
  P_Require :: Requirements
  P_Expected :: Values

definition Policy_Enabled :: "Policy \<Rightarrow> bool" where
  "Policy_Enabled p =
     (if P_Mode p = ModeDisabled then False
      else if P_Mode p = ModeRequired then True
      else if P_Mode p = ModeDefault then Requirements_Enabled (P_Require p)
      else False)"

definition ValidateMode :: "Policy \<Rightarrow> sentinel option" where
  "ValidateMode p =
     (if P_Mode p \<notin> {ModeDefault, ModeDisabled, ModeRequired} then Some ErrInvalidMode
      else if P_SetMode p \<notin> {SetModeDefault, SetModeContainsAll, SetModeExact} then Some ErrInvalidMode
      else None)"


subsection \<open>The aggregate of validation errors\<close>

definition validationError :: "string \<Rightarrow> string \<Rightarrow> go_error \<Rightarrow> validation_error" where
  "validationError layer field err = ValidationError layer field err"

definition nonNil :: "validation_errors \<Rightarrow> validation_errors" where
  "nonNil es = filter (\<lambda>e. e \<noteq> None) es"

definition Unwrap_errors :: "validation_errors \<Rightarrow> go_error list" where
  "Unwrap_errors es = map (\<lambda>e. VErr (the e)) (nonNil es)"

definition Has :: "validation_errors \<Rightarrow> string \<Rightarrow> string \<Rightarrow> sentinel option \<Rightarrow> bool" where
  "Has es layer field target =
     list_ex (\<lambda>e. case e of
         None \<Rightarrow> False
       | Some v \<Rightarrow> \<not> (layer \<noteq> '''' \<and> Layer v \<noteq> layer) \<and> \<not> (field \<noteq> '''' \<and> Field v \<noteq> field)
                 \<and> (case target of None \<Rightarrow> True | Some t \<Rightarrow> errors_is (VErr v) t)) es"

definition ByLayer :: "validation_errors \<Rightarrow> string \<Rightarrow> validation_errors" where
  "ByLayer es layer = filter (\<lambda>e. case e of None \<Rightarrow> False | Some v \<Rightarrow> Layer v = layer) es"

definition ByField :: "validation_errors \<Rightarrow> string \<Rightarrow> validation_errors" where
  "ByField es field = filter (\<lambda>e. case e of None \<Rightarrow> False | Some v \<Rightarrow> Field v = field) es"

text \<open>\<open>errors.As\<close> for the two error types of the package, in the order the code tries them.\<close>

fun errors_as_list :: "go_error \<Rightarrow> validation_errors option" and
    verr_as_list :: "validation_error \<Rightarrow> validation_errors option" where
  "errors_as_list (Sentinel _) = None"
| "errors_as_list (VErrs vs) = Some vs"
| "errors_as_list (VErr v) = verr_as_list v"
| "verr_as_list (ValidationError _ _ e) = errors_as_list e"

definition appendValidationErrors :: "validation_errors \<Rightarrow> go_error option \<Rightarrow> validation_errors" where
  "appendValidationErrors errs err =
     (case err of
        None \<Rightarrow> errs
      | Some e \<Rightarrow>
          (case errors_as_list e of
             Some vs \<Rightarrow> errs @ vs
           | None \<Rightarrow>
               (case e of
                  VErr v \<Rightarrow> errs @ [Some v]
                | _ \<Rightarrow> errs @ [Some (validationError FieldAll FieldAll e)])))"

text \<open>\<open>if len(errs) > 0 { return errs }; return nil\<close>\<close>

definition errors_or_nil :: "validation_errors \<Rightarrow> go_error option" where
  "errors_or_nil errs = (if 0 < length errs then Some (VErrs errs) else None)"


subsection \<open>Checks on single values\<close>

definition isEmpty :: "string \<Rightarrow> bool" where
  "isEmpty value = (TrimSpace value = '''')"

definition isUnsafe :: "string \<Rightarrow> bool" where
  "isUnsafe value =
     (if \<not> ValidString value then True
      else list_ex (\<lambda>r. IsControl r \<or> r = of_char CHR ''<'' \<or> r = of_char CHR ''>'') (string_runes value))"

definition validateValue :: "string \<Rightarrow> sentinel option" where
  "validateValue value =
     (if length value > MaxValueLength then Some ErrValueTooLong
      else if isUnsafe value then Some ErrUnsafeValue
      else None)"

definition validateReferenceValue :: "string \<Rightarrow> sentinel option" where
  "validateReferenceValue value =
     (case validateValue value of
        Some e \<Rightarrow> Some e
      | None \<Rightarrow>
          (let hasNamespace = list_ex (\<lambda>r. r = of_char CHR '':'') (string_runes value)
           in if list_ex (\<lambda>r. r < of_char CHR ''!'' \<or> r > of_char CHR ''~'' \<or> IsSpace r) (string_runes value)
              then Some ErrUnsafeValue
              else if \<not> hasNamespace \<or> take 1 value = '':'' \<or> drop (length value - 1) value = '':''
              then Some ErrUnsafeValue
              else None))"

definition validateFieldValue :: "string \<Rightarrow> string \<Rightarrow> sentinel option" where
  "validateFieldValue fieldName value =
     (if fieldName \<in> {FieldIntentRef, FieldCapabilityRef, FieldOntologyID}
      then validateReferenceValue value
      else validateValue value)"


subsection \<open>Exactly matched layers\<close>

type_synonym field = "string \<times> (Values \<Rightarrow> string)"

text \<open>
  One iteration of the loop over the fields of a layer: the errors it appends. \<open>check\<close> is the value
  check the loop applies (\<open>validateFieldValue\<close> here, \<open>validateReferenceValue\<close> in L6).
\<close>

definition matchField ::
    "string \<Rightarrow> (string \<Rightarrow> sentinel option) \<Rightarrow> string \<Rightarrow> string \<Rightarrow> string \<Rightarrow> validation_errors" where
  "matchField layer check name want got =
     (if isEmpty want then []
      else case check want of
        Some e \<Rightarrow> [Some (validationError layer name (Sentinel e))]
      | None \<Rightarrow>
          if isEmpty got then [Some (validationError layer name (Sentinel ErrMissingObserved))]
          else case check got of
            Some e \<Rightarrow> [Some (validationError layer name (Sentinel e))]
          | None \<Rightarrow>
              if got \<noteq> want then [Some (validationError layer name (Sentinel ErrMismatch))]
              else [])"

definition validateExactLayer :: "string \<Rightarrow> Values \<Rightarrow> Values \<Rightarrow> field list \<Rightarrow> go_error option" where
  "validateExactLayer layer expected observed fs =
     (let errs = concat (map (\<lambda>(name, get).
                   matchField layer (validateFieldValue name) name (get expected) (get observed)) fs);
          hasExpected = list_ex (\<lambda>(name, get). \<not> isEmpty (get expected)) fs
      in if \<not> hasExpected then Some (VErr (validationError layer FieldAll (Sentinel ErrMissingExpected)))
         else errors_or_nil errs)"

definition fieldsL3 :: "field list" where
  "fieldsL3 = [(FieldService, Service), (FieldTenant, Tenant), (FieldDeployment, Deployment),
     (FieldEnvironment, Environment)]"

definition fieldsL4 :: "field list" where
  "fieldsL4 = [(FieldWorkload, Workload), (FieldAgent, Agent), (FieldAgentPublicKey, AgentPublicKey)]"

definition fieldsL5 :: "field list" where
  "fieldsL5 = [(FieldComputationID, ComputationID), (FieldTaskID, TaskID), (FieldThreadID, ThreadID),
     (FieldDelegationID, DelegationID), (FieldIntentRef, IntentRef)]"


subsection \<open>Set-valued fields and layer L6\<close>

text \<open>The loop of \<open>validatedSet\<close>; \<open>set\<close> is the map built so far, as its set of keys.\<close>

fun validatedSet_loop ::
    "string \<Rightarrow> string \<Rightarrow> sentinel \<Rightarrow> string list \<Rightarrow> string set \<Rightarrow> go_error + string set" where
  "validatedSet_loop layer fieldName emptyErr [] acc = Inr acc"
| "validatedSet_loop layer fieldName emptyErr (value # values) acc =
     (if isEmpty value then
        (if emptyErr = ErrMissingExpected
         then Inl (VErr (validationError layer fieldName (Sentinel emptyErr)))
         else validatedSet_loop layer fieldName emptyErr values acc)
      else case validateValue value of
        Some e \<Rightarrow> Inl (VErr (validationError layer fieldName (Sentinel e)))
      | None \<Rightarrow> validatedSet_loop layer fieldName emptyErr values (insert value acc))"

definition validatedSet ::
    "string \<Rightarrow> string \<Rightarrow> string list \<Rightarrow> sentinel \<Rightarrow> go_error + string set" where
  "validatedSet layer fieldName values emptyErr =
     (if length values > MaxSetValues
      then Inl (VErr (validationError layer fieldName (Sentinel ErrTooManyValues)))
      else case validatedSet_loop layer fieldName emptyErr values {} of
        Inl e \<Rightarrow> Inl e
      | Inr s \<Rightarrow> if card s = 0 then Inl (VErr (validationError layer fieldName (Sentinel emptyErr)))
                else Inr s)"

definition requireExactSet :: "string \<Rightarrow> string \<Rightarrow> string list \<Rightarrow> string list \<Rightarrow> go_error option" where
  "requireExactSet layer fieldName expected observed =
     (case validatedSet layer fieldName expected ErrMissingExpected of
        Inl e \<Rightarrow> Some e
      | Inr expectedSet \<Rightarrow>
          (case validatedSet layer fieldName observed ErrMissingObserved of
             Inl e \<Rightarrow> Some e
           | Inr observedSet \<Rightarrow>
               if card expectedSet \<noteq> card observedSet
               then Some (VErr (validationError layer fieldName (Sentinel ErrMismatch)))
               else if \<exists>value \<in> expectedSet. value \<notin> observedSet
               then Some (VErr (validationError layer fieldName (Sentinel ErrMismatch)))
               else None))"

text \<open>The two loops of \<open>requireContainsAll\<close>; the second one builds \<open>seen\<close>.\<close>

fun containsAll_expected :: "string \<Rightarrow> string \<Rightarrow> string list \<Rightarrow> go_error option" where
  "containsAll_expected layer fieldName [] = None"
| "containsAll_expected layer fieldName (value # values) =
     (if isEmpty value then Some (VErr (validationError layer fieldName (Sentinel ErrMissingExpected)))
      else case validateValue value of
        Some e \<Rightarrow> Some (VErr (validationError layer fieldName (Sentinel e)))
      | None \<Rightarrow> containsAll_expected layer fieldName values)"

fun containsAll_seen :: "string \<Rightarrow> string \<Rightarrow> string list \<Rightarrow> string set \<Rightarrow> go_error + string set" where
  "containsAll_seen layer fieldName [] seen = Inr seen"
| "containsAll_seen layer fieldName (value # values) seen =
     (if isEmpty value then containsAll_seen layer fieldName values seen
      else case validateValue value of
        Some e \<Rightarrow> Inl (VErr (validationError layer fieldName (Sentinel e)))
      | None \<Rightarrow> containsAll_seen layer fieldName values (insert value seen))"

definition requireContainsAll :: "string \<Rightarrow> string \<Rightarrow> string list \<Rightarrow> string list \<Rightarrow> go_error option" where
  "requireContainsAll layer fieldName expected observed =
     (if length expected > MaxSetValues \<or> length observed > MaxSetValues
      then Some (VErr (validationError layer fieldName (Sentinel ErrTooManyValues)))
      else case containsAll_expected layer fieldName expected of
        Some e \<Rightarrow> Some e
      | None \<Rightarrow>
          (case containsAll_seen layer fieldName observed {} of
             Inl e \<Rightarrow> Some e
           | Inr seen \<Rightarrow>
               if card seen = 0
               then Some (VErr (validationError layer fieldName (Sentinel ErrMissingObserved)))
               else if list_ex (\<lambda>value. value \<notin> seen) expected
               then Some (VErr (validationError layer fieldName (Sentinel ErrMismatch)))
               else None))"

definition validateSet ::
    "string \<Rightarrow> string \<Rightarrow> string list \<Rightarrow> string list \<Rightarrow> string \<Rightarrow> go_error option" where
  "validateSet layer fieldName expected observed setMode =
     (if setMode = SetModeDefault \<or> setMode = SetModeExact
      then requireExactSet layer fieldName expected observed
      else if setMode = SetModeContainsAll
      then requireContainsAll layer fieldName expected observed
      else Some (VErr (validationError layer fieldName (Sentinel ErrInvalidMode))))"

definition setMode :: "Policy \<Rightarrow> string" where
  "setMode p = (if P_SetMode p = SetModeDefault then SetModeExact else P_SetMode p)"

definition validateL6 :: "Values \<Rightarrow> Values \<Rightarrow> string \<Rightarrow> go_error option" where
  "validateL6 expected observed mode =
     (let errs = (if 0 < length (Scopes expected) then appendValidationErrors []
                    (validateSet LayerL6 FieldScopes (Scopes expected) (Scopes observed) mode) else []);
          errs = (if 0 < length (Resources expected) then appendValidationErrors errs
                    (validateSet LayerL6 FieldResources (Resources expected) (Resources observed) mode)
                  else errs);
          errs = (if 0 < length (AuthorizationDetails expected) then appendValidationErrors errs
                    (validateSet LayerL6 FieldAuthorizationDetails (AuthorizationDetails expected)
                       (AuthorizationDetails observed) mode) else errs);
          errs = errs @ matchField LayerL6 validateReferenceValue FieldCapabilityRef
                    (CapabilityRef expected) (CapabilityRef observed);
          errs = errs @ matchField LayerL6 validateReferenceValue FieldOntologyID
                    (OntologyID expected) (OntologyID observed);
          hasExpected = (0 < length (Scopes expected) \<or> 0 < length (Resources expected)
             \<or> 0 < length (AuthorizationDetails expected)
             \<or> \<not> isEmpty (CapabilityRef expected) \<or> \<not> isEmpty (OntologyID expected))
      in if \<not> hasExpected then Some (VErr (validationError LayerL6 FieldAll (Sentinel ErrMissingExpected)))
         else errors_or_nil errs)"


subsection \<open>Validation of values, binding and assertion\<close>

definition Validate :: "Policy \<Rightarrow> Values \<Rightarrow> go_error option" where
  "Validate policy observed =
     (let errs = (case ValidateMode policy of
                    Some e \<Rightarrow> [Some (validationError ''policy'' ''mode'' (Sentinel e))] | None \<Rightarrow> []);
          errs = (if P_Mode policy = ModeRequired \<and> \<not> Requirements_Enabled (P_Require policy)
                  then errs @ [Some (validationError ''policy'' FieldAll (Sentinel ErrMissingExpected))]
                  else errs);
          errs = (if L3 (P_Require policy) then appendValidationErrors errs
                    (validateExactLayer LayerL3 (P_Expected policy) observed fieldsL3) else errs);
          errs = (if L4 (P_Require policy) then appendValidationErrors errs
                    (validateExactLayer LayerL4 (P_Expected policy) observed fieldsL4) else errs);
          errs = (if L5 (P_Require policy) then appendValidationErrors errs
                    (validateExactLayer LayerL5 (P_Expected policy) observed fieldsL5) else errs);
          errs = (if L6 (P_Require policy) then appendValidationErrors errs
                    (validateL6 (P_Expected policy) observed (setMode policy)) else errs)
      in errors_or_nil errs)"

text \<open>One iteration of the loop of \<open>validateBinding\<close>.\<close>

definition matchBindingField :: "string \<Rightarrow> string \<Rightarrow> string \<Rightarrow> validation_errors" where
  "matchBindingField name want got =
     (if isEmpty want then []
      else if isUnsafe want then [Some (validationError ''binding'' name (Sentinel ErrUnsafeValue))]
      else if isEmpty got then [Some (validationError ''binding'' name (Sentinel ErrMissingBinding))]
      else if isUnsafe got then [Some (validationError ''binding'' name (Sentinel ErrUnsafeValue))]
      else if got \<noteq> want then [Some (validationError ''binding'' name (Sentinel ErrMismatch))]
      else [])"

definition bindingFields :: "(string \<times> (Binding \<Rightarrow> string)) list" where
  "bindingFields =
     [(FieldLeafPublicKeyHash, LeafPublicKeySHA256), (FieldTLSExporterHash, TLSExporterSHA256),
      (FieldRequestContextHash, RequestContextSHA256),
      (FieldAttestationBinderHash, AttestationBinderSHA256), (FieldNonce, Nonce)]"

definition validateBinding :: "Binding \<Rightarrow> Binding \<Rightarrow> go_time \<Rightarrow> go_error option" where
  "validateBinding observed expected now =
     (let errs = concat (map (\<lambda>(name, get). matchBindingField name (get expected) (get observed))
                   bindingFields);
          hasExpected = list_ex (\<lambda>(name, get). \<not> isEmpty (get expected)) bindingFields;
          errs = (if \<not> hasExpected
                  then errs @ [Some (validationError ''binding'' FieldAll (Sentinel ErrMissingExpected))]
                  else errs);
          errs = (if ExpiresAt observed = 0
                  then errs @ [Some (validationError ''binding'' FieldExpiresAt (Sentinel ErrMissingBinding))]
                  else if now \<noteq> 0 \<and> now > ExpiresAt observed
                  then errs @ [Some (validationError ''binding'' FieldExpiresAt (Sentinel ErrExpiredAssertion))]
                  else errs);
          errs = (if IssuedAt observed \<noteq> 0 \<and> now \<noteq> 0 \<and> IssuedAt observed > now
                  then errs @ [Some (validationError ''binding'' FieldIssuedAt (Sentinel ErrFutureAssertion))]
                  else errs)
      in errors_or_nil errs)"

definition ValidateAssertion :: "Policy \<Rightarrow> Assertion \<Rightarrow> Binding \<Rightarrow> go_time \<Rightarrow> go_error option" where
  "ValidateAssertion policy assertion expectedBinding now =
     (let errs = appendValidationErrors [] (validateBinding (A_Binding assertion) expectedBinding now);
          errs = appendValidationErrors errs (Validate policy (A_Values assertion))
      in errors_or_nil errs)"



section \<open>What acceptance means\<close>

definition safe_value :: "string \<Rightarrow> bool" where
  "safe_value v \<longleftrightarrow> length v \<le> MaxValueLength \<and> \<not> isUnsafe v"

definition reference_value :: "string \<Rightarrow> bool" where
  "reference_value v \<longleftrightarrow> safe_value v
     \<and> (\<forall>r \<in> set (string_runes v). 33 \<le> r \<and> r \<le> 126) \<and> 58 \<in> set (string_runes v)
     \<and> take 1 v \<noteq> '':'' \<and> drop (length v - 1) v \<noteq> '':''"

definition field_value :: "string \<Rightarrow> string \<Rightarrow> bool" where
  "field_value name v \<longleftrightarrow>
     (if name \<in> {FieldIntentRef, FieldCapabilityRef, FieldOntologyID} then reference_value v
      else safe_value v)"

text \<open>A layer of single values: something is expected, and each expected value is well formed and observed.\<close>

definition layer_ok :: "field list \<Rightarrow> Values \<Rightarrow> Values \<Rightarrow> bool" where
  "layer_ok fs expected observed \<longleftrightarrow>
     (\<exists>(name, get) \<in> set fs. \<not> isEmpty (get expected))
     \<and> (\<forall>(name, get) \<in> set fs. \<not> isEmpty (get expected) \<longrightarrow>
          field_value name (get expected) \<and> get observed = get expected)"

text \<open>A set-valued field: bounded, well formed, and equal (or contained) as sets; empty observed entries do not count.\<close>

definition set_ok :: "string \<Rightarrow> string list \<Rightarrow> string list \<Rightarrow> bool" where
  "set_ok mode expected observed \<longleftrightarrow>
     length expected \<le> MaxSetValues \<and> length observed \<le> MaxSetValues
     \<and> (\<forall>v \<in> set expected. \<not> isEmpty v \<and> safe_value v)
     \<and> (\<forall>v \<in> set observed. \<not> isEmpty v \<longrightarrow> safe_value v)
     \<and> (if mode = SetModeContainsAll then set expected \<subseteq> set observed
        else set expected = {v \<in> set observed. \<not> isEmpty v})"

definition l6_ok :: "string \<Rightarrow> Values \<Rightarrow> Values \<Rightarrow> bool" where
  "l6_ok mode expected observed \<longleftrightarrow>
     (Scopes expected \<noteq> [] \<or> Resources expected \<noteq> [] \<or> AuthorizationDetails expected \<noteq> []
      \<or> \<not> isEmpty (CapabilityRef expected) \<or> \<not> isEmpty (OntologyID expected))
     \<and> (\<forall>get \<in> {Scopes, Resources, AuthorizationDetails}.
          get expected \<noteq> [] \<longrightarrow> set_ok mode (get expected) (get observed))
     \<and> (\<forall>get \<in> {CapabilityRef, OntologyID}. \<not> isEmpty (get expected) \<longrightarrow>
          reference_value (get expected) \<and> get observed = get expected)"

definition policy_ok :: "Policy \<Rightarrow> Values \<Rightarrow> bool" where
  "policy_ok p observed \<longleftrightarrow>
     P_Mode p \<in> {ModeDefault, ModeDisabled, ModeRequired}
     \<and> P_SetMode p \<in> {SetModeDefault, SetModeContainsAll, SetModeExact}
     \<and> (P_Mode p = ModeRequired \<longrightarrow> Requirements_Enabled (P_Require p))
     \<and> (L3 (P_Require p) \<longrightarrow> layer_ok fieldsL3 (P_Expected p) observed)
     \<and> (L4 (P_Require p) \<longrightarrow> layer_ok fieldsL4 (P_Expected p) observed)
     \<and> (L5 (P_Require p) \<longrightarrow> layer_ok fieldsL5 (P_Expected p) observed)
     \<and> (L6 (P_Require p) \<longrightarrow> l6_ok (P_SetMode p) (P_Expected p) observed)"

definition binding_ok :: "Binding \<Rightarrow> Binding \<Rightarrow> go_time \<Rightarrow> bool" where
  "binding_ok observed expected now \<longleftrightarrow>
     (\<exists>(name, get) \<in> set bindingFields. \<not> isEmpty (get expected))
     \<and> (\<forall>(name, get) \<in> set bindingFields. \<not> isEmpty (get expected) \<longrightarrow>
          \<not> isUnsafe (get expected) \<and> get observed = get expected)
     \<and> ExpiresAt observed \<noteq> 0
     \<and> (now \<noteq> 0 \<longrightarrow> now \<le> ExpiresAt observed)
     \<and> (now \<noteq> 0 \<and> IssuedAt observed \<noteq> 0 \<longrightarrow> IssuedAt observed \<le> now)"


subsection \<open>The code decides it\<close>

named_theorems policy_iff

lemma errors_or_nil_None [policy_iff]: "errors_or_nil errs = None \<longleftrightarrow> errs = []"
  by (simp add: errors_or_nil_def)

lemma validateValue_None [policy_iff]: "validateValue v = None \<longleftrightarrow> safe_value v"
  by (simp add: validateValue_def safe_value_def)

lemma space_not_printable: "IsSpace r \<Longrightarrow> r < 33 \<or> 126 < r"
  by (auto simp: IsSpace_def)

lemma validateReferenceValue_None [policy_iff]: "validateReferenceValue v = None \<longleftrightarrow> reference_value v"
  by (cases "validateValue v")
     (auto simp: validateReferenceValue_def reference_value_def list_ex_iff not_le not_less
       simp flip: validateValue_None dest: space_not_printable)

lemma validateFieldValue_None [policy_iff]: "validateFieldValue name v = None \<longleftrightarrow> field_value name v"
  by (simp add: validateFieldValue_def field_value_def policy_iff)

lemma matchField_Nil [policy_iff]:
  "matchField layer check name want got = [] \<longleftrightarrow> isEmpty want \<or> check want = None \<and> got = want"
  by (auto simp: matchField_def split: option.splits)

lemma matchBindingField_Nil [policy_iff]:
  "matchBindingField name want got = [] \<longleftrightarrow> isEmpty want \<or> \<not> isUnsafe want \<and> got = want"
  by (auto simp: matchBindingField_def)

lemma validateExactLayer_None [policy_iff]:
  "validateExactLayer layer expected observed fs = None \<longleftrightarrow> layer_ok fs expected observed"
  by (auto simp: validateExactLayer_def layer_ok_def policy_iff list_ex_iff Let_def)

lemma validatedSet_loop_Inr:
  "validatedSet_loop layer name emptyErr vs acc = Inr s \<longleftrightarrow>
     (\<forall>v \<in> set vs. isEmpty v \<longrightarrow> emptyErr \<noteq> ErrMissingExpected) \<and>
     (\<forall>v \<in> set vs. \<not> isEmpty v \<longrightarrow> safe_value v) \<and> s = acc \<union> {v \<in> set vs. \<not> isEmpty v}"
proof (induction vs arbitrary: acc)
  case (Cons v vs)
  then show ?case
    by (cases "validateValue v") (auto simp: policy_iff simp flip: validateValue_None)
qed auto

lemma validatedSet_Inr:
  "validatedSet layer name vs emptyErr = Inr s \<longleftrightarrow>
     length vs \<le> MaxSetValues \<and> (\<forall>v \<in> set vs. isEmpty v \<longrightarrow> emptyErr \<noteq> ErrMissingExpected) \<and>
     (\<forall>v \<in> set vs. \<not> isEmpty v \<longrightarrow> safe_value v) \<and> s = {v \<in> set vs. \<not> isEmpty v} \<and> s \<noteq> {}"
proof (cases "validatedSet_loop layer name emptyErr vs {}")
  case (Inl e)
  then have "\<not> ((\<forall>v \<in> set vs. isEmpty v \<longrightarrow> emptyErr \<noteq> ErrMissingExpected) \<and>
      (\<forall>v \<in> set vs. \<not> isEmpty v \<longrightarrow> safe_value v))"
    using validatedSet_loop_Inr [of layer name emptyErr vs "{}" "{} \<union> {v \<in> set vs. \<not> isEmpty v}"] by simp
  then show ?thesis unfolding validatedSet_def Inl by (simp only: sum.case split: if_split) blast
next
  case (Inr t)
  then have "t = {v \<in> set vs. \<not> isEmpty v}" by (simp add: validatedSet_loop_Inr)
  moreover from this have "card t = 0 \<longleftrightarrow> t = {}" by simp
  ultimately show ?thesis
    using Inr [unfolded validatedSet_loop_Inr]
    by (cases "t = {}") (auto simp: validatedSet_def Inr)
qed

lemma containsAll_expected_None:
  "containsAll_expected layer name vs = None \<longleftrightarrow> (\<forall>v \<in> set vs. \<not> isEmpty v \<and> safe_value v)"
  by (induction vs) (auto simp: policy_iff split: option.splits simp flip: validateValue_None)

lemma containsAll_seen_Inr:
  "containsAll_seen layer name vs acc = Inr s \<longleftrightarrow>
     (\<forall>v \<in> set vs. \<not> isEmpty v \<longrightarrow> safe_value v) \<and> s = acc \<union> {v \<in> set vs. \<not> isEmpty v}"
proof (induction vs arbitrary: acc)
  case (Cons v vs)
  then show ?case
    by (cases "validateValue v") (auto simp flip: validateValue_None)
qed auto


lemma requireExactSet_None:
  assumes "expected \<noteq> []"
  shows "requireExactSet layer name expected observed = None \<longleftrightarrow> set_ok SetModeExact expected observed"
proof (cases "validatedSet layer name expected ErrMissingExpected")
  case (Inl e)
  then have "\<not> (length expected \<le> MaxSetValues \<and> (\<forall>v \<in> set expected. \<not> isEmpty v \<and> safe_value v))"
    using validatedSet_Inr [of layer name expected ErrMissingExpected "set expected"] assms by auto
  then show ?thesis using Inl by (auto simp: requireExactSet_def set_ok_def)
next
  case (Inr es)
  note e = Inr Inr [unfolded validatedSet_Inr]
  show ?thesis
  proof (cases "validatedSet layer name observed ErrMissingObserved")
    case (Inl err)
    then have "\<not> (length observed \<le> MaxSetValues \<and> (\<forall>v \<in> set observed. \<not> isEmpty v \<longrightarrow> safe_value v)
        \<and> {v \<in> set observed. \<not> isEmpty v} \<noteq> {})"
      using validatedSet_Inr [of layer name observed ErrMissingObserved "{v \<in> set observed. \<not> isEmpty v}"]
      by auto
    moreover obtain v where "v \<in> set expected" using assms by (cases expected) auto
    ultimately show ?thesis using Inl e(1) by (auto simp: requireExactSet_def set_ok_def)
  next
    case (Inr os)
    note o = Inr Inr [unfolded validatedSet_Inr]
    have "es \<subseteq> os \<Longrightarrow> card es = card os \<Longrightarrow> es = os"
      using o(2) by (simp add: card_subset_eq)
    then have "requireExactSet layer name expected observed = None \<longleftrightarrow> es = os"
      using e(1) o(1) by (auto simp: requireExactSet_def)
    moreover have "es = set expected" "os = {v \<in> set observed. \<not> isEmpty v}"
      using e(2) o(2) by auto
    ultimately show ?thesis using e(2) o(2) by (auto simp: set_ok_def)
  qed
qed

lemma requireContainsAll_None:
  assumes "expected \<noteq> []"
  shows "requireContainsAll layer name expected observed = None
    \<longleftrightarrow> set_ok SetModeContainsAll expected observed"
proof (cases "containsAll_expected layer name expected")
  case (Some e)
  then have "\<not> (\<forall>v \<in> set expected. \<not> isEmpty v \<and> safe_value v)"
    using containsAll_expected_None [of layer name expected] by simp
  then show ?thesis using Some by (auto simp: requireContainsAll_def set_ok_def)
next
  case None
  note e = None None [unfolded containsAll_expected_None]
  show ?thesis
  proof (cases "containsAll_seen layer name observed {}")
    case (Inl err)
    then have "\<not> (\<forall>v \<in> set observed. \<not> isEmpty v \<longrightarrow> safe_value v)"
      using containsAll_seen_Inr [of layer name observed "{}" "{} \<union> {v \<in> set observed. \<not> isEmpty v}"] by simp
    then show ?thesis using Inl e(1) by (auto simp: requireContainsAll_def set_ok_def)
  next
    case (Inr seen)
    note o = Inr Inr [unfolded containsAll_seen_Inr]
    have "card seen = 0 \<longleftrightarrow> seen = {}" using o(2) by simp
    moreover have "(\<forall>v \<in> set expected. v \<in> seen) \<longleftrightarrow> set expected \<subseteq> set observed"
      using e(2) o(2) by auto
    ultimately show ?thesis using e o assms
      by (auto simp: requireContainsAll_def set_ok_def list_ex_iff not_less)
  qed
qed

lemma validateSet_None [policy_iff]:
  assumes "expected \<noteq> []" and "mode \<in> {SetModeContainsAll, SetModeExact}"
  shows "validateSet layer name expected observed mode = None \<longleftrightarrow> set_ok mode expected observed"
  using assms by (auto simp: validateSet_def requireExactSet_None requireContainsAll_None)

lemma set_ok_default: "set_ok SetModeDefault = set_ok SetModeExact"
  by (intro ext) (simp add: set_ok_def)

text \<open>
  No validator returns an empty \<open>ValidationErrors\<close>: a failure always leaves an entry in the aggregate.
\<close>

definition genuine :: "go_error option \<Rightarrow> bool" where
  "genuine err \<longleftrightarrow> (\<forall>e. err = Some e \<longrightarrow> errors_as_list e \<noteq> Some [])"

lemma appendValidationErrors_Nil [policy_iff]:
  "genuine err \<Longrightarrow> appendValidationErrors errs err = [] \<longleftrightarrow> errs = [] \<and> err = None"
  by (auto simp: appendValidationErrors_def genuine_def split: option.splits go_error.splits)

lemma genuine_basic [simp, intro]:
  "genuine None" "genuine (Some (VErr (validationError layer name (Sentinel s))))"
  "genuine (errors_or_nil errs)"
  by (auto simp: genuine_def validationError_def errors_or_nil_def)

lemma genuine_validateExactLayer [simp]: "genuine (validateExactLayer layer expected observed fs)"
  by (simp add: validateExactLayer_def Let_def)

lemma validatedSet_loop_Inl:
  "validatedSet_loop layer name emptyErr vs acc = Inl e \<Longrightarrow> genuine (Some e)"
  by (induction vs arbitrary: acc) (auto split: if_splits option.splits)

lemma validatedSet_Inl: "validatedSet layer name vs emptyErr = Inl e \<Longrightarrow> genuine (Some e)"
  by (auto simp: validatedSet_def split: if_splits sum.splits dest: validatedSet_loop_Inl)

lemma containsAll_genuine:
  "genuine (containsAll_expected layer name vs)"
  "containsAll_seen layer name vs acc = Inl e \<Longrightarrow> genuine (Some e)"
  by (induction vs arbitrary: acc) (auto split: if_splits option.splits)

lemma genuine_validateSet [simp]: "genuine (validateSet layer name expected observed mode)"
proof -
  have "genuine (requireExactSet layer name expected observed)"
    by (auto simp: requireExactSet_def split: sum.splits dest: validatedSet_Inl)
  moreover have "genuine (requireContainsAll layer name expected observed)"
    using containsAll_genuine(1) [of layer name expected]
    by (auto simp: requireContainsAll_def split: sum.splits option.splits dest: containsAll_genuine(2))
  ultimately show ?thesis by (simp add: validateSet_def)
qed

lemma genuine_validateL6 [simp]: "genuine (validateL6 expected observed mode)"
  by (simp add: validateL6_def Let_def)

lemma genuine_Validate [simp]: "genuine (Validate p observed)"
  by (simp add: Validate_def Let_def)

lemma genuine_validateBinding [simp]: "genuine (validateBinding observed expected now)"
  by (simp add: validateBinding_def Let_def)

lemma append_if_Nil: "(if c then appendValidationErrors errs err else errs) = [] \<longleftrightarrow>
    errs = [] \<and> (c \<longrightarrow> err = None)" if "genuine err"
  using that by (simp add: policy_iff)

lemma validateL6_None [policy_iff]:
  assumes "mode \<in> {SetModeContainsAll, SetModeExact}"
  shows "validateL6 expected observed mode = None \<longleftrightarrow> l6_ok mode expected observed"
  using assms
  by (auto simp: validateL6_def l6_ok_def Let_def append_if_Nil errors_or_nil_None matchField_Nil
      validateSet_None validateReferenceValue_None)


lemma ValidateMode_None [policy_iff]:
  "ValidateMode p = None \<longleftrightarrow> P_Mode p \<in> {ModeDefault, ModeDisabled, ModeRequired}
     \<and> P_SetMode p \<in> {SetModeDefault, SetModeContainsAll, SetModeExact}"
  by (simp add: ValidateMode_def)

lemma l6_ok_default: "l6_ok SetModeDefault = l6_ok SetModeExact"
  by (intro ext) (simp add: l6_ok_def set_ok_default)

lemma Validate_None [policy_iff]: "Validate p observed = None \<longleftrightarrow> policy_ok p observed"
proof (cases "ValidateMode p")
  case None
  then have m: "P_Mode p \<in> {ModeDefault, ModeDisabled, ModeRequired}"
    and s: "P_SetMode p \<in> {SetModeDefault, SetModeContainsAll, SetModeExact}"
    by (simp_all only: ValidateMode_None)
  have "validateL6 (P_Expected p) observed (setMode p) = None
      \<longleftrightarrow> l6_ok (P_SetMode p) (P_Expected p) observed"
    using s by (auto simp: setMode_def validateL6_None l6_ok_default)
  then show ?thesis
    using None m s by (simp add: Validate_def policy_ok_def Let_def append_if_Nil errors_or_nil_None
        validateExactLayer_None)
next
  case (Some e)
  then have "\<not> policy_ok p observed" using ValidateMode_None [of p] unfolding policy_ok_def by simp blast
  then show ?thesis using Some by (simp add: Validate_def Let_def append_if_Nil errors_or_nil_None)
qed

lemma validateBinding_None [policy_iff]:
  "validateBinding observed expected now = None \<longleftrightarrow> binding_ok observed expected now"
  by (auto simp: validateBinding_def binding_ok_def Let_def errors_or_nil_None matchBindingField_Nil list_ex_iff
      bindingFields_def)

lemma Has_Nil [simp]: "\<not> Has [] layer name target"
  by (simp add: Has_def)

lemma Has_append [simp]: "Has (es @ fs) layer name target \<longleftrightarrow> Has es layer name target \<or> Has fs layer name target"
  by (simp add: Has_def)

lemma Has_single:
  "Has [Some (validationError l n (Sentinel s))] layer name (Some t) \<longleftrightarrow>
     (layer = '''' \<or> l = layer) \<and> (name = '''' \<or> n = name) \<and> s = t"
  by (auto simp: Has_def validationError_def)

lemma Has_concat: "Has (concat ess) layer name target \<longleftrightarrow> (\<exists>es \<in> set ess. Has es layer name target)"
  by (induction ess) auto

lemma validateValue_not_mismatch: "validateValue v \<noteq> Some ErrMismatch"
  by (simp add: validateValue_def)

lemma validateFieldValue_not_mismatch: "validateFieldValue name v \<noteq> Some ErrMismatch"
  by (auto simp: validateFieldValue_def validateReferenceValue_def Let_def validateValue_not_mismatch
      split: option.splits)

lemma Has_matchField:
  assumes "layer \<noteq> ''''" "name \<noteq> ''''"
  shows "Has (matchField l (validateFieldValue n) n want got) layer name (Some ErrMismatch) \<longleftrightarrow>
    l = layer \<and> n = name \<and> \<not> isEmpty want \<and> \<not> isEmpty got \<and> field_value n want \<and> field_value n got
    \<and> got \<noteq> want"
  using assms validateFieldValue_not_mismatch [of n]
  by (auto simp: matchField_def Has_single simp flip: validateFieldValue_None split: option.splits)


text \<open>Every error a layer reports carries the name of that layer.\<close>

definition tagged :: "string \<Rightarrow> validation_errors \<Rightarrow> bool" where
  "tagged l es \<longleftrightarrow> (\<forall>p \<in> set es. \<exists>n s. p = Some (validationError l n (Sentinel s)))"

definition err_tagged :: "string \<Rightarrow> go_error option \<Rightarrow> bool" where
  "err_tagged l err \<longleftrightarrow> (\<forall>e. err = Some e \<longrightarrow>
     (\<exists>n s. e = VErr (validationError l n (Sentinel s))) \<or> (\<exists>es. e = VErrs es \<and> tagged l es))"

lemma tagged_basic [simp]:
  "tagged l []" "tagged l [Some (validationError l n (Sentinel s))]"
  "tagged l (es @ fs) \<longleftrightarrow> tagged l es \<and> tagged l fs"
  by (auto simp: tagged_def)

lemma err_tagged_basic [simp]:
  "err_tagged l None" "err_tagged l (Some (VErr (validationError l n (Sentinel s))))"
  "err_tagged l (errors_or_nil errs) \<longleftrightarrow> tagged l errs"
  by (auto simp: err_tagged_def errors_or_nil_def tagged_def validationError_def)

lemma appendValidationErrors_tagged:
  "err_tagged l err \<Longrightarrow> \<exists>es. appendValidationErrors errs err = errs @ es \<and> tagged l es"
  by (auto simp: err_tagged_def appendValidationErrors_def validationError_def tagged_def
      split: option.splits go_error.splits)

lemma tagged_append [simp]:
  "err_tagged l err \<Longrightarrow> tagged l (appendValidationErrors errs err) \<longleftrightarrow> tagged l errs"
  using appendValidationErrors_tagged [of l err errs] by auto

lemma tagged_matchField [simp]: "tagged l (matchField l check n want got)"
  by (auto simp: matchField_def split: option.splits)

lemma err_tagged_loops:
  "validatedSet_loop l n emptyErr vs acc = Inl e \<Longrightarrow> err_tagged l (Some e)"
  "err_tagged l (containsAll_expected l n vs)"
  "containsAll_seen l n vs acc = Inl e \<Longrightarrow> err_tagged l (Some e)"
  by (induction vs arbitrary: acc) (auto split: if_splits option.splits)

lemma err_tagged_validateSet [simp]: "err_tagged l (validateSet l n expected observed mode)"
proof -
  have v: "validatedSet l n vs emptyErr = Inl e \<Longrightarrow> err_tagged l (Some e)" for vs emptyErr e
    by (auto simp: validatedSet_def split: if_splits sum.splits dest: err_tagged_loops(1))
  have "err_tagged l (requireExactSet l n expected observed)"
    by (auto simp: requireExactSet_def split: sum.splits dest: v)
  moreover have "err_tagged l (requireContainsAll l n expected observed)"
    using err_tagged_loops(2) [of l n expected]
    by (auto simp: requireContainsAll_def split: sum.splits option.splits dest: err_tagged_loops(3))
  ultimately show ?thesis by (simp add: validateSet_def)
qed

lemma err_tagged_validateL6: "err_tagged LayerL6 (validateL6 expected observed mode)"
  by (simp add: validateL6_def Let_def)

lemma Has_tagged: "tagged l es \<Longrightarrow> layer \<noteq> '''' \<Longrightarrow> l \<noteq> layer \<Longrightarrow> \<not> Has es layer name target"
  by (auto simp: Has_def list_ex_iff tagged_def validationError_def)

lemma Has_append_L6:
  assumes "layer \<noteq> ''''" "layer \<noteq> LayerL6"
  shows "Has (appendValidationErrors errs (validateL6 expected observed mode)) layer name target
    \<longleftrightarrow> Has errs layer name target"
proof -
  obtain es where "appendValidationErrors errs (validateL6 expected observed mode) = errs @ es" "tagged LayerL6 es"
    using appendValidationErrors_tagged [OF err_tagged_validateL6] by blast
  then show ?thesis using Has_tagged [of LayerL6 es layer name target] assms by simp
qed

lemma Has_append_layer:
  assumes "layer \<noteq> ''''" "name \<noteq> ''''"
  shows "Has (appendValidationErrors errs (validateExactLayer l expected observed fs)) layer name (Some ErrMismatch)
    \<longleftrightarrow> Has errs layer name (Some ErrMismatch)
      \<or> l = layer \<and> (\<exists>get. (name, get) \<in> set fs \<and> \<not> isEmpty (get expected) \<and> \<not> isEmpty (get observed)
          \<and> field_value name (get expected) \<and> field_value name (get observed) \<and> get observed \<noteq> get expected)"
proof (cases "list_ex (\<lambda>(name, get). \<not> isEmpty (get expected)) fs")
  case True
  have "appendValidationErrors errs (errors_or_nil es) = errs @ es" for es
    by (simp add: appendValidationErrors_def errors_or_nil_def)
  then show ?thesis using True assms
    by (auto simp: validateExactLayer_def Has_concat Has_matchField Bex_def split_paired_Ex)
next
  case False
  then have "appendValidationErrors errs (validateExactLayer l expected observed fs)
      = errs @ [Some (validationError l FieldAll (Sentinel ErrMissingExpected))]"
    by (simp add: validateExactLayer_def appendValidationErrors_def validationError_def)
  then show ?thesis using False by (auto simp: Has_single list_ex_iff)
qed

text \<open>The layers of single values and their fields, as \<open>Validate\<close> tries them.\<close>

definition required_layer :: "Policy \<Rightarrow> string \<Rightarrow> bool" where
  "required_layer p layer \<longleftrightarrow> (layer = LayerL3 \<and> L3 (P_Require p)) \<or> (layer = LayerL4 \<and> L4 (P_Require p))
     \<or> (layer = LayerL5 \<and> L5 (P_Require p))"

definition layer_fields :: "string \<Rightarrow> field list" where
  "layer_fields layer = (if layer = LayerL3 then fieldsL3 else if layer = LayerL4 then fieldsL4 else fieldsL5)"



subsection \<open>Facts on the aggregate\<close>

lemma Has_ByLayer: "layer \<noteq> '''' \<Longrightarrow> Has es layer '''' None \<longleftrightarrow> ByLayer es layer \<noteq> []"
  by (auto simp: Has_def ByLayer_def list_ex_iff filter_empty_conv split: option.splits)

lemma Has_ByField: "name \<noteq> '''' \<Longrightarrow> Has es '''' name None \<longleftrightarrow> ByField es name \<noteq> []"
  by (auto simp: Has_def ByField_def list_ex_iff filter_empty_conv split: option.splits)

lemma errors_is_Unwrap: "errors_is (VErrs es) t \<longleftrightarrow> (\<exists>e \<in> set (Unwrap_errors es). errors_is e t)"
  by (induction es) (auto simp: Unwrap_errors_def nonNil_def list_ex_iff split: option.splits)

lemma errors_is_Has: "errors_is (VErrs es) t \<longleftrightarrow> Has es '''' '''' (Some t)"
  by (simp add: Has_def cong: option.case_cong)


subsection \<open>A sample policy\<close>

definition no_values :: Values where
  "no_values = \<lparr>Service = '''', Tenant = '''', Deployment = '''', Environment = '''', Workload = '''',
     Agent = '''', AgentPublicKey = '''', ComputationID = '''', TaskID = '''', ThreadID = '''',
     DelegationID = '''', IntentRef = '''', CapabilityRef = '''', OntologyID = '''', Scopes = [],
     Resources = [], AuthorizationDetails = []\<rparr>"

definition sample_policy :: Policy where
  "sample_policy = \<lparr>P_Mode = ModeRequired, P_SetMode = SetModeDefault,
     P_Require = \<lparr>L3 = True, L4 = False, L5 = False, L6 = False\<rparr>,
     P_Expected = no_values\<lparr>Service := ''svc''\<rparr>\<rparr>"

lemma isEmpty_Nil [simp]: "isEmpty ''''"
  by (simp add: isEmpty_def)

lemma isEmpty_head: "of_char c < (128::nat) \<Longrightarrow> \<not> IsSpace (of_char c) \<Longrightarrow> \<not> isEmpty (c # s)"
  using TrimSpace_ascii_head [of c s] by (simp add: isEmpty_def)



end
