(* ===== verification/Replay_Cache.thy ===== *)
theory Replay_Cache
  imports Identity_Policy
begin

text \<open>
  One-shot use of session-binding nonces: the interface \<open>ReplayCache\<close> of
  \<open>pkg/atls/identitypolicy/session_binding.go\<close>, the in-process cache of \<open>replay_cache.go\<close> and the
  cache over a SETNX store of \<open>setnx_replay_cache.go\<close>.

  A cache is its operation \<open>MarkUsed\<close> on an explicit cache state. The clock a cache reads is part of
  that state and changes only by \<open>tick\<close>. The locale \<open>one_shot\<close> is the contract the verifier relies on;
  it is interpreted on the in-process cache, and the cache over a store meets it whenever the store
  meets the SETNX contract. The body of the in-process \<open>MarkUsed\<close> under its mutex is a definition of its own,
  because the clock is read before the mutex is taken.
\<close>

subsection \<open>The interface\<close>

abbreviation (input) LayerIdentityGrant :: string where "LayerIdentityGrant \<equiv> ''identity_grant''"
abbreviation (input) LayerSessionBinding :: string where "LayerSessionBinding \<equiv> ''session_binding''"

text \<open>A \<open>ReplayCache\<close> value; \<open>None\<close> is the nil interface. \<open>'c\<close> is the state behind the interface.\<close>

type_synonym 'c mark_used = "string \<Rightarrow> go_time \<Rightarrow> 'c \<Rightarrow> go_error option \<times> 'c"
type_synonym 'c replay_cache = "'c mark_used option"

text \<open>An entry expiring at \<open>e\<close> is live at clock reading \<open>t\<close>; a zero reading expires nothing.\<close>

definition live_at :: "go_time \<Rightarrow> go_time \<Rightarrow> bool" where
  "live_at t e \<longleftrightarrow> t = 0 \<or> t \<le> e"


subsection \<open>The in-process cache\<close>

record MemoryReplayCache =
  mc_now :: go_time \<comment> \<open>what the next call of \<open>c.now\<close> returns\<close>
  mc_seen :: "string \<rightharpoonup> go_time"

definition NewMemoryReplayCacheWithClock :: "go_time \<Rightarrow> MemoryReplayCache" where
  "NewMemoryReplayCacheWithClock t = \<lparr>mc_now = t, mc_seen = Map.empty\<rparr>"

text \<open>The critical section: the loop that deletes expired entries, the lookup and the insertion.\<close>

definition prune :: "go_time \<Rightarrow> (string \<rightharpoonup> go_time) \<Rightarrow> (string \<rightharpoonup> go_time)" where
  "prune now seen = (\<lambda>seenKey. case seen seenKey of
       None \<Rightarrow> None
     | Some seenExpiresAt \<Rightarrow>
         if seenExpiresAt \<noteq> 0 \<and> now \<noteq> 0 \<and> now > seenExpiresAt then None else Some seenExpiresAt)"

definition mark_locked ::
    "go_time \<Rightarrow> string \<Rightarrow> go_time \<Rightarrow> (string \<rightharpoonup> go_time) \<Rightarrow> go_error option \<times> (string \<rightharpoonup> go_time)" where
  "mark_locked now key expiresAt seen =
     (let seen = prune now seen in
      if seen key \<noteq> None then (Some (Sentinel ErrReplayDetected), seen)
      else (None, seen(key \<mapsto> expiresAt)))"

text \<open>The checks before the mutex is taken; \<open>now\<close> is the clock reading they use.\<close>

definition mark_check :: "go_time \<Rightarrow> string \<Rightarrow> go_time \<Rightarrow> go_error option" where
  "mark_check now key expiresAt =
     (if isEmpty key then Some (VErr (validationError LayerSessionBinding FieldNonce (Sentinel ErrMissingBinding)))
      else if expiresAt = 0
      then Some (VErr (validationError LayerSessionBinding FieldExpiresAt (Sentinel ErrMissingBinding)))
      else if now \<noteq> 0 \<and> now > expiresAt
      then Some (VErr (validationError LayerSessionBinding FieldExpiresAt (Sentinel ErrExpiredAssertion)))
      else None)"

definition MarkUsed :: "MemoryReplayCache option mark_used" where
  "MarkUsed key expiresAt c =
     (case c of
        None \<Rightarrow> (None, None)
      | Some m \<Rightarrow>
          (case mark_check (mc_now m) key expiresAt of
             Some e \<Rightarrow> (Some e, Some m)
           | None \<Rightarrow>
               (case mark_locked (mc_now m) key expiresAt (mc_seen m) of
                  (r, seen) \<Rightarrow> (r, Some (m\<lparr>mc_seen := seen\<rparr>)))))"

text \<open>The same call on a cache pointer known not to be nil.\<close>

definition MarkUsed_ptr :: "MemoryReplayCache mark_used" where
  "MarkUsed_ptr key expiresAt m = (case MarkUsed key expiresAt (Some m) of (r, c) \<Rightarrow> (r, the c))"


subsection \<open>The cache over a SETNX store\<close>

text \<open>
  The store is the caller's: \<open>SetNX key ttl\<close> on a store state returns an error or whether the key was
  set. \<open>Sub\<close> is \<open>time.Time.Sub\<close>, which saturates at the limits of \<open>time.Duration\<close>.
\<close>

type_synonym 's setnx = "string \<Rightarrow> int \<Rightarrow> 's \<Rightarrow> (go_error + bool) \<times> 's"

definition Sub :: "go_time \<Rightarrow> go_time \<Rightarrow> int" where
  "Sub t u = (let d = t - u in if d < - (2 ^ 63) then - (2 ^ 63) else if d > 2 ^ 63 - 1 then 2 ^ 63 - 1 else d)"

record 's SetNXReplayCache =
  sc_store :: "'s setnx option" \<comment> \<open>\<open>None\<close> is the nil store\<close>
  sc_now :: go_time
  sc_state :: 's

definition SetNX_MarkUsed :: "'s SetNXReplayCache option mark_used" where
  "SetNX_MarkUsed key expiresAt c =
     (case c of
        None \<Rightarrow> (None, None)
      | Some s \<Rightarrow>
          (case sc_store s of
             None \<Rightarrow> (Some (VErr (validationError LayerSessionBinding FieldNonce (Sentinel ErrMissingSetNXStore))), Some s)
           | Some setNX \<Rightarrow>
               if isEmpty key
               then (Some (VErr (validationError LayerSessionBinding FieldNonce (Sentinel ErrMissingBinding))), Some s)
               else if expiresAt = 0
               then (Some (VErr (validationError LayerSessionBinding FieldExpiresAt (Sentinel ErrMissingBinding))), Some s)
               else if sc_now s \<noteq> 0 \<and> sc_now s > expiresAt
               then (Some (VErr (validationError LayerSessionBinding FieldExpiresAt (Sentinel ErrExpiredAssertion))), Some s)
               else let ttl = Sub expiresAt (sc_now s) in
                 if ttl \<le> 0
                 then (Some (VErr (validationError LayerSessionBinding FieldExpiresAt (Sentinel ErrExpiredAssertion))), Some s)
                 else case setNX key ttl (sc_state s) of
                   (Inl e, st) \<Rightarrow>
                     (Some (VErr (validationError LayerSessionBinding FieldNonce (Sentinel ErrReplayStoreFailed))),
                      Some (s\<lparr>sc_state := st\<rparr>))
                 | (Inr ok, st) \<Rightarrow>
                     if \<not> ok then (Some (Sentinel ErrReplayDetected), Some (s\<lparr>sc_state := st\<rparr>))
                     else (None, Some (s\<lparr>sc_state := st\<rparr>))))"


section \<open>The contract\<close>

datatype event = Tick go_time | Mark string go_time

fun cache_step :: "'c mark_used \<Rightarrow> (go_time \<Rightarrow> 'c \<Rightarrow> 'c) \<Rightarrow> event \<Rightarrow> 'c \<Rightarrow> 'c" where
  "cache_step mark tick (Tick t) c = tick t c"
| "cache_step mark tick (Mark k e) c = snd (mark k e c)"

text \<open>Every clock reading of a trace keeps an entry expiring at \<open>e\<close> live.\<close>

fun readings_live :: "go_time \<Rightarrow> event list \<Rightarrow> bool" where
  "readings_live e [] = True"
| "readings_live e (Tick t # evs) = (live_at t e \<and> readings_live e evs)"
| "readings_live e (Mark _ _ # evs) = readings_live e evs"

locale one_shot =
  fixes mark :: "'c mark_used"
    and tick :: "go_time \<Rightarrow> 'c \<Rightarrow> 'c"
    and clock :: "'c \<Rightarrow> go_time"
    and holds :: "'c \<Rightarrow> string \<Rightarrow> go_time \<Rightarrow> bool"
  assumes accept_records: "mark k e c = (None, c') \<Longrightarrow> holds c' k e \<and> live_at (clock c) e"
    and held_rejects: "holds c k e \<Longrightarrow> live_at (clock c) e \<Longrightarrow> fst (mark k e' c) \<noteq> None"
    and held_kept: "holds c k e \<Longrightarrow> live_at (clock c) e \<Longrightarrow> holds (snd (mark k' e' c)) k e"
    and clock_mark: "clock (snd (mark k e c)) = clock c"
    and clock_tick: "clock (tick t c) = t"
    and holds_tick: "holds (tick t c) = holds c"
begin

lemma held_run:
  "holds c k e \<Longrightarrow> live_at (clock c) e \<Longrightarrow> readings_live e evs \<Longrightarrow>
   holds (fold (cache_step mark tick) evs c) k e \<and> live_at (clock (fold (cache_step mark tick) evs c)) e"
proof (induction evs arbitrary: c)
  case (Cons ev evs)
  then show ?case
    by (cases ev) (simp_all add: held_kept clock_mark clock_tick holds_tick)
qed simp

theorem accepted_once:
  assumes "mark k e c = (None, c')" and "readings_live e evs"
  shows "fst (mark k e' (fold (cache_step mark tick) evs c')) \<noteq> None"
proof -
  have "clock c' = clock c" using clock_mark [of k e c] assms(1) by simp
  then have "holds (fold (cache_step mark tick) evs c') k e
      \<and> live_at (clock (fold (cache_step mark tick) evs c')) e"
    using held_run [of c' k e evs] accept_records [OF assms(1)] assms(2) by simp
  then show ?thesis by (blast dest: held_rejects)
qed

end


subsection \<open>The in-process cache meets the contract\<close>

lemma prune_live: "seen k = Some e \<Longrightarrow> live_at now e \<Longrightarrow> prune now seen k = Some e"
  by (auto simp: prune_def live_at_def)

lemma MarkUsed_ptr_eq:
  "MarkUsed_ptr key expiresAt m =
     (case mark_check (mc_now m) key expiresAt of
        Some e \<Rightarrow> (Some e, m)
      | None \<Rightarrow> (case mark_locked (mc_now m) key expiresAt (mc_seen m) of
                 (r, seen) \<Rightarrow> (r, m\<lparr>mc_seen := seen\<rparr>)))"
  by (simp add: MarkUsed_ptr_def MarkUsed_def split: option.splits prod.splits)

lemma mark_check_None: "mark_check now key e = None \<longleftrightarrow> \<not> isEmpty key \<and> e \<noteq> 0 \<and> live_at now e"
  by (auto simp: mark_check_def live_at_def)

lemma mark_locked_accept: "mark_locked now key e seen = (None, seen') \<longleftrightarrow>
    prune now seen key = None \<and> seen' = (prune now seen)(key \<mapsto> e)"
  by (auto simp: mark_locked_def Let_def)

lemma mark_locked_kept:
  "seen k = Some e \<Longrightarrow> live_at now e \<Longrightarrow>
   snd (mark_locked now k' e' seen) k = Some e \<and> (k' = k \<longrightarrow> fst (mark_locked now k' e' seen) \<noteq> None)"
  by (auto simp: mark_locked_def Let_def prune_live)

interpretation mem: one_shot MarkUsed_ptr "\<lambda>t m. m\<lparr>mc_now := t\<rparr>" mc_now "\<lambda>m k e. mc_seen m k = Some e"
proof unfold_locales
  fix k e and c c' :: MemoryReplayCache
  assume a: "MarkUsed_ptr k e c = (None, c')"
  then show "mc_seen c' k = Some e \<and> live_at (mc_now c) e"
    by (cases "mark_locked (mc_now c) k e (mc_seen c)")
       (auto simp: MarkUsed_ptr_eq mark_check_None mark_locked_accept split: option.splits)
next
  fix c :: MemoryReplayCache and k e e'
  assume "mc_seen c k = Some e" "live_at (mc_now c) e"
  then show "fst (MarkUsed_ptr k e' c) \<noteq> None"
    using mark_locked_kept [of "mc_seen c" k e "mc_now c" k e']
    by (auto simp: MarkUsed_ptr_eq split: option.splits prod.splits)
next
  fix c :: MemoryReplayCache and k e k' e'
  assume "mc_seen c k = Some e" "live_at (mc_now c) e"
  then show "mc_seen (snd (MarkUsed_ptr k' e' c)) k = Some e"
    using mark_locked_kept [of "mc_seen c" k e "mc_now c" k' e']
    by (auto simp: MarkUsed_ptr_eq split: option.splits prod.splits)
qed (auto simp: MarkUsed_ptr_eq split: option.splits prod.splits)

text \<open>
  A key the cache has not seen, or only with an expired entry, is accepted: the cache rejects nothing else.
\<close>

lemma MarkUsed_ptr_accepts:
  assumes "\<not> isEmpty k" "e \<noteq> 0" "live_at (mc_now m) e"
  shows "fst (MarkUsed_ptr k e m) = None \<longleftrightarrow> prune (mc_now m) (mc_seen m) k = None"
  using assms mark_check_None [of "mc_now m" k e]
  by (simp add: MarkUsed_ptr_eq mark_locked_def Let_def)

text \<open>
  C6: once the in-process cache has accepted a key that expires at \<open>e\<close>, it rejects that key in every
  later call, whatever calls and clock changes lie between, as long as no clock reading in between is
  past \<open>e\<close>.
\<close>

theorem MemoryReplayCache_one_shot:
  assumes "MarkUsed_ptr k e m = (None, m')" and "readings_live e evs"
  shows "fst (MarkUsed_ptr k e' (fold (cache_step MarkUsed_ptr (\<lambda>t m. m\<lparr>mc_now := t\<rparr>)) evs m')) \<noteq> None"
  by (rule mem.accepted_once [OF assms])

theorem MemoryReplayCache_one_shot_witness:
  "fst (MarkUsed_ptr ''n'' 9 (fold (cache_step MarkUsed_ptr (\<lambda>t m. m\<lparr>mc_now := t\<rparr>))
       [Tick 7, Mark ''m'' 20] (snd (MarkUsed_ptr ''n'' 10 (NewMemoryReplayCacheWithClock 5))))) \<noteq> None"
proof -
  have "MarkUsed_ptr ''n'' 10 (NewMemoryReplayCacheWithClock 5)
      = (None, \<lparr>mc_now = 5, mc_seen = [''n'' \<mapsto> 10]\<rparr>)"
    by (simp add: MarkUsed_ptr_eq NewMemoryReplayCacheWithClock_def mark_check_def mark_locked_def prune_def
        isEmpty_head IsSpace_def)
  from MemoryReplayCache_one_shot [OF this, of "[Tick 7, Mark ''m'' 20]" 9] this
  show ?thesis by (simp add: live_at_def)
qed


subsection \<open>Interleaved calls\<close>

text \<open>
  Concurrent calls serialise on the mutex, but each brings the clock reading it made before taking it.
  A run of the critical sections in lock order:
\<close>

fun locked_run :: "(go_time \<times> string \<times> go_time) list \<Rightarrow> (string \<rightharpoonup> go_time) \<Rightarrow> (string \<rightharpoonup> go_time)" where
  "locked_run [] seen = seen"
| "locked_run ((t, k, e) # calls) seen = locked_run calls (snd (mark_locked t k e seen))"

lemma locked_run_kept:
  "seen k = Some e \<Longrightarrow> \<forall>(t, _) \<in> set calls. live_at t e \<Longrightarrow> locked_run calls seen k = Some e"
  by (induction calls arbitrary: seen) (auto simp: mark_locked_kept)

text \<open>
  C7: under concurrency a key is still accepted once, provided no call that enters the critical section
  in between carries a clock reading past its expiry.
\<close>

theorem MarkUsed_interleaved_one_shot:
  assumes "mark_locked t k e seen = (None, seen')"
    and "\<forall>(t', _) \<in> set calls. live_at t' e" and "live_at t'' e"
  shows "fst (mark_locked t'' k e'' (locked_run calls seen')) \<noteq> None"
proof -
  have "seen' k = Some e" using assms(1) by (simp add: mark_locked_accept)
  then have "locked_run calls seen' k = Some e" using assms(2) by (rule locked_run_kept)
  then show ?thesis using mark_locked_kept assms(3) by blast
qed

theorem MarkUsed_interleaved_one_shot_witness:
  "fst (mark_locked 9 ''n'' 10 (locked_run [(8, ''m'', 20)] (snd (mark_locked 5 ''n'' 10 Map.empty)))) \<noteq> None"
  using MarkUsed_interleaved_one_shot [of 5 "''n''" 10 Map.empty "[''n'' \<mapsto> 10]" "[(8, ''m'', 20)]" 9 10]
  by (simp add: mark_locked_def prune_def live_at_def)

text \<open>
  The proviso is needed: the clock is read before the mutex is taken. A call that read the clock before
  the expiry but gets the mutex after a call that read it later finds the entry already deleted, and the
  same key is accepted a second time.
\<close>

theorem MarkUsed_stale_clock_accepts_twice:
  "let first = mark_locked 5 ''n'' 10 Map.empty;
       second = mark_locked 11 ''m'' 20 (snd first);
       third = mark_locked 9 ''n'' 10 (snd second)
   in mark_check 5 ''n'' 10 = None \<and> mark_check 11 ''m'' 20 = None \<and> mark_check 9 ''n'' 10 = None
      \<and> fst first = None \<and> fst second = None \<and> fst third = None"
  by (simp add: mark_check_def mark_locked_def prune_def isEmpty_head IsSpace_def Let_def)


subsection \<open>The cache over a store\<close>

text \<open>The call on a cache pointer that is not nil and has the store \<open>setNX\<close>.\<close>

definition SetNX_ptr :: "'s setnx \<Rightarrow> (go_time \<times> 's) mark_used" where
  "SetNX_ptr setNX key expiresAt c =
     (case SetNX_MarkUsed key expiresAt (Some \<lparr>sc_store = Some setNX, sc_now = fst c, sc_state = snd c\<rparr>) of
        (r, c') \<Rightarrow> (r, sc_now (the c'), sc_state (the c')))"

text \<open>Either a check rejects the call before the store sees it, or the store decides.\<close>

definition setnx_sent :: "string \<Rightarrow> go_time \<Rightarrow> go_time \<Rightarrow> bool" where
  "setnx_sent key e t \<longleftrightarrow> \<not> isEmpty key \<and> e \<noteq> 0 \<and> live_at t e \<and> 0 < Sub e t"

lemma SetNX_ptr_rejects:
  "\<not> setnx_sent key e t \<Longrightarrow> fst (SetNX_ptr setNX key e (t, s)) \<noteq> None \<and> snd (SetNX_ptr setNX key e (t, s)) = (t, s)"
  by (auto simp: SetNX_ptr_def SetNX_MarkUsed_def setnx_sent_def live_at_def Let_def not_le not_less)

lemma SetNX_ptr_sent:
  assumes "setnx_sent key e t"
  shows "SetNX_ptr setNX key e (t, s) = (case setNX key (Sub e t) s of
        (Inl err, s') \<Rightarrow>
          (Some (VErr (validationError LayerSessionBinding FieldNonce (Sentinel ErrReplayStoreFailed))), t, s')
      | (Inr ok, s') \<Rightarrow> (if ok then None else Some (Sentinel ErrReplayDetected), t, s'))"
proof -
  have "\<not> isEmpty key" "e \<noteq> 0" "\<not> (t \<noteq> 0 \<and> t > e)" "\<not> Sub e t \<le> 0"
    using assms by (auto simp: setnx_sent_def live_at_def)
  then show ?thesis
    by (auto simp: SetNX_ptr_def SetNX_MarkUsed_def Let_def split: prod.splits sum.splits)
qed

text \<open>
  What SETNX promises: it sets a key only if the key is absent, a set key is present, and it stays
  present while other keys are set (\<open>held\<close>: the key is present and its time to live has not run out).
\<close>

definition setnx_contract :: "'s setnx \<Rightarrow> ('s \<Rightarrow> string \<Rightarrow> bool) \<Rightarrow> bool" where
  "setnx_contract setNX held \<longleftrightarrow>
     (\<forall>k ttl s. fst (setNX k ttl s) = Inr True \<longrightarrow> held (snd (setNX k ttl s)) k)
     \<and> (\<forall>k ttl s. held s k \<longrightarrow> fst (setNX k ttl s) \<noteq> Inr True)
     \<and> (\<forall>k k' ttl s. held s k \<longrightarrow> held (snd (setNX k' ttl s)) k)"

lemma SetNX_ptr_accept:
  assumes "SetNX_ptr setNX key e (t, s) = (None, c')"
  shows "live_at t e \<and> fst (setNX key (Sub e t) s) = Inr True \<and> c' = (t, snd (setNX key (Sub e t) s))"
proof -
  have "setnx_sent key e t" using SetNX_ptr_rejects [of key e t setNX s] assms by auto
  then show ?thesis
    using assms SetNX_ptr_sent [of key e t setNX s]
    by (cases "setNX key (Sub e t) s") (auto simp: setnx_sent_def split: sum.splits if_splits)
qed

lemma SetNX_ptr_state:
  "snd (SetNX_ptr setNX key e (t, s)) = (t, s)
   \<or> snd (SetNX_ptr setNX key e (t, s)) = (t, snd (setNX key (Sub e t) s))"
proof (cases "setnx_sent key e t")
  case True
  then show ?thesis
    by (cases "setNX key (Sub e t) s") (simp add: SetNX_ptr_sent split: sum.splits)
qed (simp add: SetNX_ptr_rejects)

lemma SetNX_one_shot_contract:
  assumes "setnx_contract setNX held"
  shows "one_shot (SetNX_ptr setNX) (\<lambda>t c. (t, snd c)) fst (\<lambda>c k e. held (snd c) k)"
proof unfold_locales
  fix k e and c c' :: "go_time \<times> 'a"
  assume "SetNX_ptr setNX k e c = (None, c')"
  then show "held (snd c') k \<and> live_at (fst c) e"
    using SetNX_ptr_accept [of setNX k e "fst c" "snd c" c'] assms by (auto simp: setnx_contract_def)
next
  fix k e' and c :: "go_time \<times> 'a"
  assume h: "held (snd c) k"
  show "fst (SetNX_ptr setNX k e' c) \<noteq> None"
  proof
    assume "fst (SetNX_ptr setNX k e' c) = None"
    then have "SetNX_ptr setNX k e' (fst c, snd c) = (None, snd (SetNX_ptr setNX k e' c))"
      by (cases "SetNX_ptr setNX k e' c") simp
    from SetNX_ptr_accept [OF this] h assms show False by (simp add: setnx_contract_def)
  qed
next
  fix k k' e' and c :: "go_time \<times> 'a"
  assume "held (snd c) k"
  then show "held (snd (snd (SetNX_ptr setNX k' e' c))) k"
    using SetNX_ptr_state [of setNX k' e' "fst c" "snd c"] assms by (auto simp: setnx_contract_def)
next
  fix k e and c :: "go_time \<times> 'a"
  show "fst (snd (SetNX_ptr setNX k e c)) = fst c"
    using SetNX_ptr_state [of setNX k e "fst c" "snd c"] by auto
qed simp_all


definition set_store :: "string set setnx" where
  "set_store k ttl s = (Inr (k \<notin> s), insert k s)"


text \<open>
  The cache over a store fails closed: without a store, or when the store reports an error for this
  call, the key is not accepted.
\<close>

lemma SetNX_MarkUsed_fails_closed:
  assumes "\<And>setNX. sc_store s = Some setNX \<Longrightarrow> isl (fst (setNX key (Sub e (sc_now s)) (sc_state s)))"
  shows "fst (SetNX_MarkUsed key e (Some s)) \<noteq> None"
proof (cases "sc_store s")
  case (Some setNX)
  then obtain err st where "setNX key (Sub e (sc_now s)) (sc_state s) = (Inl err, st)"
    using assms by (cases "setNX key (Sub e (sc_now s)) (sc_state s)") (auto simp: isl_def)
  then show ?thesis using Some by (auto simp: SetNX_MarkUsed_def Let_def)
qed (simp add: SetNX_MarkUsed_def)

theorem SetNX_MarkUsed_fails_closed_witness:
  "fst (SetNX_MarkUsed ''n'' 10 (Some \<lparr>sc_store = Some (\<lambda>k ttl st. (Inl (Sentinel (ErrForeign ''down'')), st)),
     sc_now = 5, sc_state = ()\<rparr>)) \<noteq> None"
  using SetNX_MarkUsed_fails_closed [of "\<lparr>sc_store = Some (\<lambda>k ttl st. (Inl (Sentinel (ErrForeign ''down'')), st)),
     sc_now = 5, sc_state = ()\<rparr>" "''n''" 10] by simp

end
