(* ===== verification/Session_Binding.thy ===== *)
theory Session_Binding
  imports Replay_Cache
begin

text \<open>
  The relation between a verified identity grant and a verified session-binding statement,
  \<open>pkg/atls/identitypolicy/session_binding.go\<close>: the checks of
  \<open>ValidateSessionBindingStatementWithOptions\<close>, the replay key of \<open>MarkSessionBindingUsed\<close> and the
  assertion the two build.
\<close>

abbreviation (input) FieldIssuer :: string where "FieldIssuer \<equiv> ''issuer''"
abbreviation (input) FieldIssuerKey :: string where "FieldIssuerKey \<equiv> ''issuer_key''"
abbreviation (input) FieldAudience :: string where "FieldAudience \<equiv> ''aud''"
abbreviation (input) FieldGrantHash :: string where "FieldGrantHash \<equiv> ''grant_hash''"
abbreviation (input) FieldSignerKey :: string where "FieldSignerKey \<equiv> ''signer_key''"
abbreviation (input) FieldConfirmationKey :: string where "FieldConfirmationKey \<equiv> ''confirmation_key''"
abbreviation (input) FieldEndpointKey :: string where "FieldEndpointKey \<equiv> ''authorized_endpoint_key''"

record VerifiedGrant =
  VG_Issuer :: string
  VG_IssuerKey :: string
  VG_Audience :: string
  VG_GrantHash :: string
  VG_Values :: Values
  VG_ConfirmationKey :: string
  VG_AuthorizedEndpointKeys :: "string list"
  VG_IssuedAt :: go_time
  VG_ExpiresAt :: go_time

record VerifiedSessionBindingStatement =
  VS_GrantHash :: string
  VS_Audience :: string
  VS_SignerKey :: string
  VS_Binding :: Binding


subsection \<open>Checks on the parts\<close>

definition validateExpectedString :: "string \<Rightarrow> string \<Rightarrow> string \<Rightarrow> go_error option" where
  "validateExpectedString layer fieldName value =
     (if isEmpty value then Some (VErr (validationError layer fieldName (Sentinel ErrMissingExpected)))
      else case validateValue value of
        Some e \<Rightarrow> Some (VErr (validationError layer fieldName (Sentinel e)))
      | None \<Rightarrow> None)"

definition validateObservedString :: "string \<Rightarrow> string \<Rightarrow> string \<Rightarrow> go_error option" where
  "validateObservedString layer fieldName value =
     (if isEmpty value then Some (VErr (validationError layer fieldName (Sentinel ErrMissingObserved)))
      else case validateValue value of
        Some e \<Rightarrow> Some (VErr (validationError layer fieldName (Sentinel e)))
      | None \<Rightarrow> None)"

definition validateBindingString :: "string \<Rightarrow> string \<Rightarrow> go_error option" where
  "validateBindingString fieldName value =
     (if isEmpty value then Some (VErr (validationError LayerSessionBinding fieldName (Sentinel ErrMissingBinding)))
      else case validateValue value of
        Some e \<Rightarrow> Some (VErr (validationError LayerSessionBinding fieldName (Sentinel e)))
      | None \<Rightarrow> None)"

definition hasBindingKey :: "VerifiedGrant \<Rightarrow> bool" where
  "hasBindingKey g =
     (if \<not> isEmpty (VG_ConfirmationKey g) \<or> \<not> isEmpty (AgentPublicKey (VG_Values g)) then True
      else list_ex (\<lambda>key. \<not> isEmpty key) (VG_AuthorizedEndpointKeys g))"

definition allowsBindingKey :: "VerifiedGrant \<Rightarrow> string \<Rightarrow> bool" where
  "allowsBindingKey g key =
     (if isEmpty key then False
      else if key = VG_ConfirmationKey g \<or> key = AgentPublicKey (VG_Values g) then True
      else list_ex (\<lambda>allowed. key = allowed) (VG_AuthorizedEndpointKeys g))"

definition grantFields :: "field list" where
  "grantFields =
     [(FieldService, Service), (FieldTenant, Tenant), (FieldDeployment, Deployment),
      (FieldEnvironment, Environment), (FieldWorkload, Workload), (FieldAgent, Agent),
      (FieldAgentPublicKey, AgentPublicKey), (FieldComputationID, ComputationID), (FieldTaskID, TaskID),
      (FieldThreadID, ThreadID), (FieldDelegationID, DelegationID), (FieldIntentRef, IntentRef),
      (FieldCapabilityRef, CapabilityRef), (FieldOntologyID, OntologyID)]"

text \<open>The errors one pass over a list of values appends (the inner loops over set values and keys).\<close>

definition valueErrors :: "string \<Rightarrow> string list \<Rightarrow> validation_errors" where
  "valueErrors fieldName vs =
     concat (map (\<lambda>value. if isEmpty value then []
       else case validateValue value of
         Some e \<Rightarrow> [Some (validationError LayerIdentityGrant fieldName (Sentinel e))]
       | None \<Rightarrow> []) vs)"

definition validateGrantValues :: "Values \<Rightarrow> go_error option" where
  "validateGrantValues vals =
     (let errs = concat (map (\<lambda>(name, get).
            if isEmpty (get vals) then []
            else case validateFieldValue name (get vals) of
              Some e \<Rightarrow> [Some (validationError LayerIdentityGrant name (Sentinel e))]
            | None \<Rightarrow> []) grantFields);
          errs = errs @ concat (map (\<lambda>(name, vs).
            if length vs > MaxSetValues
            then [Some (validationError LayerIdentityGrant name (Sentinel ErrTooManyValues))]
            else valueErrors name vs)
              [(FieldScopes, Scopes vals), (FieldResources, Resources vals),
               (FieldAuthorizationDetails, AuthorizationDetails vals)])
      in errors_or_nil errs)"

definition validateAuthorizedEndpointKeys :: "string list \<Rightarrow> go_error option" where
  "validateAuthorizedEndpointKeys keys =
     (if length keys > MaxSetValues
      then Some (VErr (validationError LayerIdentityGrant FieldEndpointKey (Sentinel ErrTooManyValues)))
      else errors_or_nil (valueErrors FieldEndpointKey keys))"

definition validateGrantLifetime :: "VerifiedGrant \<Rightarrow> go_time \<Rightarrow> go_error option" where
  "validateGrantLifetime grant now =
     (let errs = (if VG_ExpiresAt grant = 0
            then [Some (validationError LayerIdentityGrant FieldExpiresAt (Sentinel ErrMissingExpected))]
            else if now \<noteq> 0 \<and> now > VG_ExpiresAt grant
            then [Some (validationError LayerIdentityGrant FieldExpiresAt (Sentinel ErrExpiredAssertion))]
            else []);
          errs = (if VG_IssuedAt grant \<noteq> 0 \<and> now \<noteq> 0 \<and> VG_IssuedAt grant > now
            then errs @ [Some (validationError LayerIdentityGrant FieldIssuedAt (Sentinel ErrFutureAssertion))]
            else errs)
      in errors_or_nil errs)"

definition statementFields :: "(string \<times> (Binding \<Rightarrow> string)) list" where
  "statementFields =
     [(FieldLeafPublicKeyHash, LeafPublicKeySHA256), (FieldTLSExporterHash, TLSExporterSHA256),
      (FieldRequestContextHash, RequestContextSHA256), (FieldNonce, Nonce)]"

definition validateStatementBinding :: "Binding \<Rightarrow> go_time \<Rightarrow> go_error option" where
  "validateStatementBinding binding now =
     (let errs = fold (\<lambda>(name, get) errs. appendValidationErrors errs (validateBindingString name (get binding)))
                   statementFields [];
          errs = (if AttestationBinderSHA256 binding \<noteq> ''''
            then appendValidationErrors errs
              (validateBindingString FieldAttestationBinderHash (AttestationBinderSHA256 binding))
            else errs);
          errs = (if ExpiresAt binding = 0
            then errs @ [Some (validationError LayerSessionBinding FieldExpiresAt (Sentinel ErrMissingBinding))]
            else if now \<noteq> 0 \<and> now > ExpiresAt binding
            then errs @ [Some (validationError LayerSessionBinding FieldExpiresAt (Sentinel ErrExpiredAssertion))]
            else errs);
          errs = (if IssuedAt binding \<noteq> 0 \<and> now \<noteq> 0 \<and> IssuedAt binding > now
            then errs @ [Some (validationError LayerSessionBinding FieldIssuedAt (Sentinel ErrFutureAssertion))]
            else errs)
      in errors_or_nil errs)"


subsection \<open>Replay and validation\<close>

definition replayKey :: "VerifiedSessionBindingStatement \<Rightarrow> string" where
  "replayKey st =
     VS_GrantHash st @ [CHR 0x00] @ VS_Audience st @ [CHR 0x00] @ TLSExporterSHA256 (VS_Binding st) @ [CHR 0x00]
     @ RequestContextSHA256 (VS_Binding st) @ [CHR 0x00] @ Nonce (VS_Binding st)"

definition MarkSessionBindingUsed ::
    "'c replay_cache \<Rightarrow> VerifiedSessionBindingStatement \<Rightarrow> 'c \<Rightarrow> go_error option \<times> 'c" where
  "MarkSessionBindingUsed cache st c =
     (case cache of
        None \<Rightarrow> (None, c)
      | Some mark \<Rightarrow>
          (case mark (replayKey st) (ExpiresAt (VS_Binding st)) c of
             (Some err, c') \<Rightarrow> (Some (VErr (validationError LayerSessionBinding FieldNonce err)), c')
           | (None, c') \<Rightarrow> (None, c')))"

text \<open>The errors collected before the replay cache is consulted.\<close>

definition statementErrors :: "VerifiedGrant \<Rightarrow> VerifiedSessionBindingStatement \<Rightarrow> go_time \<Rightarrow> validation_errors" where
  "statementErrors grant st now =
     (let errs = appendValidationErrors [] (validateExpectedString LayerIdentityGrant FieldIssuer (VG_Issuer grant));
          errs = appendValidationErrors errs
            (validateExpectedString LayerIdentityGrant FieldAudience (VG_Audience grant));
          errs = appendValidationErrors errs
            (validateExpectedString LayerIdentityGrant FieldGrantHash (VG_GrantHash grant));
          errs = (case validateObservedString LayerSessionBinding FieldGrantHash (VS_GrantHash st) of
              Some e \<Rightarrow> appendValidationErrors errs (Some e)
            | None \<Rightarrow> if VG_GrantHash grant \<noteq> VS_GrantHash st
                then errs @ [Some (validationError LayerSessionBinding FieldGrantHash (Sentinel ErrMismatch))]
                else errs);
          errs = (case validateObservedString LayerSessionBinding FieldAudience (VS_Audience st) of
              Some e \<Rightarrow> appendValidationErrors errs (Some e)
            | None \<Rightarrow> if VG_Audience grant \<noteq> VS_Audience st
                then errs @ [Some (validationError LayerSessionBinding FieldAudience (Sentinel ErrMismatch))]
                else errs);
          errs = (case validateObservedString LayerSessionBinding FieldSignerKey (VS_SignerKey st) of
              Some e \<Rightarrow> appendValidationErrors errs (Some e)
            | None \<Rightarrow> if \<not> allowsBindingKey grant (VS_SignerKey st)
                then errs @ [Some (validationError LayerSessionBinding FieldSignerKey (Sentinel ErrUnauthorizedBindingKey))]
                else if VG_IssuerKey grant \<noteq> '''' \<and> VS_SignerKey st = VG_IssuerKey grant
                then errs @ [Some (validationError LayerSessionBinding FieldIssuerKey (Sentinel ErrUnauthorizedBindingKey))]
                else errs);
          errs = (if \<not> hasBindingKey grant
            then errs @ [Some (validationError LayerIdentityGrant FieldConfirmationKey (Sentinel ErrMissingExpected))]
            else errs);
          errs = appendValidationErrors errs (validateGrantValues (VG_Values grant));
          errs = appendValidationErrors errs (validateAuthorizedEndpointKeys (VG_AuthorizedEndpointKeys grant));
          errs = appendValidationErrors errs (validateGrantLifetime grant now);
          errs = appendValidationErrors errs (validateStatementBinding (VS_Binding st) now)
      in errs)"

definition ValidateSessionBindingStatementWithOptions ::
    "VerifiedGrant \<Rightarrow> VerifiedSessionBindingStatement \<Rightarrow> go_time \<Rightarrow> 'c replay_cache \<Rightarrow> 'c
     \<Rightarrow> go_error option \<times> 'c" where
  "ValidateSessionBindingStatementWithOptions grant st now cache c =
     (let errs = statementErrors grant st now in
      if 0 < length errs then (Some (VErrs errs), c)
      else MarkSessionBindingUsed cache st c)"

definition ValidateSessionBindingStatement ::
    "VerifiedGrant \<Rightarrow> VerifiedSessionBindingStatement \<Rightarrow> go_time \<Rightarrow> go_error option" where
  "ValidateSessionBindingStatement grant st now =
     fst (ValidateSessionBindingStatementWithOptions grant st now (None :: unit replay_cache) ())"

definition NewAssertionFromSessionBindingWithOptions ::
    "VerifiedGrant \<Rightarrow> VerifiedSessionBindingStatement \<Rightarrow> go_time \<Rightarrow> 'c replay_cache \<Rightarrow> 'c
     \<Rightarrow> (go_error + Assertion) \<times> 'c" where
  "NewAssertionFromSessionBindingWithOptions grant st now cache c =
     (case ValidateSessionBindingStatementWithOptions grant st now cache c of
        (Some err, c') \<Rightarrow> (Inl err, c')
      | (None, c') \<Rightarrow>
          (Inr \<lparr>A_Issuer = VG_Issuer grant, A_Values = VG_Values grant, A_Binding = VS_Binding st\<rparr>, c'))"

definition NewAssertionFromSessionBinding ::
    "VerifiedGrant \<Rightarrow> VerifiedSessionBindingStatement \<Rightarrow> go_time \<Rightarrow> go_error + Assertion" where
  "NewAssertionFromSessionBinding grant st now =
     fst (NewAssertionFromSessionBindingWithOptions grant st now (None :: unit replay_cache) ())"



section \<open>What acceptance means\<close>

definition present :: "string \<Rightarrow> bool" where
  "present v \<longleftrightarrow> \<not> isEmpty v \<and> safe_value v"

definition grant_values_ok :: "Values \<Rightarrow> bool" where
  "grant_values_ok vals \<longleftrightarrow>
     (\<forall>(name, get) \<in> set grantFields. \<not> isEmpty (get vals) \<longrightarrow> field_value name (get vals))
     \<and> (\<forall>vs \<in> {Scopes vals, Resources vals, AuthorizationDetails vals}.
          length vs \<le> MaxSetValues \<and> (\<forall>v \<in> set vs. \<not> isEmpty v \<longrightarrow> safe_value v))"

definition lifetime_ok :: "go_time \<Rightarrow> go_time \<Rightarrow> go_time \<Rightarrow> bool" where
  "lifetime_ok issued expires now \<longleftrightarrow>
     expires \<noteq> 0 \<and> (now \<noteq> 0 \<longrightarrow> now \<le> expires) \<and> (issued \<noteq> 0 \<and> now \<noteq> 0 \<longrightarrow> issued \<le> now)"

definition statement_binding_ok :: "Binding \<Rightarrow> go_time \<Rightarrow> bool" where
  "statement_binding_ok b now \<longleftrightarrow>
     present (LeafPublicKeySHA256 b) \<and> present (TLSExporterSHA256 b) \<and> present (RequestContextSHA256 b)
     \<and> present (Nonce b) \<and> (AttestationBinderSHA256 b \<noteq> '''' \<longrightarrow> present (AttestationBinderSHA256 b))
     \<and> lifetime_ok (IssuedAt b) (ExpiresAt b) now"

definition binding_keys :: "VerifiedGrant \<Rightarrow> string set" where
  "binding_keys g = {VG_ConfirmationKey g, AgentPublicKey (VG_Values g)} \<union> set (VG_AuthorizedEndpointKeys g)"

text \<open>
  The statement is authorised by the grant: same grant and audience, signed by a key the grant names that
  is not the issuer's, everything well formed and in its lifetime.
\<close>

definition statement_ok :: "VerifiedGrant \<Rightarrow> VerifiedSessionBindingStatement \<Rightarrow> go_time \<Rightarrow> bool" where
  "statement_ok g st now \<longleftrightarrow>
     present (VG_Issuer g) \<and> present (VG_Audience g) \<and> present (VG_GrantHash g)
     \<and> VS_GrantHash st = VG_GrantHash g \<and> VS_Audience st = VG_Audience g
     \<and> present (VS_SignerKey st) \<and> VS_SignerKey st \<in> binding_keys g
     \<and> (VG_IssuerKey g = '''' \<or> VS_SignerKey st \<noteq> VG_IssuerKey g)
     \<and> grant_values_ok (VG_Values g)
     \<and> length (VG_AuthorizedEndpointKeys g) \<le> MaxSetValues
     \<and> (\<forall>k \<in> set (VG_AuthorizedEndpointKeys g). \<not> isEmpty k \<longrightarrow> safe_value k)
     \<and> lifetime_ok (VG_IssuedAt g) (VG_ExpiresAt g) now
     \<and> statement_binding_ok (VS_Binding st) now"


subsection \<open>The code decides it\<close>

lemma string_checks_None [policy_iff]:
  "validateExpectedString l n v = None \<longleftrightarrow> present v"
  "validateObservedString l n v = None \<longleftrightarrow> present v"
  "validateBindingString n v = None \<longleftrightarrow> present v"
  by (auto simp: validateExpectedString_def validateObservedString_def validateBindingString_def present_def
      simp flip: validateValue_None split: option.splits)

lemma string_checks_genuine [simp]:
  "genuine (validateExpectedString l n v)" "genuine (validateObservedString l n v)"
  "genuine (validateBindingString n v)"
  by (auto simp: validateExpectedString_def validateObservedString_def validateBindingString_def
      split: option.splits)

lemma valueErrors_Nil [policy_iff]: "valueErrors n vs = [] \<longleftrightarrow> (\<forall>v \<in> set vs. \<not> isEmpty v \<longrightarrow> safe_value v)"
  by (induction vs) (auto simp: valueErrors_def simp flip: validateValue_None split: option.splits)

lemma concat_map_Nil: "concat (map f xs) = [] \<longleftrightarrow> (\<forall>x \<in> set xs. f x = [])"
  by (induction xs) auto

lemma validateGrantValues_None [policy_iff]: "validateGrantValues vals = None \<longleftrightarrow> grant_values_ok vals"
proof -
  have f: "(case x of (name, get) \<Rightarrow> if isEmpty (get vals) then [] else case validateFieldValue name (get vals) of
       Some e \<Rightarrow> [Some (validationError l name (Sentinel e))] | None \<Rightarrow> []) = []
     \<longleftrightarrow> (case x of (name, get) \<Rightarrow> \<not> isEmpty (get vals) \<longrightarrow> field_value name (get vals))" for x l
    by (cases x) (auto simp flip: validateFieldValue_None split: option.splits)
  show ?thesis
    unfolding validateGrantValues_def grant_values_ok_def Let_def errors_or_nil_None append_is_Nil_conv
      concat_map_Nil f
    by (auto simp: valueErrors_Nil not_less split: if_splits)
qed

lemma validateGrantLifetime_None [policy_iff]:
  "validateGrantLifetime g now = None \<longleftrightarrow> lifetime_ok (VG_IssuedAt g) (VG_ExpiresAt g) now"
  by (auto simp: validateGrantLifetime_def lifetime_ok_def Let_def errors_or_nil_None)

lemma validateStatementBinding_None [policy_iff]:
  "validateStatementBinding b now = None \<longleftrightarrow> statement_binding_ok b now"
  by (auto simp: validateStatementBinding_def statement_binding_ok_def statementFields_def lifetime_ok_def
      Let_def errors_or_nil_None append_if_Nil appendValidationErrors_Nil string_checks_None)

lemma validateAuthorizedEndpointKeys_None [policy_iff]:
  "validateAuthorizedEndpointKeys keys = None \<longleftrightarrow>
     length keys \<le> MaxSetValues \<and> (\<forall>k \<in> set keys. \<not> isEmpty k \<longrightarrow> safe_value k)"
  by (simp add: validateAuthorizedEndpointKeys_def errors_or_nil_None valueErrors_Nil not_less)

lemma validators_genuine [simp]:
  "genuine (validateGrantValues vals)" "genuine (validateAuthorizedEndpointKeys keys)"
  "genuine (validateGrantLifetime g now)" "genuine (validateStatementBinding b now)"
  by (simp_all add: validateGrantValues_def validateAuthorizedEndpointKeys_def validateGrantLifetime_def
      validateStatementBinding_def Let_def)

text \<open>The observed strings of the statement: a bad value is an error, a good one is compared.\<close>

lemma observed_case_Nil:
  "(case validateObservedString l n v of Some e \<Rightarrow> appendValidationErrors errs (Some e) | None \<Rightarrow> errs') = []
   \<longleftrightarrow> present v \<and> errs' = []"
  using string_checks_None(2) [of l n v] string_checks_genuine(2) [of l n v]
  by (cases "validateObservedString l n v") (simp_all add: appendValidationErrors_Nil)

lemma allowsBindingKey_iff: "allowsBindingKey g key \<longleftrightarrow> \<not> isEmpty key \<and> key \<in> binding_keys g"
  by (auto simp: allowsBindingKey_def binding_keys_def list_ex_iff)

lemma allowsBindingKey_has: "allowsBindingKey g key \<Longrightarrow> hasBindingKey g"
  by (auto simp: allowsBindingKey_iff hasBindingKey_def binding_keys_def list_ex_iff)

lemma statementErrors_Nil: "statementErrors g st now = [] \<longleftrightarrow> statement_ok g st now"
proof -
  have key: "present k \<and> (if \<not> allowsBindingKey g k then errs @ [x]
        else if VG_IssuerKey g \<noteq> '''' \<and> k = VG_IssuerKey g then errs @ [y] else errs) = []
      \<longleftrightarrow> errs = [] \<and> present k \<and> k \<in> binding_keys g \<and> (VG_IssuerKey g = '''' \<or> k \<noteq> VG_IssuerKey g)"
    for k errs x y by (auto simp: allowsBindingKey_iff present_def)
  have has: "present k \<Longrightarrow> k \<in> binding_keys g \<Longrightarrow> hasBindingKey g" for k
    using allowsBindingKey_has by (auto simp: allowsBindingKey_iff present_def)
  have cmp: "(if a \<noteq> b then errs @ [x] else errs) = [] \<longleftrightarrow> errs = [] \<and> b = a"
    for a b :: string and errs :: validation_errors and x by auto
  have neg: "(if \<not> c then errs @ [x] else errs) = [] \<longleftrightarrow> errs = [] \<and> c"
    for c and errs :: validation_errors and x by auto
  show ?thesis
    unfolding statementErrors_def Let_def
    by (simp only: observed_case_Nil key cmp neg appendValidationErrors_Nil string_checks_genuine
        validators_genuine policy_iff statement_ok_def) (auto dest: has)
qed

lemma ValidateWithOptions_unfold:
  "ValidateSessionBindingStatementWithOptions g st now cache c =
     (if statement_ok g st now then MarkSessionBindingUsed cache st c
      else (Some (VErrs (statementErrors g st now)), c))"
  by (simp add: ValidateSessionBindingStatementWithOptions_def statementErrors_Nil)

text \<open>
  C3: a session-binding statement validates against a grant exactly when the grant authorises it.
\<close>

theorem ValidateSessionBindingStatement_iff:
  "ValidateSessionBindingStatement grant st now = None \<longleftrightarrow> statement_ok grant st now"
  by (simp add: ValidateSessionBindingStatement_def ValidateWithOptions_unfold MarkSessionBindingUsed_def)

lemma NewAssertion_Inr:
  "NewAssertionFromSessionBinding g st now = Inr a \<longleftrightarrow> statement_ok g st now
     \<and> a = \<lparr>A_Issuer = VG_Issuer g, A_Values = VG_Values g, A_Binding = VS_Binding st\<rparr>"
  by (auto simp: NewAssertionFromSessionBinding_def NewAssertionFromSessionBindingWithOptions_def
      ValidateWithOptions_unfold MarkSessionBindingUsed_def)


subsection \<open>Sample data\<close>

definition plain :: "string \<Rightarrow> bool" where
  "plain s \<longleftrightarrow> s \<noteq> [] \<and> length s \<le> MaxValueLength \<and>
     list_all (\<lambda>c. 0x20 < (of_char c :: nat) \<and> (of_char c :: nat) < 0x7F \<and> c \<noteq> CHR ''<'' \<and> c \<noteq> CHR ''>'') s"

lemma plain_present: "plain s \<Longrightarrow> present s"
proof -
  assume p: "plain s"
  then obtain c cs where s: "s = c # cs" by (cases s) (auto simp: plain_def)
  have a: "ascii s" unfolding ascii_def list_all_iff
  proof
    fix x assume "x \<in> set s"
    then have "(of_char x :: nat) < 0x7F" using p unfolding plain_def list_all_iff by blast
    then show "(of_char x :: nat) < 0x80" by linarith
  qed
  have c: "0x20 < (of_char c :: nat)" "(of_char c :: nat) < 0x7F" using p by (simp_all add: s plain_def)
  then have "\<not> IsSpace (of_char c)" unfolding IsSpace_def by linarith
  then have "\<not> isEmpty s" using isEmpty_head [of c cs] c by (simp add: s)
  moreover have "\<not> IsControl (of_char x) \<and> (of_char x :: nat) \<noteq> 60 \<and> (of_char x :: nat) \<noteq> 62" if "x \<in> set s" for x
  proof -
    have "0x20 < (of_char x :: nat)" "(of_char x :: nat) < 0x7F" "x \<noteq> CHR ''<''" "x \<noteq> CHR ''>''"
      using p that unfolding plain_def list_all_iff by blast+
    moreover from this have "(of_char x :: nat) \<noteq> of_char CHR ''<''" "(of_char x :: nat) \<noteq> of_char CHR ''>''"
      unfolding of_char_eq_iff by blast+
    ultimately show ?thesis by (simp add: IsControl_def)
  qed
  ultimately show ?thesis
    using p ascii_runes [OF a] by (simp add: present_def safe_value_def isUnsafe_def list_ex_iff plain_def)
qed

definition sample_binding :: Binding where
  "sample_binding = \<lparr>LeafPublicKeySHA256 = ''leaf'', TLSExporterSHA256 = ''exporter'',
     RequestContextSHA256 = ''context'', AttestationBinderSHA256 = ''binder'', Nonce = ''n1'',
     IssuedAt = 3, ExpiresAt = 10\<rparr>"

definition sample_grant :: VerifiedGrant where
  "sample_grant = \<lparr>VG_Issuer = ''manager'', VG_IssuerKey = ''ik'', VG_Audience = ''aud'', VG_GrantHash = ''gh'',
     VG_Values = no_values\<lparr>Service := ''svc''\<rparr>, VG_ConfirmationKey = ''ck'', VG_AuthorizedEndpointKeys = [],
     VG_IssuedAt = 2, VG_ExpiresAt = 20\<rparr>"

definition sample_statement :: VerifiedSessionBindingStatement where
  "sample_statement = \<lparr>VS_GrantHash = ''gh'', VS_Audience = ''aud'', VS_SignerKey = ''ck'',
     VS_Binding = sample_binding\<rparr>"

lemmas sample_simps = sample_binding_def sample_grant_def sample_statement_def no_values_def sample_policy_def

lemma sample_present:
  "present ''manager''" "present ''aud''" "present ''gh''" "present ''ck''" "present ''leaf''"
  "present ''exporter''" "present ''context''" "present ''binder''" "present ''n1''" "present ''n2''" "present ''svc''"
  by (rule plain_present, simp add: plain_def MaxValueLength_def)+

lemma sample_statement_ok: "statement_ok sample_grant (sample_statement\<lparr>VS_Binding := sample_binding\<lparr>Nonce := n\<rparr>\<rparr>) 5"
  if "present n"
proof -
  have "safe_value ''svc''" using sample_present(11) by (simp add: present_def)
  then show ?thesis
    using that sample_present
    by (simp add: statement_ok_def sample_simps binding_keys_def grant_values_ok_def grantFields_def field_value_def
        lifetime_ok_def statement_binding_ok_def MaxSetValues_def)
qed


subsection \<open>The replay key\<close>

lemma safe_value_no_nul: "safe_value v \<Longrightarrow> CHR 0x00 \<notin> set v"
proof
  assume "safe_value v" "CHR 0x00 \<in> set v"
  from ascii_char_is_rune [OF this(2)] have "0 \<in> set (string_runes v)" by simp
  with \<open>safe_value v\<close> show False
    by (auto simp: safe_value_def isUnsafe_def list_ex_iff IsControl_def split: if_splits)
qed

definition session_tuple :: "VerifiedSessionBindingStatement \<Rightarrow> string \<times> string \<times> string \<times> string \<times> string" where
  "session_tuple st = (VS_GrantHash st, VS_Audience st, TLSExporterSHA256 (VS_Binding st),
     RequestContextSHA256 (VS_Binding st), Nonce (VS_Binding st))"

lemma statement_ok_no_nul:
  assumes "statement_ok g st now"
  shows "CHR 0x00 \<notin> set (VS_GrantHash st)" "CHR 0x00 \<notin> set (VS_Audience st)"
    "CHR 0x00 \<notin> set (TLSExporterSHA256 (VS_Binding st))" "CHR 0x00 \<notin> set (RequestContextSHA256 (VS_Binding st))"
  using assms by (simp_all add: statement_ok_def statement_binding_ok_def present_def safe_value_no_nul)

lemma replayKey_eq_iff:
  assumes "statement_ok g st now" "statement_ok g' st' now'"
  shows "replayKey st = replayKey st' \<longleftrightarrow> session_tuple st = session_tuple st'"
proof
  assume "replayKey st = replayKey st'"
  then show "session_tuple st = session_tuple st'"
    unfolding replayKey_def session_tuple_def append_Cons append_Nil
    using statement_ok_no_nul [OF assms(1)] statement_ok_no_nul [OF assms(2)]
    by (auto dest!: separator_inj [rotated 2])
qed (simp add: replayKey_def session_tuple_def)

text \<open>
  C4: the replay key identifies the session. For two validated statements the keys are equal exactly
  when grant hash, audience, exporter, request context and nonce are all equal: the NUL separators cannot be
  forged, because validated values contain no control character.
\<close>

theorem replayKey_injective:
  assumes "ValidateSessionBindingStatement g st now = None" "ValidateSessionBindingStatement g' st' now' = None"
  shows "replayKey st = replayKey st' \<longleftrightarrow> session_tuple st = session_tuple st'"
  using assms replayKey_eq_iff
  by (auto simp: ValidateSessionBindingStatement_def ValidateWithOptions_unfold split: if_splits)

theorem replayKey_injective_witness:
  "replayKey sample_statement \<noteq> replayKey (sample_statement\<lparr>VS_Binding := sample_binding\<lparr>Nonce := ''n2''\<rparr>\<rparr>)"
proof -
  have "ValidateSessionBindingStatement sample_grant
      (sample_statement\<lparr>VS_Binding := sample_binding\<lparr>Nonce := n\<rparr>\<rparr>) 5 = None" if "present n" for n
    using sample_statement_ok [OF that]
    by (simp add: ValidateSessionBindingStatement_def ValidateWithOptions_unfold MarkSessionBindingUsed_def)
  from replayKey_injective [OF this [OF sample_present(9)] this [OF sample_present(10)]]
  show ?thesis by (simp add: session_tuple_def sample_simps)
qed


subsection \<open>Acceptance with a replay cache\<close>

context one_shot
begin

lemma binding_accept:
  assumes "ValidateSessionBindingStatementWithOptions g st now (Some mark) c = (None, c')"
  shows "statement_ok g st now \<and> mark (replayKey st) (ExpiresAt (VS_Binding st)) c = (None, c')"
  using assms
  by (auto simp: ValidateWithOptions_unfold MarkSessionBindingUsed_def split: if_splits prod.splits option.splits)

theorem binding_once:
  assumes "ValidateSessionBindingStatementWithOptions g st now (Some mark) c = (None, c')"
    and "readings_live (ExpiresAt (VS_Binding st)) evs" and "session_tuple st' = session_tuple st"
  shows "fst (ValidateSessionBindingStatementWithOptions g' st' now' (Some mark)
    (fold (cache_step mark tick) evs c')) \<noteq> None"
proof -
  have "replayKey st' = replayKey st" using assms(3) by (simp add: replayKey_def session_tuple_def)
  moreover have "fst (mark (replayKey st) (ExpiresAt (VS_Binding st')) (fold (cache_step mark tick) evs c')) \<noteq> None"
    by (rule accepted_once [OF conjunct2 [OF binding_accept [OF assms(1)]] assms(2)])
  ultimately show ?thesis
    by (auto simp: ValidateWithOptions_unfold MarkSessionBindingUsed_def split: option.splits prod.splits)
qed

end

text \<open>
  C5: with the in-process cache, a session is accepted at most once. After a statement has been accepted,
  no statement with the same grant hash, audience, exporter, request context and nonce is accepted again,
  whatever calls and clock changes lie between, while the clock has not passed its expiry.
\<close>

theorem session_binding_one_shot:
  assumes "ValidateSessionBindingStatementWithOptions g st now (Some MarkUsed_ptr) m = (None, m')"
    and "readings_live (ExpiresAt (VS_Binding st)) evs" and "session_tuple st' = session_tuple st"
  shows "fst (ValidateSessionBindingStatementWithOptions g' st' now' (Some MarkUsed_ptr)
    (fold (cache_step MarkUsed_ptr (\<lambda>t m. m\<lparr>mc_now := t\<rparr>)) evs m')) \<noteq> None"
  by (rule mem.binding_once [OF assms])

lemma replayKey_not_empty: "\<not> isEmpty (replayKey st)"
  using TrimSpace_ascii_member [of "CHR 0x00" "replayKey st"]
  by (simp add: replayKey_def isEmpty_def IsSpace_def)

lemma memory_accepts_valid:
  assumes "statement_ok g st now" "live_at (mc_now m) (ExpiresAt (VS_Binding st))"
    "prune (mc_now m) (mc_seen m) (replayKey st) = None"
  shows "ValidateSessionBindingStatementWithOptions g st now (Some MarkUsed_ptr) m =
    (None, m\<lparr>mc_seen := (prune (mc_now m) (mc_seen m))(replayKey st \<mapsto> ExpiresAt (VS_Binding st))\<rparr>)"
proof -
  have "mark_check (mc_now m) (replayKey st) (ExpiresAt (VS_Binding st)) = None"
    using assms replayKey_not_empty [of st]
    by (simp add: mark_check_None statement_ok_def statement_binding_ok_def lifetime_ok_def)
  then show ?thesis
    using assms by (simp add: ValidateWithOptions_unfold MarkSessionBindingUsed_def MarkUsed_ptr_eq mark_locked_def Let_def)
qed

lemma sample_accepted:
  "ValidateSessionBindingStatementWithOptions sample_grant sample_statement 5 (Some MarkUsed_ptr)
     (NewMemoryReplayCacheWithClock 5) = (None, \<lparr>mc_now = 5, mc_seen = [replayKey sample_statement \<mapsto> 10]\<rparr>)"
proof -
  have "sample_statement\<lparr>VS_Binding := sample_binding\<lparr>Nonce := ''n1''\<rparr>\<rparr> = sample_statement"
    by (simp add: sample_simps)
  then have "statement_ok sample_grant sample_statement 5"
    using sample_statement_ok [OF sample_present(9)] by simp
  from memory_accepts_valid [OF this, of "NewMemoryReplayCacheWithClock 5"] show ?thesis
    by (simp add: NewMemoryReplayCacheWithClock_def live_at_def prune_def sample_statement_def sample_binding_def)
qed

theorem session_binding_one_shot_witness:
  "fst (ValidateSessionBindingStatementWithOptions sample_grant sample_statement 7 (Some MarkUsed_ptr)
     (fold (cache_step MarkUsed_ptr (\<lambda>t m. m\<lparr>mc_now := t\<rparr>)) [Tick 7]
       \<lparr>mc_now = 5, mc_seen = [replayKey sample_statement \<mapsto> 10]\<rparr>)) \<noteq> None"
  by (rule session_binding_one_shot [OF sample_accepted _ refl])
     (simp add: sample_statement_def sample_binding_def live_at_def)

text \<open>
  C9: the replay check rejects nothing else. A valid statement whose session differs from one just
  accepted, and whose own key the cache has not seen, is accepted too.
\<close>

theorem fresh_session_accepted:
  assumes "ValidateSessionBindingStatementWithOptions g st now (Some MarkUsed_ptr) m = (None, m')"
    and "ValidateSessionBindingStatement g' st' now' = None"
    and "session_tuple st' \<noteq> session_tuple st"
    and "mc_seen m (replayKey st') = None" and "live_at (mc_now m) (ExpiresAt (VS_Binding st'))"
  shows "fst (ValidateSessionBindingStatementWithOptions g' st' now' (Some MarkUsed_ptr) m') = None"
proof -
  have st: "statement_ok g st now" "MarkUsed_ptr (replayKey st) (ExpiresAt (VS_Binding st)) m = (None, m')"
    using mem.binding_accept [OF assms(1)] by auto
  have st': "statement_ok g' st' now'"
    using assms(2) by (auto simp: ValidateSessionBindingStatement_def ValidateWithOptions_unfold split: if_splits)
  have m': "m' = m\<lparr>mc_seen := (prune (mc_now m) (mc_seen m))(replayKey st \<mapsto> ExpiresAt (VS_Binding st))\<rparr>"
    using st(2) by (cases "mark_locked (mc_now m) (replayKey st) (ExpiresAt (VS_Binding st)) (mc_seen m)")
      (auto simp: MarkUsed_ptr_eq mark_locked_accept split: option.splits)
  have "replayKey st' \<noteq> replayKey st" using replayKey_eq_iff [OF st' st(1)] assms(3) by simp
  then have "prune (mc_now m') (mc_seen m') (replayKey st') = None"
    using assms(4) by (simp add: m' prune_def)
  with memory_accepts_valid [OF st', of m'] assms(5) show ?thesis by (simp add: m')
qed

theorem fresh_session_accepted_witness:
  "fst (ValidateSessionBindingStatementWithOptions sample_grant
     (sample_statement\<lparr>VS_Binding := sample_binding\<lparr>Nonce := ''n2''\<rparr>\<rparr>) 5 (Some MarkUsed_ptr)
     \<lparr>mc_now = 5, mc_seen = [replayKey sample_statement \<mapsto> 10]\<rparr>) = None"
proof (rule fresh_session_accepted [OF sample_accepted])
  show "ValidateSessionBindingStatement sample_grant
      (sample_statement\<lparr>VS_Binding := sample_binding\<lparr>Nonce := ''n2''\<rparr>\<rparr>) 5 = None"
    using sample_statement_ok [OF sample_present(10)]
    by (simp add: ValidateSessionBindingStatement_def ValidateWithOptions_unfold MarkSessionBindingUsed_def)
qed (simp_all add: session_tuple_def sample_simps NewMemoryReplayCacheWithClock_def live_at_def)

end
