(* ===== verification/Token_Base.thy ===== *)
theory Token_Base
  imports Session_Binding JSON_Members TLS_Base
begin

text \<open>
  What the token verifiers share. \<open>github.com/golang-jwt/jwt/v5\<close> is not part of the repository:
  \<open>jwt.ParseWithClaims\<close> is a parameter of the verifiers, a function of the parser options, the key callback and
  the token. The callback assigns a variable of the caller, so it takes and returns that variable's value.
  \<open>jwt_contract\<close> states the documented behaviour of the parser on success; nothing else is ever assumed of it.

  The locale \<open>acceptor\<close> is the contract of an entry point that accepts tokens and records what it accepted in a
  replay cache; \<open>session_acceptor\<close> is the one for sessions, of which every verifier of grants and session bindings
  is an instance.
\<close>


section \<open>Strings\<close>

text \<open>\<open>strings.Fields\<close>: the pieces between space runes.\<close>

fun fields_loop :: "(rune \<times> nat) list \<Rightarrow> string \<Rightarrow> string \<Rightarrow> string list" where
  "fields_loop [] s cur = (if cur = [] then [] else [cur])"
| "fields_loop ((r, w) # rs) s cur =
     (if IsSpace r
      then (if cur = [] then fields_loop rs (drop w s) [] else cur # fields_loop rs (drop w s) [])
      else fields_loop rs (drop w s) (cur @ take w s))"

definition Fields :: "string \<Rightarrow> string list" where
  "Fields s = fields_loop (decode_runes (string_bytes s)) s []"

text \<open>
  \<open>strings.EqualFold\<close> with a constant of ASCII letters and hyphens. The only non-ASCII runes that fold to an ASCII
  letter are the Kelvin sign (k) and the long s (s), encoded as \<open>E2 84 AA\<close> and \<open>C5 BF\<close>.
\<close>

definition fold_lower :: "rune \<Rightarrow> rune" where
  "fold_lower r =
     (if 65 \<le> r \<and> r \<le> 90 then r + 32 else if r = 0x212A then 107 else if r = 0x17F then 115 else r)"

definition EqualFold :: "string \<Rightarrow> string \<Rightarrow> bool" where
  "EqualFold s t \<longleftrightarrow> map fold_lower (string_runes s) = map fold_lower (string_runes t)"


section \<open>The JWT library\<close>

text \<open>Of a parsed token the callbacks read only the header; a header value is a string or something else.\<close>

datatype header_value = HeaderString string | HeaderOther

type_synonym jwt_header = "string \<rightharpoonup> header_value"

record RegisteredClaims =
  rc_Issuer :: string
  rc_Subject :: string
  rc_Audience :: "string list"
  rc_ExpiresAt :: "go_time option" \<comment> \<open>\<open>None\<close> is the nil date\<close>
  rc_IssuedAt :: "go_time option"
  rc_ID :: string

record ParserOptions =
  po_ValidMethods :: "string list"
  po_Issuer :: string
  po_Audience :: string
  po_ExpirationRequired :: bool
  po_IssuedAt :: bool
  po_TimeFunc :: "go_time option" \<comment> \<open>\<open>None\<close>: the system clock\<close>

type_synonym ('e, 'k) key_callback = "jwt_header \<Rightarrow> string \<Rightarrow> ('e + 'k) \<times> string"

type_synonym ('e, 'k, 'c) parse_with_claims =
  "ParserOptions \<Rightarrow> ('e, 'k) key_callback \<Rightarrow> string \<Rightarrow> string \<Rightarrow> (string + 'c \<times> bool) \<times> string"

text \<open>
  The documented behaviour: when parsing succeeds with a valid token, the callback has returned a key, once; a
  signature with one of the allowed methods verifies under that key (\<open>verifies\<close>); the issuer is the expected one
  and the expected audience is among the token's; the token has not expired and was not issued in the future at
  the time the options give.
\<close>

definition jwt_contract ::
    "(string \<Rightarrow> 'k \<Rightarrow> string \<Rightarrow> bool) \<Rightarrow> ('e, 'k, 'c RegisteredClaims_scheme) parse_with_claims \<Rightarrow> bool" where
  "jwt_contract verifies parse \<longleftrightarrow>
     (\<forall>po kf token v claims v'. parse po kf token v = (Inr (claims, True), v') \<longrightarrow>
        (\<exists>header key method. kf header v = (Inr key, v')
           \<and> method \<in> set (po_ValidMethods po) \<and> verifies method key token)
        \<and> rc_Issuer claims = po_Issuer po \<and> po_Audience po \<in> set (rc_Audience claims)
        \<and> (\<forall>now. po_TimeFunc po = Some now \<longrightarrow>
             (po_ExpirationRequired po \<longrightarrow> (\<exists>e. rc_ExpiresAt claims = Some e \<and> now < e))
             \<and> (po_IssuedAt po \<longrightarrow> (\<forall>i. rc_IssuedAt claims = Some i \<longrightarrow> i \<le> now))))"


section \<open>Accepting a session once\<close>

record session_identity =
  si_Grant :: VerifiedGrant
  si_Statement :: VerifiedSessionBindingStatement
  si_Assertion :: Assertion

text \<open>An entry point that accepts requests and records the key of what it accepted until its expiry.\<close>

locale acceptor = one_shot mark tick clock holds
  for mark :: "'c mark_used" and tick :: "go_time \<Rightarrow> 'c \<Rightarrow> 'c" and clock :: "'c \<Rightarrow> go_time"
    and holds :: "'c \<Rightarrow> string \<Rightarrow> go_time \<Rightarrow> bool" +
  fixes accept :: "'r \<Rightarrow> 'c \<Rightarrow> ('e + 's) \<times> 'c" and key :: "'s \<Rightarrow> string" and expiry :: "'s \<Rightarrow> go_time"
  assumes accept_marks: "accept r c = (Inr s, c') \<Longrightarrow> mark (key s) (expiry s) c = (None, c')"
begin

lemma not_accepted_again:
  assumes "accept r c = (Inr s, c')" "readings_live (expiry s) evs"
    and "accept r' (fold (cache_step mark tick) evs c') = (Inr s', c'')"
  shows "key s' \<noteq> key s"
proof
  assume "key s' = key s"
  then have "fst (mark (key s') (expiry s') (fold (cache_step mark tick) evs c')) \<noteq> None"
    using accepted_once [OF accept_marks [OF assms(1)] assms(2)] by simp
  then show False using accept_marks [OF assms(3)] by simp
qed

end

text \<open>An acceptor of sessions: the key is the replay key of the session binding.\<close>

locale session_acceptor = acceptor mark tick clock holds accept
    "\<lambda>s. replayKey (si_Statement s)" "\<lambda>s. ExpiresAt (VS_Binding (si_Statement s))"
  for mark :: "'c mark_used" and tick :: "go_time \<Rightarrow> 'c \<Rightarrow> 'c" and clock :: "'c \<Rightarrow> go_time"
    and holds :: "'c \<Rightarrow> string \<Rightarrow> go_time \<Rightarrow> bool" and accept :: "'r \<Rightarrow> 'c \<Rightarrow> ('e + session_identity) \<times> 'c"
begin

lemma session_not_accepted_again:
  assumes "accept r c = (Inr s, c')" "readings_live (ExpiresAt (VS_Binding (si_Statement s))) evs"
    and "accept r' (fold (cache_step mark tick) evs c') = (Inr s', c'')"
  shows "session_tuple (si_Statement s') \<noteq> session_tuple (si_Statement s)"
  using not_accepted_again [OF assms] by (auto simp: replayKey_def session_tuple_def)

end

text \<open>The hash of a token's exact bytes under a domain prefix, in lower-case hexadecimal.\<close>

definition domain_hash :: "(bytes \<Rightarrow> bytes) \<Rightarrow> string \<Rightarrow> string \<Rightarrow> string" where
  "domain_hash sha256 seed token = ''sha256:'' @ EncodeToString (sha256 (map of_char (seed @ token)))"

lemma of_char_byte_inj:
  assumes "(of_char c :: byte) = of_char d"
  shows "c = d"
proof -
  have u: "unat (of_char x :: byte) = of_char x" for x
  proof -
    have "unat (of_nat (of_char x) :: byte) = (of_char x :: nat) mod 2 ^ LENGTH(8)" by (rule unat_of_nat)
    also have "\<dots> = (of_char x :: nat) mod 256" by simp
    also have "\<dots> = of_char x" by (rule of_char_mod_256)
    finally show ?thesis by (simp only: of_nat_of_char)
  qed
  have "(of_char c :: nat) = of_char d" using assms u [of c] u [of d] by metis
  then show ?thesis by (simp only: of_char_eq_iff)
qed

lemma domain_hash_inj:
  assumes "domain_hash sha256 seed t = domain_hash sha256 seed t'"
    and "inj_on sha256 {map of_char (seed @ t), map of_char (seed @ t')}"
  shows "t = t'"
proof -
  have "EncodeToString (sha256 (map of_char (seed @ t))) = EncodeToString (sha256 (map of_char (seed @ t')))"
    using assms(1) unfolding domain_hash_def by (simp only: same_append_eq)
  then have "sha256 (map of_char (seed @ t)) = sha256 (map of_char (seed @ t'))" by (rule EncodeToString_inj)
  then have "map of_char (seed @ t) = (map of_char (seed @ t') :: bytes)"
    using assms(2) by (elim inj_onD) simp_all
  then have "map (of_char :: char \<Rightarrow> byte) t = map of_char t'" by simp
  then show ?thesis by (rule map_injective) (simp add: inj_on_def of_char_byte_inj)
qed

lemma plain_TrimSpace:
  assumes "plain s"
  shows "TrimSpace s = s"
proof -
  have ne: "s \<noteq> []" using assms by (simp add: plain_def)
  have "0x20 < (of_char c :: nat) \<and> (of_char c :: nat) < 0x7F" if "c \<in> set s" for c
    using assms that by (auto simp: plain_def list_all_iff)
  then have "(of_char (hd s) :: nat) < 0x7F" "0x20 < (of_char (hd s) :: nat)" "(of_char (last s) :: nat) < 0x7F" "0x20 < (of_char (last s) :: nat)"
    using ne by simp_all
  then show ?thesis by (intro TrimSpace_id ne) (simp_all add: IsSpace_def)
qed


section \<open>A parser that keeps the contract\<close>

text \<open>
  For the examples: a parser that knows a fixed table of tokens, each with its key id, the one key that verifies
  it with the method \<open>ES256\<close>, and its claims.
\<close>

definition table_parse ::
    "(string \<rightharpoonup> string \<times> 'k \<times> 'c RegisteredClaims_scheme) \<Rightarrow> ('e, 'k, 'c RegisteredClaims_scheme) parse_with_claims" where
  "table_parse table po kf token v =
     (case table token of
        None \<Rightarrow> (Inl ''malformed'', v)
      | Some (kid, key, claims) \<Rightarrow>
          if ''ES256'' \<notin> set (po_ValidMethods po) \<or> rc_Issuer claims \<noteq> po_Issuer po \<or> po_Audience po \<notin> set (rc_Audience claims)
            \<or> (case po_TimeFunc po of None \<Rightarrow> False | Some now \<Rightarrow>
                 (case rc_ExpiresAt claims of None \<Rightarrow> True | Some e \<Rightarrow> e \<le> now)
                 \<or> (case rc_IssuedAt claims of None \<Rightarrow> False | Some i \<Rightarrow> now < i))
          then (Inl ''claims'', v)
          else case kf [''kid'' \<mapsto> HeaderString kid] v of
            (Inl e, v') \<Rightarrow> (Inl ''unverifiable'', v')
          | (Inr k, v') \<Rightarrow> if k = key then (Inr (claims, True), v') else (Inl ''signature'', v'))"

definition table_verifies :: "(string \<rightharpoonup> string \<times> 'k \<times> 'c) \<Rightarrow> string \<Rightarrow> 'k \<Rightarrow> string \<Rightarrow> bool" where
  "table_verifies table method key token \<longleftrightarrow>
     method = ''ES256'' \<and> (case table token of None \<Rightarrow> False | Some (kid, k, claims) \<Rightarrow> k = key)"

lemma table_contract:
  fixes table :: "string \<rightharpoonup> string \<times> 'k \<times> 'c RegisteredClaims_scheme"
  shows "jwt_contract (table_verifies table) (table_parse table :: ('e, 'k, 'c RegisteredClaims_scheme) parse_with_claims)"
  unfolding jwt_contract_def
proof (intro allI impI)
  fix po :: ParserOptions and kf :: "('e, 'k) key_callback" and token v and claims :: "'c RegisteredClaims_scheme" and v'
  assume "table_parse table po kf token v = (Inr (claims, True), v')"
  then obtain kid key where t: "table token = Some (kid, key, claims)"
    and k: "kf [''kid'' \<mapsto> HeaderString kid] v = (Inr key, v')"
    and c: "''ES256'' \<in> set (po_ValidMethods po)" "rc_Issuer claims = po_Issuer po" "po_Audience po \<in> set (rc_Audience claims)"
      "\<And>now. po_TimeFunc po = Some now \<Longrightarrow> (\<exists>e. rc_ExpiresAt claims = Some e \<and> now < e)
         \<and> (\<forall>i. rc_IssuedAt claims = Some i \<longrightarrow> i \<le> now)"
    by (auto simp: table_parse_def not_le split: option.splits prod.splits sum.splits if_splits)
  have v: "table_verifies table ''ES256'' key token" using t by (simp add: table_verifies_def)
  show "(\<exists>header key method. kf header v = (Inr key, v') \<and> method \<in> set (po_ValidMethods po) \<and> table_verifies table method key token)
      \<and> rc_Issuer claims = po_Issuer po \<and> po_Audience po \<in> set (rc_Audience claims)
      \<and> (\<forall>now. po_TimeFunc po = Some now \<longrightarrow>
           (po_ExpirationRequired po \<longrightarrow> (\<exists>e. rc_ExpiresAt claims = Some e \<and> now < e))
           \<and> (po_IssuedAt po \<longrightarrow> (\<forall>i. rc_IssuedAt claims = Some i \<longrightarrow> i \<le> now)))"
    using k v c by auto
qed

lemma demo_strings:
  "TrimSpace ''manager'' = ''manager''" "TrimSpace ''aud'' = ''aud''" "TrimSpace ''agent'' = ''agent''" "TrimSpace ''mk'' = ''mk''"
  "TrimSpace ''ck'' = ''ck''" "TrimSpace ''ES256'' = ''ES256''" "TrimSpace ''g1'' = ''g1''" "TrimSpace ''b1'' = ''b1''"
  "TrimSpace ''sbaip.identity-grant'' = ''sbaip.identity-grant''" "TrimSpace ''sbaip.session-binding'' = ''sbaip.session-binding''"
  "TrimSpace ''sbaip.session-envelope'' = ''sbaip.session-envelope''"
  "TrimSpace ''1'' = ''1''" "TrimSpace ''leaf'' = ''leaf''" "TrimSpace ''exporter'' = ''exporter''" "TrimSpace ''context'' = ''context''"
  "TrimSpace ''n1'' = ''n1''"
  by (rule plain_TrimSpace, simp add: plain_def MaxValueLength_def)+

lemma demo_method: "\<not> EqualFold ''ES256'' ''none''"
proof -
  have "ascii ''ES256''" "ascii ''none''" by (simp_all add: ascii_def)
  then show ?thesis by (simp add: EqualFold_def ascii_runes fold_lower_def)
qed

end
