(* ===== verification/Binding_JWT.thy ===== *)
theory Binding_JWT
  imports Token_Base
begin

text \<open>
  The Direct-Agent binding JWTs, \<open>pkg/clients/identity_jwt.go\<close>: the options and keys of a verifier, the parsing of
  a token, the identity grant, the session-binding statement, and their joint acceptance for one session.
\<close>


section \<open>Options, keys and claims\<close>

datatype binding_error = ErrMissingKeyFunc | ErrMissingLocalKey | ErrMissingValidMethods | ErrMissingExpectedIssuer
  | ErrMissingExpectedAudience | ErrMissingConfirmationKey | ErrMissingKeyID | ErrUnknownKeyID | ErrDisabledKeyID
  | ErrDuplicateKeyID | ErrAmbiguousKeySource | ErrMissingJWTID | ErrRevokedJWTID | ErrMissingSubject
  | ErrMissingGrantHash | ErrMissingBindingField | ErrMissingIdentityPolicy | ErrMissingReplayCache
  | ErrInvalidTokenType | ErrUnsupportedVersion | ErrUnsafeSigningMethod
  | MemberError member_error \<comment> \<open>\<open>ErrDuplicateJWTMember\<close> and the JSON errors\<close>
  | KeySourceError string \<comment> \<open>an error of the caller's key function\<close>
  | VerifyError string \<comment> \<open>\<open>binding jwt: verify\<close>\<close>
  | InvalidToken
  | PolicyError go_error \<comment> \<open>an error of the identity policy\<close>

abbreviation (input) TokenTypeIdentityGrant :: string where "TokenTypeIdentityGrant \<equiv> ''sbaip.identity-grant''"
abbreviation (input) TokenTypeSessionBinding :: string where "TokenTypeSessionBinding \<equiv> ''sbaip.session-binding''"
abbreviation (input) LegacyTokenTypeIdentityGrant :: string where "LegacyTokenTypeIdentityGrant \<equiv> ''agtp.identity-grant''"
abbreviation (input) LegacyTokenTypeSessionBinding :: string where "LegacyTokenTypeSessionBinding \<equiv> ''agtp.session-binding''"
abbreviation (input) ProfileVersion :: string where "ProfileVersion \<equiv> ''1''"

definition identityGrantJWTHashSeed :: string where
  "identityGrantJWTHashSeed = ''sbaip.identity-grant.jwt.v1'' @ [CHR 0x00]"

record 'k LocalKey =
  lk_KeyID :: string
  lk_Key :: "'k option" \<comment> \<open>\<open>None\<close> is the nil key\<close>
  lk_Disabled :: bool

record 'k JWTVerifyOptions =
  jo_ExpectedIssuer :: string
  jo_ExpectedAudience :: string
  jo_ValidMethods :: "string list"
  jo_KeyFunc :: "(string \<Rightarrow> string + 'k) option"
  jo_LocalKeys :: "'k LocalKey list"
  jo_DisabledKeyIDs :: "string list"
  jo_RevokedJWTIDs :: "string list"
  jo_Now :: go_time

record ('k, 'c) SessionIdentityJWTOptions =
  so_Grant :: "'k JWTVerifyOptions"
  so_SessionBinding :: "'k JWTVerifyOptions"
  so_Policy :: Policy
  so_ExpectedBinding :: Binding
  so_ReplayCache :: "'c replay_cache"
  so_Now :: go_time

record bindingJWTClaims = RegisteredClaims +
  bc_ProfileType :: string
  bc_ProfileVersion :: string
  bc_LegacyType :: string
  bc_LegacyVersion :: string
  bc_ConfirmationKeyID :: string \<comment> \<open>the \<open>kid\<close> of \<open>cnf\<close>\<close>
  bc_EndpointKeyIDs :: "string list"
  bc_GrantHash :: string
  bc_LeafKeySHA256 :: string
  bc_TLSExporter :: string
  bc_RequestContext :: string
  bc_AttestationBind :: string
  bc_Nonce :: string
  bc_Values :: Values \<comment> \<open>service to ontology, scopes, resources and authorization details\<close>
  bc_Scope :: string
  bc_Resource :: string

definition set_of :: "string list \<Rightarrow> string set" where
  "set_of values = fold (\<lambda>value out. if TrimSpace value \<noteq> [] then insert (TrimSpace value) out else out) values {}"

definition listed :: "string \<Rightarrow> string list \<Rightarrow> bool" where
  "listed value values \<longleftrightarrow> TrimSpace value \<in> set_of values"

definition jwtParserOptions :: "'k JWTVerifyOptions \<Rightarrow> binding_error + ParserOptions" where
  "jwtParserOptions opts =
     (if jo_KeyFunc opts = None \<and> length (jo_LocalKeys opts) = 0 then Inl ErrMissingKeyFunc
      else if jo_KeyFunc opts \<noteq> None \<and> length (jo_LocalKeys opts) > 0 then Inl ErrAmbiguousKeySource
      else if length (jo_ValidMethods opts) = 0 then Inl ErrMissingValidMethods
      else if list_ex (\<lambda>m. TrimSpace m = [] \<or> EqualFold (TrimSpace m) ''none'') (jo_ValidMethods opts)
      then Inl ErrUnsafeSigningMethod
      else if TrimSpace (jo_ExpectedIssuer opts) = [] then Inl ErrMissingExpectedIssuer
      else if TrimSpace (jo_ExpectedAudience opts) = [] then Inl ErrMissingExpectedAudience
      else Inr \<lparr>po_ValidMethods = jo_ValidMethods opts, po_Issuer = jo_ExpectedIssuer opts,
        po_Audience = jo_ExpectedAudience opts, po_ExpirationRequired = True, po_IssuedAt = True,
        po_TimeFunc = (if jo_Now opts \<noteq> 0 then Some (jo_Now opts) else None)\<rparr>)"

text \<open>The loop over the local keys: the keys by trimmed id and the disabled ids, or the first error.\<close>

fun collect_keys :: "'k LocalKey list \<Rightarrow> (string \<rightharpoonup> 'k) \<Rightarrow> string set \<Rightarrow> binding_error + (string \<rightharpoonup> 'k) \<times> string set" where
  "collect_keys [] keys disabled = Inr (keys, disabled)"
| "collect_keys (localKey # ks) keys disabled =
     (let keyID = TrimSpace (lk_KeyID localKey) in
      if keyID = [] then Inl ErrMissingKeyID
      else if keys keyID \<noteq> None then Inl ErrDuplicateKeyID
      else case lk_Key localKey of
        None \<Rightarrow> Inl ErrMissingLocalKey
      | Some key \<Rightarrow> collect_keys ks (keys(keyID \<mapsto> key)) (if lk_Disabled localKey then insert keyID disabled else disabled))"

definition verificationKeyFunc :: "'k JWTVerifyOptions \<Rightarrow> binding_error + (string \<Rightarrow> binding_error + 'k)" where
  "verificationKeyFunc opts =
     (case jo_KeyFunc opts of
        Some keyFunc \<Rightarrow>
          Inr (\<lambda>keyID. let keyID = TrimSpace keyID in
            if keyID \<in> set_of (jo_DisabledKeyIDs opts) then Inl ErrDisabledKeyID
            else case keyFunc keyID of Inl e \<Rightarrow> Inl (KeySourceError e) | Inr key \<Rightarrow> Inr key)
      | None \<Rightarrow>
          (case collect_keys (jo_LocalKeys opts) Map.empty (set_of (jo_DisabledKeyIDs opts)) of
             Inl e \<Rightarrow> Inl e
           | Inr (keys, disabled) \<Rightarrow>
               Inr (\<lambda>keyID. let keyID = TrimSpace keyID in
                 if keyID \<in> disabled then Inl ErrDisabledKeyID
                 else case keys keyID of None \<Rightarrow> Inl ErrUnknownKeyID | Some key \<Rightarrow> Inr key)))"

definition ValidateJWTVerifyOptions :: "'k JWTVerifyOptions \<Rightarrow> binding_error option" where
  "ValidateJWTVerifyOptions opts =
     (case jwtParserOptions opts of
        Inl e \<Rightarrow> Some e
      | Inr _ \<Rightarrow> (case verificationKeyFunc opts of Inl e \<Rightarrow> Some e | Inr _ \<Rightarrow> None))"

definition tokenKeyID :: "jwt_header \<Rightarrow> binding_error + string" where
  "tokenKeyID header =
     (case header ''kid'' of
        Some (HeaderString keyID) \<Rightarrow> if TrimSpace keyID = [] then Inl ErrMissingKeyID else Inr (TrimSpace keyID)
      | _ \<Rightarrow> Inl ErrMissingKeyID)"


section \<open>Claims\<close>

definition profileValueMatches :: "string \<Rightarrow> string \<Rightarrow> bool" where
  "profileValueMatches value expected \<longleftrightarrow> TrimSpace value = [] \<or> TrimSpace value = expected"

definition legacyProfileValueMatches :: "string \<Rightarrow> string \<Rightarrow> bool" where
  "legacyProfileValueMatches value expected =
     (let value = TrimSpace value in
      if value = [] then True
      else if value = expected then True
      else if expected = TokenTypeIdentityGrant then value = LegacyTokenTypeIdentityGrant
      else if expected = TokenTypeSessionBinding then value = LegacyTokenTypeSessionBinding
      else False)"

definition profileVersionMatches :: "string \<Rightarrow> bool" where
  "profileVersionMatches value \<longleftrightarrow> TrimSpace value = [] \<or> TrimSpace value = ProfileVersion"

definition requireProfile :: "bindingJWTClaims \<Rightarrow> string \<Rightarrow> binding_error option" where
  "requireProfile c expected =
     (if \<not> profileValueMatches (bc_ProfileType c) expected then Some ErrInvalidTokenType
      else if \<not> legacyProfileValueMatches (bc_LegacyType c) expected then Some ErrInvalidTokenType
      else if \<not> profileVersionMatches (bc_ProfileVersion c) \<or> \<not> profileVersionMatches (bc_LegacyVersion c)
      then Some ErrUnsupportedVersion
      else if TrimSpace (bc_ProfileType c) = [] \<and> TrimSpace (bc_LegacyType c) = [] then Some ErrInvalidTokenType
      else if TrimSpace (bc_ProfileVersion c) = [] \<and> TrimSpace (bc_LegacyVersion c) = [] then Some ErrUnsupportedVersion
      else None)"

definition requireSessionBindingFields :: "bindingJWTClaims \<Rightarrow> binding_error option" where
  "requireSessionBindingFields c =
     (if TrimSpace (bc_GrantHash c) = [] then Some ErrMissingGrantHash
      else if list_ex (\<lambda>value. TrimSpace value = [])
          [bc_LeafKeySHA256 c, bc_TLSExporter c, bc_RequestContext c, bc_Nonce c]
      then Some ErrMissingBindingField
      else None)"

definition claimTime :: "go_time option \<Rightarrow> go_time" where
  "claimTime value = (case value of None \<Rightarrow> 0 | Some t \<Rightarrow> t)"

definition withSpaceSeparatedValues :: "string list \<Rightarrow> string \<Rightarrow> string list" where
  "withSpaceSeparatedValues values spaceSeparated =
     (if TrimSpace spaceSeparated = [] then values else values @ Fields spaceSeparated)"


section \<open>Verification\<close>

definition IdentityGrantHash :: "(bytes \<Rightarrow> bytes) \<Rightarrow> string \<Rightarrow> string" where
  "IdentityGrantHash sha256 tokenString = domain_hash sha256 identityGrantJWTHashSeed tokenString"

text \<open>The callback records the key id before it looks the key up.\<close>

definition binding_key_callback :: "(string \<Rightarrow> binding_error + 'k) \<Rightarrow> (binding_error, 'k) key_callback" where
  "binding_key_callback keyFunc header signerKey =
     (case tokenKeyID header of
        Inl e \<Rightarrow> (Inl e, signerKey)
      | Inr keyID \<Rightarrow> (keyFunc keyID, keyID))"

definition parseBindingJWT ::
    "(binding_error, 'k, bindingJWTClaims) parse_with_claims \<Rightarrow> string \<Rightarrow> 'k JWTVerifyOptions
     \<Rightarrow> binding_error + bindingJWTClaims \<times> string" where
  "parseBindingJWT parse tokenString opts =
     (case rejectDuplicateJWTMembers tokenString of
        Some e \<Rightarrow> Inl (MemberError e)
      | None \<Rightarrow>
          (case jwtParserOptions opts of
             Inl e \<Rightarrow> Inl e
           | Inr parserOpts \<Rightarrow>
               (case verificationKeyFunc opts of
                  Inl e \<Rightarrow> Inl e
                | Inr keyFunc \<Rightarrow>
                    (case parse parserOpts (binding_key_callback keyFunc) tokenString [] of
                       (Inl e, _) \<Rightarrow> Inl (VerifyError e)
                     | (Inr (claims, valid), signerKey) \<Rightarrow>
                         if \<not> valid then Inl InvalidToken
                         else if listed (rc_ID claims) (jo_RevokedJWTIDs opts) then Inl ErrRevokedJWTID
                         else Inr (claims, signerKey)))))"

definition VerifyIdentityGrantJWT ::
    "(bytes \<Rightarrow> bytes) \<Rightarrow> (binding_error, 'k, bindingJWTClaims) parse_with_claims \<Rightarrow> string \<Rightarrow> 'k JWTVerifyOptions
     \<Rightarrow> binding_error + VerifiedGrant" where
  "VerifyIdentityGrantJWT sha256 parse tokenString opts =
     (case parseBindingJWT parse tokenString opts of
        Inl e \<Rightarrow> Inl e
      | Inr (claims, signerKey) \<Rightarrow>
          (case requireProfile claims TokenTypeIdentityGrant of
             Some e \<Rightarrow> Inl e
           | None \<Rightarrow>
               if TrimSpace (rc_ID claims) = [] then Inl ErrMissingJWTID
               else if TrimSpace (rc_Subject claims) = [] then Inl ErrMissingSubject
               else if TrimSpace (bc_ConfirmationKeyID claims) = [] then Inl ErrMissingConfirmationKey
               else
                 let values = (bc_Values claims)\<lparr>
                       Scopes := withSpaceSeparatedValues (Scopes (bc_Values claims)) (bc_Scope claims),
                       Resources := withSpaceSeparatedValues (Resources (bc_Values claims)) (bc_Resource claims)\<rparr>;
                     values = (if Agent values = [] then values\<lparr>Agent := rc_Subject claims\<rparr> else values)
                 in Inr \<lparr>VG_Issuer = rc_Issuer claims, VG_IssuerKey = signerKey,
                      VG_Audience = jo_ExpectedAudience opts, VG_GrantHash = IdentityGrantHash sha256 tokenString,
                      VG_Values = values, VG_ConfirmationKey = bc_ConfirmationKeyID claims,
                      VG_AuthorizedEndpointKeys = bc_EndpointKeyIDs claims,
                      VG_IssuedAt = claimTime (rc_IssuedAt claims), VG_ExpiresAt = claimTime (rc_ExpiresAt claims)\<rparr>))"

definition VerifySessionBindingJWT ::
    "(binding_error, 'k, bindingJWTClaims) parse_with_claims \<Rightarrow> string \<Rightarrow> 'k JWTVerifyOptions
     \<Rightarrow> binding_error + VerifiedSessionBindingStatement" where
  "VerifySessionBindingJWT parse tokenString opts =
     (case parseBindingJWT parse tokenString opts of
        Inl e \<Rightarrow> Inl e
      | Inr (claims, signerKey) \<Rightarrow>
          (case requireProfile claims TokenTypeSessionBinding of
             Some e \<Rightarrow> Inl e
           | None \<Rightarrow>
               if TrimSpace (rc_ID claims) = [] then Inl ErrMissingJWTID
               else case requireSessionBindingFields claims of
                 Some e \<Rightarrow> Inl e
               | None \<Rightarrow>
                   Inr \<lparr>VS_GrantHash = bc_GrantHash claims, VS_Audience = jo_ExpectedAudience opts,
                     VS_SignerKey = signerKey,
                     VS_Binding = \<lparr>LeafPublicKeySHA256 = bc_LeafKeySHA256 claims,
                       TLSExporterSHA256 = bc_TLSExporter claims, RequestContextSHA256 = bc_RequestContext claims,
                       AttestationBinderSHA256 = bc_AttestationBind claims, Nonce = bc_Nonce claims,
                       IssuedAt = claimTime (rc_IssuedAt claims), ExpiresAt = claimTime (rc_ExpiresAt claims)\<rparr>\<rparr>))"

text \<open>\<open>clock\<close> is the value of \<open>time.Now()\<close>, read when the options give no time.\<close>

definition VerifySessionIdentityJWT ::
    "(bytes \<Rightarrow> bytes) \<Rightarrow> (binding_error, 'k, bindingJWTClaims) parse_with_claims \<Rightarrow> go_time \<Rightarrow> string \<Rightarrow> string
     \<Rightarrow> ('k, 'c) SessionIdentityJWTOptions \<Rightarrow> 'c \<Rightarrow> (binding_error + session_identity) \<times> 'c" where
  "VerifySessionIdentityJWT sha256 parse clock grantToken bindingToken opts c =
     (if \<not> Policy_Enabled (so_Policy opts) then (Inl ErrMissingIdentityPolicy, c)
      else if so_ReplayCache opts = None then (Inl ErrMissingReplayCache, c)
      else
        let now = (if so_Now opts = 0 then clock else so_Now opts) in
        case VerifyIdentityGrantJWT sha256 parse grantToken ((so_Grant opts)\<lparr>jo_Now := now\<rparr>) of
          Inl e \<Rightarrow> (Inl e, c)
        | Inr grant \<Rightarrow>
            (case VerifySessionBindingJWT parse bindingToken ((so_SessionBinding opts)\<lparr>jo_Now := now\<rparr>) of
               Inl e \<Rightarrow> (Inl e, c)
             | Inr st \<Rightarrow>
                 (case NewAssertionFromSessionBinding grant st now of
                    Inl e \<Rightarrow> (Inl (PolicyError e), c)
                  | Inr assertion \<Rightarrow>
                      (case ValidateAssertion (so_Policy opts) assertion (so_ExpectedBinding opts) now of
                         Some e \<Rightarrow> (Inl (PolicyError e), c)
                       | None \<Rightarrow>
                           (case MarkSessionBindingUsed (so_ReplayCache opts) st c of
                              (Some e, c') \<Rightarrow> (Inl (PolicyError e), c')
                            | (None, c') \<Rightarrow>
                                (Inr \<lparr>si_Grant = grant, si_Statement = st, si_Assertion = assertion\<rparr>, c'))))))"


section \<open>What acceptance means\<close>

lemma set_of_iff: "k \<in> set_of vs \<longleftrightarrow> k \<noteq> [] \<and> (\<exists>v \<in> set vs. TrimSpace v = k)"
proof -
  have "k \<in> fold (\<lambda>value out. if TrimSpace value \<noteq> [] then insert (TrimSpace value) out else out) vs A \<longleftrightarrow>
      k \<in> A \<or> k \<noteq> [] \<and> (\<exists>v \<in> set vs. TrimSpace v = k)" for A
    by (induction vs arbitrary: A) auto
  then show ?thesis by (simp add: set_of_def)
qed

text \<open>The key the local configuration gives for a key id, none if the id is disabled.\<close>

definition resolves :: "'k JWTVerifyOptions \<Rightarrow> string \<Rightarrow> 'k \<Rightarrow> bool" where
  "resolves opts kid key \<longleftrightarrow> kid \<notin> set_of (jo_DisabledKeyIDs opts) \<and>
     (case jo_KeyFunc opts of
        Some f \<Rightarrow> f kid = Inr key
      | None \<Rightarrow> (\<exists>lk \<in> set (jo_LocalKeys opts). TrimSpace (lk_KeyID lk) = kid \<and> lk_Key lk = Some key \<and> \<not> lk_Disabled lk))"

lemma collect_keys_Inr:
  "collect_keys ks keys disabled = Inr (keys', disabled') \<Longrightarrow> disabled \<subseteq> disabled' \<and>
     (\<forall>kid key. keys' kid = Some key \<longrightarrow> kid \<notin> disabled' \<longrightarrow> keys kid = Some key \<or>
        (\<exists>lk \<in> set ks. TrimSpace (lk_KeyID lk) = kid \<and> lk_Key lk = Some key \<and> \<not> lk_Disabled lk))"
proof (induction ks arbitrary: keys disabled)
  case (Cons lk ks)
  define kid where "kid = TrimSpace (lk_KeyID lk)"
  from Cons.prems obtain key where key: "lk_Key lk = Some key"
      "collect_keys ks (keys(kid \<mapsto> key)) (if lk_Disabled lk then insert kid disabled else disabled) = Inr (keys', disabled')"
    by (auto simp: Let_def kid_def split: if_splits option.splits)
  note IH = Cons.IH [OF key(2)]
  have "disabled \<subseteq> disabled'" using IH by (auto split: if_splits)
  moreover have "keys k = Some x \<or> (\<exists>lk' \<in> set (lk # ks). TrimSpace (lk_KeyID lk') = k \<and> lk_Key lk' = Some x \<and> \<not> lk_Disabled lk')"
    if k: "keys' k = Some x" "k \<notin> disabled'" for k x
  proof (cases "(keys(kid \<mapsto> key)) k = Some x")
    case True
    then show ?thesis using key(1) IH k(2) kid_def by (cases "k = kid") (auto split: if_splits)
  next
    case False
    then show ?thesis using IH k by (metis list.set_intros(2))
  qed
  ultimately show ?case by blast
qed simp

lemma verificationKeyFunc_resolves:
  assumes "verificationKeyFunc opts = Inr kf" "kf kid = Inr key"
  shows "resolves opts (TrimSpace kid) key"
proof (cases "jo_KeyFunc opts")
  case None
  with assms(1) obtain keys disabled where k: "collect_keys (jo_LocalKeys opts) Map.empty (set_of (jo_DisabledKeyIDs opts)) = Inr (keys, disabled)"
      "kf = (\<lambda>keyID. let keyID = TrimSpace keyID in if keyID \<in> disabled then Inl ErrDisabledKeyID
         else case keys keyID of None \<Rightarrow> Inl ErrUnknownKeyID | Some key \<Rightarrow> Inr key)"
    by (auto simp: verificationKeyFunc_def split: sum.splits)
  have "TrimSpace kid \<notin> disabled" "keys (TrimSpace kid) = Some key"
    using assms(2) k(2) by (auto simp: Let_def split: if_splits option.splits)
  then show ?thesis using collect_keys_Inr [OF k(1)] None by (auto simp: resolves_def)
next
  case (Some f)
  then show ?thesis
    using assms by (auto simp: verificationKeyFunc_def resolves_def Let_def split: if_splits sum.splits)
qed

text \<open>
  A token verified under the options: its signature verifies, with an allowed method that is not \<open>none\<close>, under a
  key the local configuration gives for the key id.
\<close>

definition authenticated :: "(string \<Rightarrow> 'k \<Rightarrow> string \<Rightarrow> bool) \<Rightarrow> 'k JWTVerifyOptions \<Rightarrow> string \<Rightarrow> string \<Rightarrow> bool" where
  "authenticated verifies opts kid token \<longleftrightarrow> kid \<noteq> [] \<and>
     (\<exists>key method. resolves opts (TrimSpace kid) key \<and> method \<in> set (jo_ValidMethods opts)
        \<and> \<not> EqualFold (TrimSpace method) ''none'' \<and> verifies method key token)"

lemma jwtParserOptions_Inr:
  "jwtParserOptions opts = Inr po \<Longrightarrow>
   po = \<lparr>po_ValidMethods = jo_ValidMethods opts, po_Issuer = jo_ExpectedIssuer opts,
     po_Audience = jo_ExpectedAudience opts, po_ExpirationRequired = True, po_IssuedAt = True,
     po_TimeFunc = (if jo_Now opts \<noteq> 0 then Some (jo_Now opts) else None)\<rparr>
   \<and> (\<forall>m \<in> set (jo_ValidMethods opts). \<not> EqualFold (TrimSpace m) ''none'')"
  by (auto simp: jwtParserOptions_def list_ex_iff split: if_splits)

lemma parseBindingJWT_Inr:
  assumes "jwt_contract verifies parse" "parseBindingJWT parse token opts = Inr (claims, kid)"
  shows "authenticated verifies opts kid token" "rc_Issuer claims = jo_ExpectedIssuer opts"
    "jo_Now opts \<noteq> 0 \<Longrightarrow> jo_Now opts < claimTime (rc_ExpiresAt claims)"
    "\<not> listed (rc_ID claims) (jo_RevokedJWTIDs opts)" "rejectDuplicateJWTMembers token = None"
proof -
  from assms(2) obtain po kf where po: "jwtParserOptions opts = Inr po" "verificationKeyFunc opts = Inr kf"
      "parse po (binding_key_callback kf) token [] = (Inr (claims, True), kid)"
      and r: "\<not> listed (rc_ID claims) (jo_RevokedJWTIDs opts)" "rejectDuplicateJWTMembers token = None"
    by (auto simp: parseBindingJWT_def split: option.splits sum.splits prod.splits if_splits)
  note o = jwtParserOptions_Inr [OF po(1)]
  from assms(1) po(3) obtain header key m where k: "binding_key_callback kf header [] = (Inr key, kid)"
      "m \<in> set (po_ValidMethods po)" "verifies m key token"
      and c: "rc_Issuer claims = po_Issuer po"
        "\<And>now. po_TimeFunc po = Some now \<Longrightarrow> po_ExpirationRequired po \<Longrightarrow> \<exists>e. rc_ExpiresAt claims = Some e \<and> now < e"
    unfolding jwt_contract_def by metis
  from k(1) have id: "tokenKeyID header = Inr kid" "kf kid = Inr key"
    by (auto simp: binding_key_callback_def split: sum.splits)
  then have "kid \<noteq> []" by (auto simp: tokenKeyID_def split: option.splits header_value.splits if_splits)
  moreover have "m \<in> set (jo_ValidMethods opts)" "\<not> EqualFold (TrimSpace m) ''none''" using k(2) o by auto
  ultimately show "authenticated verifies opts kid token"
    using verificationKeyFunc_resolves [OF po(2) id(2)] k(3) unfolding authenticated_def by blast
  show "rc_Issuer claims = jo_ExpectedIssuer opts" using c(1) o by simp
  show "jo_Now opts \<noteq> 0 \<Longrightarrow> jo_Now opts < claimTime (rc_ExpiresAt claims)"
    using c(2) [of "jo_Now opts"] o by (auto simp: claimTime_def)
  show "\<not> listed (rc_ID claims) (jo_RevokedJWTIDs opts)" "rejectDuplicateJWTMembers token = None" by fact+
qed

lemma VerifyIdentityGrantJWT_Inr:
  assumes "jwt_contract verifies parse" "VerifyIdentityGrantJWT sha256 parse token opts = Inr g"
  shows "authenticated verifies opts (VG_IssuerKey g) token" "VG_Issuer g = jo_ExpectedIssuer opts"
    "VG_Audience g = jo_ExpectedAudience opts" "VG_GrantHash g = IdentityGrantHash sha256 token"
    "jo_Now opts \<noteq> 0 \<Longrightarrow> jo_Now opts < VG_ExpiresAt g"
proof -
  from assms(2) obtain claims kid where p: "parseBindingJWT parse token opts = Inr (claims, kid)"
      and g: "VG_IssuerKey g = kid" "VG_Issuer g = rc_Issuer claims" "VG_Audience g = jo_ExpectedAudience opts"
        "VG_GrantHash g = IdentityGrantHash sha256 token" "VG_ExpiresAt g = claimTime (rc_ExpiresAt claims)"
    by (auto simp: VerifyIdentityGrantJWT_def Let_def split: sum.splits option.splits if_splits)
  note parseBindingJWT_Inr [OF assms(1) p]
  with g show "authenticated verifies opts (VG_IssuerKey g) token" "VG_Issuer g = jo_ExpectedIssuer opts"
    "VG_Audience g = jo_ExpectedAudience opts" "VG_GrantHash g = IdentityGrantHash sha256 token"
    "jo_Now opts \<noteq> 0 \<Longrightarrow> jo_Now opts < VG_ExpiresAt g" by simp_all
qed

lemma VerifySessionBindingJWT_Inr:
  assumes "jwt_contract verifies parse" "VerifySessionBindingJWT parse token opts = Inr st"
  shows "authenticated verifies opts (VS_SignerKey st) token" "VS_Audience st = jo_ExpectedAudience opts"
    "jo_Now opts \<noteq> 0 \<Longrightarrow> jo_Now opts < ExpiresAt (VS_Binding st)"
proof -
  from assms(2) obtain claims kid where p: "parseBindingJWT parse token opts = Inr (claims, kid)"
      and g: "VS_SignerKey st = kid" "VS_Audience st = jo_ExpectedAudience opts"
        "ExpiresAt (VS_Binding st) = claimTime (rc_ExpiresAt claims)"
    by (auto simp: VerifySessionBindingJWT_def split: sum.splits option.splits if_splits)
  note parseBindingJWT_Inr [OF assms(1) p]
  with g show "authenticated verifies opts (VS_SignerKey st) token" "VS_Audience st = jo_ExpectedAudience opts"
    "jo_Now opts \<noteq> 0 \<Longrightarrow> jo_Now opts < ExpiresAt (VS_Binding st)" by simp_all
qed

lemma VerifyIdentityGrantJWT_hash:
  "VerifyIdentityGrantJWT sha256 parse token opts = Inr g \<Longrightarrow> VG_GrantHash g = IdentityGrantHash sha256 token"
  by (auto simp: VerifyIdentityGrantJWT_def Let_def split: sum.splits option.splits if_splits)

definition accept_time :: "('k, 'c) SessionIdentityJWTOptions \<Rightarrow> go_time \<Rightarrow> go_time" where
  "accept_time opts clock = (if so_Now opts = 0 then clock else so_Now opts)"

lemma VerifySessionIdentityJWT_Inr:
  "VerifySessionIdentityJWT sha256 parse clock grantToken bindingToken opts c = (Inr s, c') \<longleftrightarrow>
     Policy_Enabled (so_Policy opts) \<and>
     (\<exists>mark. so_ReplayCache opts = Some mark
        \<and> VerifyIdentityGrantJWT sha256 parse grantToken ((so_Grant opts)\<lparr>jo_Now := accept_time opts clock\<rparr>) = Inr (si_Grant s)
        \<and> VerifySessionBindingJWT parse bindingToken ((so_SessionBinding opts)\<lparr>jo_Now := accept_time opts clock\<rparr>) = Inr (si_Statement s)
        \<and> statement_ok (si_Grant s) (si_Statement s) (accept_time opts clock)
        \<and> si_Assertion s = \<lparr>A_Issuer = VG_Issuer (si_Grant s), A_Values = VG_Values (si_Grant s), A_Binding = VS_Binding (si_Statement s)\<rparr>
        \<and> ValidateAssertion (so_Policy opts) (si_Assertion s) (so_ExpectedBinding opts) (accept_time opts clock) = None
        \<and> mark (replayKey (si_Statement s)) (ExpiresAt (VS_Binding (si_Statement s))) c = (None, c'))"
  (is "?L \<longleftrightarrow> ?R")
proof
  assume ?L
  then show ?R
    unfolding VerifySessionIdentityJWT_def Let_def accept_time_def [symmetric]
    by (auto simp: NewAssertion_Inr MarkSessionBindingUsed_def split: if_splits sum.splits option.splits prod.splits)
next
  assume ?R
  then show ?L
    unfolding VerifySessionIdentityJWT_def Let_def accept_time_def [symmetric]
    by (auto simp: NewAssertion_Inr [THEN iffD2] MarkSessionBindingUsed_def)
qed


lemma accepted_parts:
  assumes "VerifySessionIdentityJWT sha256 parse clock grantToken bindingToken opts c = (Inr s, c')"
  shows "VerifyIdentityGrantJWT sha256 parse grantToken ((so_Grant opts)\<lparr>jo_Now := accept_time opts clock\<rparr>) = Inr (si_Grant s)"
    "VerifySessionBindingJWT parse bindingToken ((so_SessionBinding opts)\<lparr>jo_Now := accept_time opts clock\<rparr>) = Inr (si_Statement s)"
    "statement_ok (si_Grant s) (si_Statement s) (accept_time opts clock)"
    "si_Assertion s = \<lparr>A_Issuer = VG_Issuer (si_Grant s), A_Values = VG_Values (si_Grant s), A_Binding = VS_Binding (si_Statement s)\<rparr>"
    "ValidateAssertion (so_Policy opts) (si_Assertion s) (so_ExpectedBinding opts) (accept_time opts clock) = None"
proof -
  note a = assms [unfolded VerifySessionIdentityJWT_Inr]
  from a show "VerifyIdentityGrantJWT sha256 parse grantToken ((so_Grant opts)\<lparr>jo_Now := accept_time opts clock\<rparr>) = Inr (si_Grant s)" by (elim conjE exE)
  from a show "VerifySessionBindingJWT parse bindingToken ((so_SessionBinding opts)\<lparr>jo_Now := accept_time opts clock\<rparr>) = Inr (si_Statement s)" by (elim conjE exE)
  from a show "statement_ok (si_Grant s) (si_Statement s) (accept_time opts clock)" by (elim conjE exE)
  from a show "si_Assertion s = \<lparr>A_Issuer = VG_Issuer (si_Grant s), A_Values = VG_Values (si_Grant s), A_Binding = VS_Binding (si_Statement s)\<rparr>" by (elim conjE exE)
  from a show "ValidateAssertion (so_Policy opts) (si_Assertion s) (so_ExpectedBinding opts) (accept_time opts clock) = None" by (elim conjE exE)
qed

text \<open>
  C28: what the runtime client accepts. If the JWT library keeps its contract, accepted tokens mean that: the
  grant is signed under a key the local options give for its key id, and the statement likewise, both with an
  allowed method that is not \<open>none\<close>; the grant names the statement's key, which is not the key of the grant;
  the statement carries the hash of exactly this grant token; issuer and audience are the expected ones; neither
  token has expired; and the session and the granted values satisfy the local policy.
\<close>

theorem accepted_session_identity:
  assumes "jwt_contract verifies parse" and "clock \<noteq> 0"
    and "VerifySessionIdentityJWT sha256 parse clock grantToken bindingToken opts c = (Inr s, c')"
  shows "authenticated verifies (so_Grant opts) (VG_IssuerKey (si_Grant s)) grantToken
    \<and> authenticated verifies (so_SessionBinding opts) (VS_SignerKey (si_Statement s)) bindingToken
    \<and> VS_SignerKey (si_Statement s) \<in> binding_keys (si_Grant s) - {VG_IssuerKey (si_Grant s)}
    \<and> VS_GrantHash (si_Statement s) = IdentityGrantHash sha256 grantToken
    \<and> VG_Issuer (si_Grant s) = jo_ExpectedIssuer (so_Grant opts)
    \<and> VG_Audience (si_Grant s) = jo_ExpectedAudience (so_Grant opts)
    \<and> jo_ExpectedAudience (so_SessionBinding opts) = jo_ExpectedAudience (so_Grant opts)
    \<and> accept_time opts clock < VG_ExpiresAt (si_Grant s)
    \<and> accept_time opts clock < ExpiresAt (VS_Binding (si_Statement s))
    \<and> binding_ok (VS_Binding (si_Statement s)) (so_ExpectedBinding opts) (accept_time opts clock)
    \<and> policy_ok (so_Policy opts) (VG_Values (si_Grant s))"
proof -
  note a = accepted_parts [OF assms(3)]
  have now: "accept_time opts clock \<noteq> 0" using assms(2) by (simp add: accept_time_def)
  have auth: "authenticated verifies (opts'\<lparr>jo_Now := t\<rparr>) kid tok = authenticated verifies opts' kid tok"
    for opts' :: "'a JWTVerifyOptions" and t kid tok by (cases "jo_KeyFunc opts'") (simp_all add: authenticated_def resolves_def)
  note g = VerifyIdentityGrantJWT_Inr [OF assms(1) a(1), unfolded auth, simplified] and st = VerifySessionBindingJWT_Inr [OF assms(1) a(2), unfolded auth, simplified]
  have "VG_IssuerKey (si_Grant s) \<noteq> []" using g(1) by (simp add: authenticated_def)
  moreover have "binding_ok (VS_Binding (si_Statement s)) (so_ExpectedBinding opts) (accept_time opts clock)
      \<and> policy_ok (so_Policy opts) (VG_Values (si_Grant s))"
    using a(5) by (simp add: ValidateAssertion_def policy_iff a(4))
  ultimately show ?thesis using g st a(3) now by (simp add: statement_ok_def)
qed


interpretation binding_jwt: session_acceptor MarkUsed_ptr "\<lambda>t m. m\<lparr>mc_now := t\<rparr>" mc_now "\<lambda>m k e. mc_seen m k = Some e"
  "\<lambda>(grantToken, bindingToken, opts). VerifySessionIdentityJWT sha256 parse clock grantToken bindingToken
     (opts\<lparr>so_ReplayCache := Some MarkUsed_ptr\<rparr>)" for sha256 parse clock
  by unfold_locales (auto simp: VerifySessionIdentityJWT_Inr)

text \<open>
  C30: the runtime client accepts a session once. After a grant and a binding have been accepted with the
  in-process cache, no pair of tokens, under whatever options, is accepted for a statement with the same grant
  hash, audience, exporter, request context and nonce, whatever calls and clock changes lie between, while no
  reading of the clock is past the expiry of the accepted binding.
\<close>

theorem session_identity_accepted_once:
  assumes "VerifySessionIdentityJWT sha256 parse clock grantToken bindingToken
      (opts\<lparr>so_ReplayCache := Some MarkUsed_ptr\<rparr>) m = (Inr s, m')"
    and "readings_live (ExpiresAt (VS_Binding (si_Statement s))) evs"
    and "session_tuple (si_Statement s') = session_tuple (si_Statement s)"
  shows "VerifySessionIdentityJWT sha256 parse clock grantToken' bindingToken'
      (opts'\<lparr>so_ReplayCache := Some MarkUsed_ptr\<rparr>) (fold (cache_step MarkUsed_ptr (\<lambda>t m. m\<lparr>mc_now := t\<rparr>)) evs m') \<noteq> (Inr s', m'')"
  using binding_jwt.session_not_accepted_again [where r = "(grantToken, bindingToken, opts)" and r' = "(grantToken', bindingToken', opts')"]
    assms by fastforce


section \<open>Sample tokens\<close>

text \<open>
  Two tokens: the manager's key \<open>MK\<close> signs the grant \<open>G\<close>, the agent's key \<open>CK\<close> the binding \<open>B\<close>. The hash is the identity, which does not collide.
\<close>

definition demo_grant_claims :: bindingJWTClaims where
  "demo_grant_claims = \<lparr>rc_Issuer = ''manager'', rc_Subject = ''agent'', rc_Audience = [''aud''], rc_ExpiresAt = Some 20,
     rc_IssuedAt = Some 2, rc_ID = ''g1'', bc_ProfileType = TokenTypeIdentityGrant, bc_ProfileVersion = ''1'',
     bc_LegacyType = [], bc_LegacyVersion = [], bc_ConfirmationKeyID = ''ck'', bc_EndpointKeyIDs = [], bc_GrantHash = [],
     bc_LeafKeySHA256 = [], bc_TLSExporter = [], bc_RequestContext = [], bc_AttestationBind = [], bc_Nonce = [],
     bc_Values = no_values\<lparr>Service := ''svc''\<rparr>, bc_Scope = [], bc_Resource = []\<rparr>"

definition demo_hash :: string where
  "demo_hash = IdentityGrantHash (\<lambda>b. b) ''G''"

definition demo_binding_claims :: bindingJWTClaims where
  "demo_binding_claims = demo_grant_claims\<lparr>rc_Issuer := ''agent'', rc_ExpiresAt := Some 10, rc_IssuedAt := Some 3, rc_ID := ''b1'',
     bc_ProfileType := TokenTypeSessionBinding, bc_ConfirmationKeyID := [], bc_GrantHash := demo_hash,
     bc_LeafKeySHA256 := ''leaf'', bc_TLSExporter := ''exporter'', bc_RequestContext := ''context'',
     bc_AttestationBind := ''binder'', bc_Nonce := ''n1''\<rparr>"

definition demo_token :: "string \<Rightarrow> (string \<times> string \<times> bindingJWTClaims) option" where
  "demo_token token = (if token = ''G'' then Some (''mk'', ''MK'', demo_grant_claims)
     else if token = ''B'' then Some (''ck'', ''CK'', demo_binding_claims) else None)"

definition demo_verifier :: "string \<Rightarrow> string \<Rightarrow> string \<Rightarrow> string JWTVerifyOptions" where
  "demo_verifier issuer kid key = \<lparr>jo_ExpectedIssuer = issuer, jo_ExpectedAudience = ''aud'', jo_ValidMethods = [''ES256''],
     jo_KeyFunc = None, jo_LocalKeys = [\<lparr>lk_KeyID = kid, lk_Key = Some key, lk_Disabled = False\<rparr>],
     jo_DisabledKeyIDs = [], jo_RevokedJWTIDs = [], jo_Now = 0\<rparr>"

definition demo_opts :: "(string, MemoryReplayCache) SessionIdentityJWTOptions" where
  "demo_opts = \<lparr>so_Grant = demo_verifier ''manager'' ''mk'' ''MK'', so_SessionBinding = demo_verifier ''agent'' ''ck'' ''CK'',
     so_Policy = sample_policy, so_ExpectedBinding = sample_binding, so_ReplayCache = Some MarkUsed_ptr, so_Now = 5\<rparr>"

definition demo_grant :: VerifiedGrant where
  "demo_grant = sample_grant\<lparr>VG_IssuerKey := ''mk'', VG_GrantHash := demo_hash, VG_Values := no_values\<lparr>Service := ''svc'', Agent := ''agent''\<rparr>\<rparr>"

definition demo_statement :: VerifiedSessionBindingStatement where
  "demo_statement = sample_statement\<lparr>VS_GrantHash := demo_hash\<rparr>"

lemma demo_hash_plain: "plain demo_hash"
  by (simp add: demo_hash_def IdentityGrantHash_def domain_hash_def identityGrantJWTHashSeed_def EncodeToString_def
      hex_byte_def hex_digit_def plain_def MaxValueLength_def)

lemmas demo_simps = demo_strings demo_method demo_token_def table_parse_def parseBindingJWT_def jwtParserOptions_def
  verificationKeyFunc_def set_of_def listed_def binding_key_callback_def tokenKeyID_def demo_verifier_def claimTime_def
  requireProfile_def profileValueMatches_def legacyProfileValueMatches_def profileVersionMatches_def

lemma demo_parsed:
  "parseBindingJWT (table_parse demo_token) ''G'' ((demo_verifier ''manager'' ''mk'' ''MK'')\<lparr>jo_Now := 5\<rparr>) = Inr (demo_grant_claims, ''mk'')"
  "parseBindingJWT (table_parse demo_token) ''B'' ((demo_verifier ''agent'' ''ck'' ''CK'')\<lparr>jo_Now := 5\<rparr>) = Inr (demo_binding_claims, ''ck'')"
  by (simp_all add: demo_simps demo_grant_claims_def demo_binding_claims_def rejectDuplicateJWTMembers_def)

lemma demo_verified:
  "VerifyIdentityGrantJWT (\<lambda>b. b) (table_parse demo_token) ''G'' ((demo_verifier ''manager'' ''mk'' ''MK'')\<lparr>jo_Now := 5\<rparr>) = Inr demo_grant"
  "VerifySessionBindingJWT (table_parse demo_token) ''B'' ((demo_verifier ''agent'' ''ck'' ''CK'')\<lparr>jo_Now := 5\<rparr>) = Inr demo_statement"
proof -
  show "VerifyIdentityGrantJWT (\<lambda>b. b) (table_parse demo_token) ''G'' ((demo_verifier ''manager'' ''mk'' ''MK'')\<lparr>jo_Now := 5\<rparr>) = Inr demo_grant"
    unfolding VerifyIdentityGrantJWT_def demo_parsed demo_grant_def demo_hash_def
    by (simp add: demo_simps demo_grant_claims_def withSpaceSeparatedValues_def sample_grant_def no_values_def)
  show "VerifySessionBindingJWT (table_parse demo_token) ''B'' ((demo_verifier ''agent'' ''ck'' ''CK'')\<lparr>jo_Now := 5\<rparr>) = Inr demo_statement"
    unfolding VerifySessionBindingJWT_def demo_parsed demo_statement_def
    by (simp add: demo_simps demo_grant_claims_def demo_binding_claims_def requireSessionBindingFields_def
        plain_TrimSpace [OF demo_hash_plain] sample_statement_def sample_binding_def demo_hash_plain [unfolded plain_def])
qed

lemma demo_statement_ok: "statement_ok demo_grant demo_statement 5"
proof -
  have "present ''agent''" by (rule plain_present) (simp add: plain_def MaxValueLength_def)
  then have "safe_value ''svc''" "safe_value ''agent''" using sample_present(11) by (simp_all add: present_def)
  then show ?thesis
    using sample_present plain_present [OF demo_hash_plain]
    by (simp add: demo_grant_def demo_statement_def statement_ok_def sample_simps binding_keys_def grant_values_ok_def
        grantFields_def field_value_def lifetime_ok_def statement_binding_ok_def MaxSetValues_def)
qed

lemma demo_policy: "binding_ok sample_binding sample_binding 5" "policy_ok sample_policy (VG_Values demo_grant)"
proof -
  have "\<not> isEmpty ''svc''" "safe_value ''svc''" using sample_present(11) by (simp_all add: present_def)
  then show "policy_ok sample_policy (VG_Values demo_grant)"
    by (simp add: policy_ok_def sample_policy_def demo_grant_def no_values_def Requirements_Enabled_def layer_ok_def fieldsL3_def field_value_def)
  show "binding_ok sample_binding sample_binding 5"
    using sample_present by (auto simp: binding_ok_def bindingFields_def sample_binding_def present_def safe_value_def)
qed

definition demo_identity :: session_identity where
  "demo_identity = \<lparr>si_Grant = demo_grant, si_Statement = demo_statement, si_Assertion =
     \<lparr>A_Issuer = VG_Issuer demo_grant, A_Values = VG_Values demo_grant, A_Binding = VS_Binding demo_statement\<rparr>\<rparr>"

definition demo_cache :: MemoryReplayCache where
  "demo_cache = \<lparr>mc_now = 5, mc_seen = [replayKey demo_statement \<mapsto> 10]\<rparr>"

lemma demo_accepted:
  "VerifySessionIdentityJWT (\<lambda>b. b) (table_parse demo_token) 5 ''G'' ''B'' demo_opts (NewMemoryReplayCacheWithClock 5) = (Inr demo_identity, demo_cache)"
proof -
  have "ValidateSessionBindingStatementWithOptions demo_grant demo_statement 5 (Some MarkUsed_ptr) (NewMemoryReplayCacheWithClock 5)
      = (None, demo_cache)"
    using memory_accepts_valid [OF demo_statement_ok, of "NewMemoryReplayCacheWithClock 5"]
    by (simp add: demo_cache_def NewMemoryReplayCacheWithClock_def live_at_def prune_def demo_statement_def sample_statement_def sample_binding_def)
  from mem.binding_accept [OF this] have m: "MarkUsed_ptr (replayKey demo_statement) (ExpiresAt (VS_Binding demo_statement))
      (NewMemoryReplayCacheWithClock 5) = (None, demo_cache)" by blast
  have b: "VS_Binding demo_statement = sample_binding" by (simp add: demo_statement_def sample_statement_def)
  have "ValidateAssertion sample_policy (si_Assertion demo_identity) sample_binding 5 = None"
    using demo_policy by (simp add: ValidateAssertion_def policy_iff demo_identity_def b)
  then show ?thesis
    using demo_verified demo_statement_ok m
    by (simp add: VerifySessionIdentityJWT_Inr demo_opts_def accept_time_def demo_identity_def Policy_Enabled_def sample_policy_def)
qed

theorem accepted_session_identity_witness:
  "authenticated (table_verifies demo_token) (demo_verifier ''manager'' ''mk'' ''MK'') ''mk'' ''G''
   \<and> authenticated (table_verifies demo_token) (demo_verifier ''agent'' ''ck'' ''CK'') ''ck'' ''B'' \<and> ''ck'' \<in> binding_keys demo_grant - {''mk''}"
  using accepted_session_identity [OF table_contract _ demo_accepted]
  by (simp add: demo_opts_def demo_identity_def demo_grant_def demo_statement_def sample_statement_def)


theorem session_identity_accepted_once_witness:
  "\<forall>m. VerifySessionIdentityJWT (\<lambda>b. b) (table_parse demo_token) 5 ''G'' ''B'' demo_opts demo_cache \<noteq> (Inr demo_identity, m)"
proof
  fix m
  have o: "demo_opts\<lparr>so_ReplayCache := Some MarkUsed_ptr\<rparr> = demo_opts" by (simp add: demo_opts_def)
  show "VerifySessionIdentityJWT (\<lambda>b. b) (table_parse demo_token) 5 ''G'' ''B'' demo_opts demo_cache \<noteq> (Inr demo_identity, m)"
    using session_identity_accepted_once [of "\<lambda>b. b" "table_parse demo_token" 5 "''G''" "''B''" demo_opts _ demo_identity demo_cache "[]"
        demo_identity "''G''" "''B''" demo_opts m] demo_accepted by (simp add: o)
qed

end
