(* ===== verification/AGTP_Members.thy ===== *)
theory AGTP_Members
  imports JSON_Grammar
begin

text \<open>
  The duplicate-member check of the AGTP adapter, \<open>rejectDuplicateJWTJSONMembers\<close>, \<open>rejectDuplicateJSONMembers\<close> and
  \<open>rejectDuplicateJSONValue\<close> of \<open>pkg/agtp/jwt.go\<close>: a second implementation of the check of \<open>pkg/clients\<close>, which
  returns at once on a delimiter that opens nothing. The errors of both have the same shape, \<open>member_error\<close>. The two
  are shown to give the same verdict on every input.
\<close>

function rejectDuplicateJSONValue :: "decoder \<Rightarrow> member_error option \<times> decoder"
  and object_loop :: "string set \<Rightarrow> decoder \<Rightarrow> member_error option \<times> decoder"
  and array_loop :: "decoder \<Rightarrow> member_error option \<times> decoder" where
  "rejectDuplicateJSONValue d0 =
     (case Token d0 of
        (Inl e, d) \<Rightarrow> (Some (JSONError e), d)
      | (Inr t, d) \<Rightarrow>
          (case t of
             Delim c \<Rightarrow>
               if c \<noteq> CHR ''{'' \<and> c \<noteq> CHR ''['' then (None, d)
               else (case (if c = CHR ''{'' then object_loop {} d else array_loop d) of
                  (Some e, d) \<Rightarrow> (Some e, d)
                | (None, d) \<Rightarrow>
                    (case Token d of
                       (Inl e, d) \<Rightarrow> (Some (JSONError e), d)
                     | (Inr _, d) \<Rightarrow> (None, d)))
           | _ \<Rightarrow> (None, d)))"
| "object_loop seen d0 =
     (case More d0 of
        (False, d) \<Rightarrow> (None, d)
      | (True, d) \<Rightarrow>
          (case Token d of
             (Inl e, d) \<Rightarrow> (Some (JSONError e), d)
           | (Inr t, d) \<Rightarrow>
               (case t of
                  StringToken name \<Rightarrow>
                    if name \<in> seen then (Some ErrDuplicateJWTMember, d)
                    else (case rejectDuplicateJSONValue d of
                            (Some e, d) \<Rightarrow> (Some e, d)
                          | (None, d) \<Rightarrow> object_loop (insert name seen) d)
                | _ \<Rightarrow> (Some NonStringKey, d))))"
| "array_loop d0 =
     (case More d0 of
        (False, d) \<Rightarrow> (None, d)
      | (True, d) \<Rightarrow>
          (case rejectDuplicateJSONValue d of
             (Some e, d) \<Rightarrow> (Some e, d)
           | (None, d) \<Rightarrow> array_loop d))"
  by pat_completeness auto


termination
proof -
  have shrinks:
    "rejectDuplicateJSONValue_object_loop_array_loop_dom (Inl d) \<Longrightarrow>
       rejectDuplicateJSONValue d = (None, d') \<Longrightarrow> length (dec_in d') < length (dec_in d)"
    "rejectDuplicateJSONValue_object_loop_array_loop_dom (Inr (Inl (seen, d))) \<Longrightarrow>
       object_loop seen d = (None, d') \<Longrightarrow> length (dec_in d') \<le> length (dec_in d)"
    "rejectDuplicateJSONValue_object_loop_array_loop_dom (Inr (Inr d)) \<Longrightarrow>
       array_loop d = (None, d') \<Longrightarrow> length (dec_in d') \<le> length (dec_in d)"
    for d d' seen
  proof (induction d and seen d and d arbitrary: d' and d' and d'
      rule: rejectDuplicateJSONValue_object_loop_array_loop.pinduct)
    case (1 d0)
    note psimp = rejectDuplicateJSONValue.psimps [OF "1.hyps"]
    obtain t d1 where t: "Token d0 = (Inr t, d1)" "length (dec_in d1) < length (dec_in d0)"
      using "1.prems" Token_progress psimp by (cases "Token d0"; cases "fst (Token d0)") auto
    show ?case
    proof (cases t)
      case (Delim c)
      show ?thesis
      proof (cases "c \<noteq> CHR ''{'' \<and> c \<noteq> CHR ''[''")
        case True
        then show ?thesis using "1.prems" psimp t Delim by simp
      next
        case opens: False
        define loop where "loop = (if c = CHR ''{'' then object_loop {} d1 else array_loop d1)"
        obtain d2 t2 where l: "loop = (None, d2)" "Token d2 = (Inr t2, d')"
          using "1.prems" opens unfolding psimp t(1) Delim prod.case sum.case json_token.case loop_def [symmetric]
          by (auto split: prod.splits option.splits sum.splits)
        have "length (dec_in d2) \<le> length (dec_in d1)"
          using l(1) "1.IH" [OF t(1) [symmetric] refl Delim] opens by (auto simp: loop_def split: if_splits)
        then show ?thesis using t Token_progress [OF l(2)] by simp
      qed
    qed (use "1.prems" psimp t in auto)
  next
    case (2 seen d0)
    note psimp = object_loop.psimps [OF "2.hyps"]
    obtain b d1 where m: "More d0 = (b, d1)" by (cases "More d0")
    note len = More_length [OF m]
    show ?case
    proof (cases b)
      case True
      then have T: "b = True" by simp
      obtain name d2 d3 where n: "Token d1 = (Inr (StringToken name), d2)" "name \<notin> seen"
        "rejectDuplicateJSONValue d2 = (None, d3)" "object_loop (insert name seen) d3 = (None, d')"
        using "2.prems" True unfolding psimp m by (auto split: prod.splits sum.splits json_token.splits if_splits option.splits)
      have "length (dec_in d3) < length (dec_in d2)"
        using "2.IH"(1) [OF m [symmetric] T n(1) [symmetric] refl refl n(2) n(3)] .
      moreover have "length (dec_in d') \<le> length (dec_in d3)"
        using "2.IH"(2) [OF m [symmetric] T n(1) [symmetric] refl refl n(2) n(3) [symmetric] refl n(4)] .
      ultimately show ?thesis using len Token_progress [OF n(1)] by simp
    qed (use "2.prems" psimp m len in auto)
  next
    case (3 d0)
    note psimp = array_loop.psimps [OF "3.hyps"]
    obtain b d1 where m: "More d0 = (b, d1)" by (cases "More d0")
    note len = More_length [OF m]
    show ?case
    proof (cases b)
      case True
      then have T: "b = True" by simp
      obtain d2 where n: "rejectDuplicateJSONValue d1 = (None, d2)" "array_loop d2 = (None, d')"
        using "3.prems" True unfolding psimp m by (auto split: prod.splits option.splits)
      have "length (dec_in d2) < length (dec_in d1)" using "3.IH"(1) [OF m [symmetric] T n(1)] .
      moreover have "length (dec_in d') \<le> length (dec_in d2)"
        using "3.IH"(2) [OF m [symmetric] T n(1) [symmetric] refl n(2)] .
      ultimately show ?thesis using len by simp
    qed (use "3.prems" psimp m len in auto)
  qed
  show ?thesis
  proof (relation "measure (\<lambda>x. case x of Inl d \<Rightarrow> 2 * length (dec_in d)
      | Inr (Inl (_, d)) \<Rightarrow> 2 * length (dec_in d) + 1 | Inr (Inr d) \<Rightarrow> 2 * length (dec_in d) + 1)")
  qed (auto dest!: Token_progress [OF sym] More_length [OF sym] shrinks(1) [OF _ sym])
qed

declare rejectDuplicateJSONValue.simps [simp del] object_loop.simps [simp del] array_loop.simps [simp del]

definition agtp_rejectDuplicateJSONMembers :: "string \<Rightarrow> member_error option" where
  "agtp_rejectDuplicateJSONMembers data =
     (case rejectDuplicateJSONValue (NewDecoder data) of
        (Some e, d) \<Rightarrow> Some e
      | (None, d) \<Rightarrow>
          (case Token d of
             (Inr t, _) \<Rightarrow> Some TrailingData
           | (Inl e, _) \<Rightarrow> if e = EOF then None else Some (JSONError e)))"

fun json_parts :: "string list \<Rightarrow> member_error option" where
  "json_parts [] = None"
| "json_parts (part # parts) =
     (case RawURLEncoding_DecodeString part of
        None \<Rightarrow> None
      | Some data \<Rightarrow>
          (case agtp_rejectDuplicateJSONMembers data of
             Some e \<Rightarrow> Some e
           | None \<Rightarrow> json_parts parts))"

definition rejectDuplicateJWTJSONMembers :: "string \<Rightarrow> member_error option" where
  "rejectDuplicateJWTJSONMembers tokenString =
     (let parts = Split tokenString (CHR ''.'') in
      if length parts \<noteq> 3 then None else json_parts (take 2 parts))"


section \<open>The two checks agree\<close>

text \<open>Where a value is due, a delimiter opens one.\<close>

lemma due_delimiter:
  assumes "Token d = (Inr (Delim c), d1)" "value_state (dec_state d)" "due d"
  shows "c = CHR ''['' \<and> dec_state d1 = TokenArrayStart \<or> c = CHR ''{'' \<and> dec_state d1 = TokenObjectStart"
proof -
  obtain l e s where "token_at e (d\<lparr>dec_in := e # s, dec_state := after_separator (dec_state d)\<rparr>) = (Inr (Delim c), d1)"
    using Token_item [OF assms(1) value_between [OF assms(2)] assms(3) [unfolded due_def]] by blast
  then show ?thesis
    by (rule token_at_cases [where s = s]) (auto dest: scalar_text_again(4))
qed

lemma values_agree:
  "value_state (dec_state d) \<Longrightarrow> due d \<Longrightarrow> rejectDuplicateJSONValue d = rejectDuplicateJSONObjectMembers d"
  "dec_state d \<in> {TokenObjectStart, TokenObjectComma} \<Longrightarrow> object_loop seen d = members_loop seen d"
  "dec_state d \<in> {TokenArrayStart, TokenArrayComma} \<Longrightarrow> array_loop d = elements_loop d"
proof (induction d and seen d and d rule: rejectDuplicateJSONObjectMembers_members_loop_elements_loop.induct)
  case (1 d0)
  obtain r d1 where t: "Token d0 = (r, d1)" by (cases "Token d0")
  show ?case
  proof (cases "\<exists>c. r = Inr (Delim c)")
    case True
    then obtain c where c: "r = Inr (Delim c)" by blast
    have "c = CHR ''['' \<and> dec_state d1 = TokenArrayStart \<or> c = CHR ''{'' \<and> dec_state d1 = TokenObjectStart"
      using due_delimiter t c "1.prems" by simp
    then show ?thesis
    proof (elim disjE conjE)
      assume a: "c = CHR ''[''" "dec_state d1 = TokenArrayStart"
      then have "array_loop d1 = elements_loop d1" using "1.IH"(2) [OF t [symmetric] c refl] by simp
      then show ?thesis
        by (simp add: rejectDuplicateJSONValue.simps [of d0] rejectDuplicateJSONObjectMembers.simps [of d0] t c a)
    next
      assume a: "c = CHR ''{''" "dec_state d1 = TokenObjectStart"
      then have "object_loop {} d1 = members_loop {} d1" using "1.IH"(1) [OF t [symmetric] c refl] by simp
      then show ?thesis
        by (simp add: rejectDuplicateJSONValue.simps [of d0] rejectDuplicateJSONObjectMembers.simps [of d0] t c a)
    qed
  next
    case False
    then show ?thesis
      by (auto simp: rejectDuplicateJSONValue.simps [of d0] rejectDuplicateJSONObjectMembers.simps [of d0] t
          split: sum.splits json_token.splits)
  qed
next
  case (2 seen d0)
  obtain b d1 where m: "More d0 = (b, d1)" by (cases "More d0")
  obtain r d2 where t: "Token d1 = (r, d2)" by (cases "Token d1")
  show ?case
  proof (cases "b \<and> (\<exists>name. r = Inr (StringToken name) \<and> name \<notin> seen)")
    case True
    then obtain name where n: "b = True" "r = Inr (StringToken name)" "name \<notin> seen" by auto
    obtain e d3 where v: "rejectDuplicateJSONObjectMembers d2 = (e, d3)" by (cases "rejectDuplicateJSONObjectMembers d2")
    have d1: "dec_state d1 = dec_state d0" "due d1" using More_due [of d0 d1] m n(1) by auto
    have "between (dec_state d1)" using "2.prems" d1(1) by (auto simp: between_def)
    then obtain k s where "token_at k (d1\<lparr>dec_in := k # s, dec_state := after_separator (dec_state d0)\<rparr>) = (Inr (StringToken name), d2)"
      using Token_item [of d1 "StringToken name" d2] t n(2) d1 unfolding due_def by metis
    then have d2: "dec_state d2 = TokenObjectColon"
      by (rule token_at_cases [where s = s])
        (use "2.prems" in \<open>auto simp: tokenValueAllowed_def dest: arg_cong [where f = dec_state]\<close>)
    have eq: "rejectDuplicateJSONValue d2 = (e, d3)"
      using "2.IH"(1) [OF m [symmetric] n(1) t [symmetric] n(2) refl n(3)] d2 v by (simp add: due_def)
    show ?thesis
    proof (cases e)
      case None
      have "value_read d2 d3" using check_reads(1) [of d2 d3] v None d2 by (simp add: due_def)
      then have "dec_state d3 = TokenObjectComma" using d2 by (simp add: value_read_def after_value_def)
      then have "object_loop (insert name seen) d3 = members_loop (insert name seen) d3"
        using "2.IH"(2) [OF m [symmetric] n(1) t [symmetric] n(2) refl n(3) v [symmetric] None] by simp
      then show ?thesis using n None eq v by (simp add: object_loop.simps [of seen d0] members_loop.simps [of seen d0] m t)
    next
      case (Some x)
      then show ?thesis using n eq v by (simp add: object_loop.simps [of seen d0] members_loop.simps [of seen d0] m t)
    qed
  next
    case False
    then show ?thesis
      by (auto simp: object_loop.simps [of seen d0] members_loop.simps [of seen d0] m t
          split: bool.splits sum.splits json_token.splits)
  qed
next
  case (3 d0)
  obtain b d1 where m: "More d0 = (b, d1)" by (cases "More d0")
  show ?case
  proof (cases b)
    case True
    then have T: "b = True" by simp
    obtain e d2 where v: "rejectDuplicateJSONObjectMembers d1 = (e, d2)" by (cases "rejectDuplicateJSONObjectMembers d1")
    have d1: "dec_state d1 = dec_state d0" "due d1" using More_due [of d0 d1] m True by auto
    then have vs: "value_state (dec_state d1)" using "3.prems" by auto
    have eq: "rejectDuplicateJSONValue d1 = (e, d2)" using "3.IH"(1) [OF m [symmetric] T] d1(2) vs v by simp
    show ?thesis
    proof (cases e)
      case None
      have "value_read d1 d2" using check_reads(1) [of d1 d2] v None vs d1(2) by simp
      then have "dec_state d2 = TokenArrayComma" using "3.prems" d1(1) by (auto simp: value_read_def after_value_def)
      then have "array_loop d2 = elements_loop d2" using "3.IH"(2) [OF m [symmetric] T v [symmetric] None] by simp
      then show ?thesis using T None eq v by (simp add: array_loop.simps [of d0] elements_loop.simps [of d0] m)
    next
      case (Some x)
      then show ?thesis using T eq v by (simp add: array_loop.simps [of d0] elements_loop.simps [of d0] m)
    qed
  next
    case False
    then show ?thesis by (simp add: array_loop.simps [of d0] elements_loop.simps [of d0] m)
  qed
qed

text \<open>
  C31: the reference adapter and the runtime client reject the same tokens as having duplicate members, with the
  same kind of error.
\<close>

theorem duplicate_checks_agree: "rejectDuplicateJWTJSONMembers token = rejectDuplicateJWTMembers token"
proof -
  have "rejectDuplicateJSONValue (NewDecoder s) = rejectDuplicateJSONObjectMembers (NewDecoder s)" for s
    by (rule values_agree(1)) (simp_all add: NewDecoder_def due_def)
  then have "agtp_rejectDuplicateJSONMembers s = rejectDuplicateJSONMembers s" for s
    by (simp add: agtp_rejectDuplicateJSONMembers_def rejectDuplicateJSONMembers_def)
  then have "json_parts ps = reject_parts ps" for ps by (induction ps) (simp_all split: option.splits)
  then show ?thesis by (simp add: rejectDuplicateJWTJSONMembers_def rejectDuplicateJWTMembers_def Let_def)
qed

end
