(* ===== verification/AGTP_JWT.thy ===== *)
theory AGTP_JWT
  imports AGTP_Members Token_Base
begin

text \<open>
  The AGTP reference adapter for JWTs, \<open>pkg/agtp/jwt.go\<close>: the same two tokens as the runtime client's in a second
  implementation, and the single-envelope profile, in which the agent's token carries the manager's grant. Where
  the code dereferences the expiry of a token, a missing one is the value \<open>NilPointer\<close>.
\<close>


section \<open>Options, keys and claims\<close>

datatype agtp_error = ErrMissingKeyFunc | ErrMissingLocalKey | ErrMissingValidMethods | ErrMissingExpectedIssuer
  | ErrMissingExpectedAudience | ErrMissingConfirmationKey | ErrMissingKeyID | ErrUnknownKeyID | ErrDisabledKeyID
  | ErrDuplicateKeyID | ErrAmbiguousKeySource | ErrMissingJWTID | ErrRevokedJWTID | ErrMissingSubject
  | ErrMissingIdentityGrant | ErrMissingGrantHash | ErrMissingBindingField | ErrMissingIdentityPolicy
  | ErrMissingReplayCache | ErrInvalidTokenType | ErrUnsupportedVersion | ErrUnsafeSigningMethod
  | MemberError member_error \<comment> \<open>\<open>ErrDuplicateJWTMember\<close> and the JSON errors\<close>
  | KeySourceError string \<comment> \<open>an error of the caller's key function\<close>
  | VerifyError string \<comment> \<open>\<open>agtp: verify JWT\<close>\<close>
  | InvalidToken
  | PolicyError go_error \<comment> \<open>an error of the identity policy\<close>
  | NilPointer

abbreviation (input) agtp_TokenTypeIdentityGrant :: string where "agtp_TokenTypeIdentityGrant \<equiv> ''sbaip.identity-grant''"
abbreviation (input) agtp_TokenTypeSessionBinding :: string where "agtp_TokenTypeSessionBinding \<equiv> ''sbaip.session-binding''"
abbreviation (input) TokenTypeSessionEnvelope :: string where "TokenTypeSessionEnvelope \<equiv> ''sbaip.session-envelope''"

definition agtpGrantHashSeed :: string where
  "agtpGrantHashSeed = ''sbaip.identity-grant.jwt.v1'' @ [CHR 0x00]"

record 'k agtp_LocalKey =
  ak_KeyID :: string
  ak_Key :: "'k option" \<comment> \<open>\<open>None\<close> is the nil key\<close>
  ak_Disabled :: bool

record 'k agtp_VerifyOptions =
  ao_ExpectedIssuer :: string
  ao_ExpectedAudience :: string
  ao_ValidMethods :: "string list"
  ao_KeyFunc :: "(string \<Rightarrow> string + 'k) option"
  ao_LocalKeys :: "'k agtp_LocalKey list"
  ao_DisabledKeyIDs :: "string list"
  ao_RevokedJWTIDs :: "string list"
  ao_Now :: go_time

text \<open>\<open>SessionIdentityJWTOptions\<close> and \<open>SessionIdentityCWTOptions\<close> differ in the type \<open>'o\<close> of the verification options.\<close>

record ('o, 'c) agtp_SessionOptions =
  as_Grant :: 'o
  as_SessionBinding :: 'o
  as_Policy :: Policy
  as_ExpectedBinding :: Binding
  as_ReplayCache :: "'c replay_cache"
  as_Now :: go_time

record profileClaims =
  pc_TokenType :: string
  pc_ProfileVersion :: string
  pc_LegacyTokenType :: string
  pc_LegacyProfileVersion :: string

record session_fields =
  sb_GrantHash :: string
  sb_LeafPublicKeySHA256 :: string
  sb_TLSExporterSHA256 :: string
  sb_RequestContextSHA256 :: string
  sb_AttestationBinderSHA256 :: string
  sb_Nonce :: string

text \<open>
  The claims of the three token types. Of the grant the values of the identity policy are grouped in one
  field, of binding and envelope the session fields.
\<close>

record identityGrantClaims = RegisteredClaims +
  ig_Profile :: profileClaims
  ig_ConfirmationKeyID :: string
  ig_AuthorizedEndpointKeys :: "string list"
  ig_Values :: Values
  ig_Scope :: string
  ig_Resource :: string

record sessionBindingClaims = RegisteredClaims +
  bt_Profile :: profileClaims
  bt_Session :: session_fields

record sessionEnvelopeClaims = RegisteredClaims +
  se_Profile :: profileClaims
  se_IdentityGrantJWT :: string
  se_Session :: session_fields

definition stringSet :: "string list \<Rightarrow> string set" where
  "stringSet values = fold (\<lambda>value out. if TrimSpace value \<noteq> [] then insert (TrimSpace value) out else out) values {}"

definition isListed :: "string \<Rightarrow> string list \<Rightarrow> bool" where
  "isListed value values \<longleftrightarrow> TrimSpace value \<in> stringSet values"

definition parserOptions :: "'k agtp_VerifyOptions \<Rightarrow> agtp_error + ParserOptions" where
  "parserOptions opts =
     (if ao_KeyFunc opts = None \<and> length (ao_LocalKeys opts) = 0 then Inl ErrMissingKeyFunc
      else if ao_KeyFunc opts \<noteq> None \<and> length (ao_LocalKeys opts) > 0 then Inl ErrAmbiguousKeySource
      else if length (ao_ValidMethods opts) = 0 then Inl ErrMissingValidMethods
      else if list_ex (\<lambda>m. TrimSpace m = [] \<or> EqualFold m ''none'') (ao_ValidMethods opts)
      then Inl ErrUnsafeSigningMethod
      else if TrimSpace (ao_ExpectedIssuer opts) = [] then Inl ErrMissingExpectedIssuer
      else if TrimSpace (ao_ExpectedAudience opts) = [] then Inl ErrMissingExpectedAudience
      else Inr \<lparr>po_ValidMethods = ao_ValidMethods opts, po_Issuer = ao_ExpectedIssuer opts,
        po_Audience = ao_ExpectedAudience opts, po_ExpirationRequired = True, po_IssuedAt = True,
        po_TimeFunc = (if ao_Now opts \<noteq> 0 then Some (ao_Now opts) else None)\<rparr>)"

fun gather_keys :: "'k agtp_LocalKey list \<Rightarrow> (string \<rightharpoonup> 'k) \<Rightarrow> string set \<Rightarrow> agtp_error + (string \<rightharpoonup> 'k) \<times> string set" where
  "gather_keys [] keys disabled = Inr (keys, disabled)"
| "gather_keys (localKey # ks) keys disabled =
     (let keyID = TrimSpace (ak_KeyID localKey) in
      if keyID = [] then Inl ErrMissingKeyID
      else if keys keyID \<noteq> None then Inl ErrDuplicateKeyID
      else let disabled = (if ak_Disabled localKey then insert keyID disabled else disabled) in
        case ak_Key localKey of
          None \<Rightarrow> Inl ErrMissingLocalKey
        | Some key \<Rightarrow> gather_keys ks (keys(keyID \<mapsto> key)) disabled)"

definition keyFuncForOptions :: "'k agtp_VerifyOptions \<Rightarrow> agtp_error + (string \<Rightarrow> agtp_error + 'k)" where
  "keyFuncForOptions opts =
     (case ao_KeyFunc opts of
        Some keyFunc \<Rightarrow>
          Inr (\<lambda>keyID. if TrimSpace keyID \<in> stringSet (ao_DisabledKeyIDs opts) then Inl ErrDisabledKeyID
            else case keyFunc keyID of Inl e \<Rightarrow> Inl (KeySourceError e) | Inr key \<Rightarrow> Inr key)
      | None \<Rightarrow>
          (case gather_keys (ao_LocalKeys opts) Map.empty (stringSet (ao_DisabledKeyIDs opts)) of
             Inl e \<Rightarrow> Inl e
           | Inr (keys, disabled) \<Rightarrow>
               Inr (\<lambda>keyID. let keyID = TrimSpace keyID in
                 if keyID \<in> disabled then Inl ErrDisabledKeyID
                 else case keys keyID of None \<Rightarrow> Inl ErrUnknownKeyID | Some key \<Rightarrow> Inr key)))"

definition agtp_ValidateJWTVerifyOptions :: "'k agtp_VerifyOptions \<Rightarrow> agtp_error option" where
  "agtp_ValidateJWTVerifyOptions opts =
     (case parserOptions opts of
        Inl e \<Rightarrow> Some e
      | Inr _ \<Rightarrow> (case keyFuncForOptions opts of Inl e \<Rightarrow> Some e | Inr _ \<Rightarrow> None))"

text \<open>Unlike the runtime client's, the key id is returned as it stands, not trimmed.\<close>

definition keyIDFromToken :: "jwt_header \<Rightarrow> agtp_error + string" where
  "keyIDFromToken header =
     (case header ''kid'' of
        Some (HeaderString keyID) \<Rightarrow> if TrimSpace keyID = [] then Inl ErrMissingKeyID else Inr keyID
      | _ \<Rightarrow> Inl ErrMissingKeyID)"


section \<open>Claims\<close>

definition legacyTokenType :: "string \<Rightarrow> string" where
  "legacyTokenType tokenType =
     (if tokenType = agtp_TokenTypeIdentityGrant then ''agtp.identity-grant''
      else if tokenType = agtp_TokenTypeSessionBinding then ''agtp.session-binding''
      else if tokenType = TokenTypeSessionEnvelope then ''agtp.session-envelope''
      else [])"

definition profileTypeMatches :: "string \<Rightarrow> string \<Rightarrow> bool \<Rightarrow> bool" where
  "profileTypeMatches value expectedType allowLegacyValue =
     (if value = [] then True
      else if value = expectedType then True
      else allowLegacyValue \<and> value = legacyTokenType expectedType)"

definition agtp_profileVersionMatches :: "string \<Rightarrow> bool" where
  "agtp_profileVersionMatches value \<longleftrightarrow> value = [] \<or> value = ''1''"

definition validateProfileClaims :: "profileClaims \<Rightarrow> string \<Rightarrow> agtp_error option" where
  "validateProfileClaims claims expectedType =
     (if \<not> profileTypeMatches (TrimSpace (pc_TokenType claims)) expectedType False then Some ErrInvalidTokenType
      else if \<not> agtp_profileVersionMatches (TrimSpace (pc_ProfileVersion claims)) then Some ErrUnsupportedVersion
      else if \<not> profileTypeMatches (TrimSpace (pc_LegacyTokenType claims)) expectedType True then Some ErrInvalidTokenType
      else if \<not> agtp_profileVersionMatches (TrimSpace (pc_LegacyProfileVersion claims)) then Some ErrUnsupportedVersion
      else if TrimSpace (pc_TokenType claims) = [] \<and> TrimSpace (pc_LegacyTokenType claims) = [] then Some ErrInvalidTokenType
      else if TrimSpace (pc_ProfileVersion claims) = [] \<and> TrimSpace (pc_LegacyProfileVersion claims) = []
      then Some ErrUnsupportedVersion
      else None)"

definition validateSessionBindingClaims :: "session_fields \<Rightarrow> agtp_error option" where
  "validateSessionBindingClaims claims =
     (if TrimSpace (sb_GrantHash claims) = [] then Some ErrMissingGrantHash
      else if list_ex (\<lambda>value. TrimSpace value = [])
          [sb_LeafPublicKeySHA256 claims, sb_TLSExporterSHA256 claims, sb_RequestContextSHA256 claims, sb_Nonce claims]
      then Some ErrMissingBindingField
      else None)"

definition appendScopeValues :: "string list \<Rightarrow> string \<Rightarrow> string list" where
  "appendScopeValues values spaceSeparated =
     (if TrimSpace spaceSeparated = [] then values else values @ Fields spaceSeparated)"

definition issued_at :: "go_time option \<Rightarrow> go_time" where
  "issued_at t = (case t of None \<Rightarrow> 0 | Some t \<Rightarrow> t)"


section \<open>Verification\<close>

definition agtp_IdentityGrantHash :: "(bytes \<Rightarrow> bytes) \<Rightarrow> string \<Rightarrow> string" where
  "agtp_IdentityGrantHash sha256 tokenString = domain_hash sha256 agtpGrantHashSeed tokenString"

definition agtp_key_callback :: "(string \<Rightarrow> agtp_error + 'k) \<Rightarrow> (agtp_error, 'k) key_callback" where
  "agtp_key_callback keyFunc header signerKey =
     (case keyIDFromToken header of
        Inl e \<Rightarrow> (Inl e, signerKey)
      | Inr keyID \<Rightarrow> (keyFunc keyID, keyID))"

text \<open>\<open>jwtIDFromClaims\<close> reads the \<open>jti\<close> of each of the claims types; it is the field \<open>rc_ID\<close> of all of them.\<close>

definition parseJWT ::
    "(agtp_error, 'k, 'c RegisteredClaims_scheme) parse_with_claims \<Rightarrow> string \<Rightarrow> 'k agtp_VerifyOptions
     \<Rightarrow> agtp_error + 'c RegisteredClaims_scheme \<times> string" where
  "parseJWT parse tokenString opts =
     (case parserOptions opts of
        Inl e \<Rightarrow> Inl e
      | Inr parserOpts \<Rightarrow>
          (case keyFuncForOptions opts of
             Inl e \<Rightarrow> Inl e
           | Inr keyFunc \<Rightarrow>
               (case rejectDuplicateJWTJSONMembers tokenString of
                  Some e \<Rightarrow> Inl (MemberError e)
                | None \<Rightarrow>
                    (case parse parserOpts (agtp_key_callback keyFunc) tokenString [] of
                       (Inl e, _) \<Rightarrow> Inl (VerifyError e)
                     | (Inr (claims, valid), signerKey) \<Rightarrow>
                         if \<not> valid then Inl InvalidToken
                         else if isListed (rc_ID claims) (ao_RevokedJWTIDs opts) then Inl ErrRevokedJWTID
                         else Inr (claims, signerKey)))))"

definition agtp_VerifyIdentityGrantJWT ::
    "(bytes \<Rightarrow> bytes) \<Rightarrow> (agtp_error, 'k, identityGrantClaims) parse_with_claims \<Rightarrow> string \<Rightarrow> 'k agtp_VerifyOptions
     \<Rightarrow> agtp_error + VerifiedGrant" where
  "agtp_VerifyIdentityGrantJWT sha256 parse tokenString opts =
     (case parseJWT parse tokenString opts of
        Inl e \<Rightarrow> Inl e
      | Inr (claims, signerKey) \<Rightarrow>
          (case validateProfileClaims (ig_Profile claims) agtp_TokenTypeIdentityGrant of
             Some e \<Rightarrow> Inl e
           | None \<Rightarrow>
               if TrimSpace (rc_ID claims) = [] then Inl ErrMissingJWTID
               else if TrimSpace (rc_Subject claims) = [] then Inl ErrMissingSubject
               else if TrimSpace (ig_ConfirmationKeyID claims) = [] then Inl ErrMissingConfirmationKey
               else
                 let values = (ig_Values claims)\<lparr>
                       Scopes := appendScopeValues (Scopes (ig_Values claims)) (ig_Scope claims),
                       Resources := appendScopeValues (Resources (ig_Values claims)) (ig_Resource claims)\<rparr>;
                     values = (if Agent values = [] then values\<lparr>Agent := rc_Subject claims\<rparr> else values)
                 in case rc_ExpiresAt claims of
                      None \<Rightarrow> Inl NilPointer
                    | Some expiresAt \<Rightarrow>
                        Inr \<lparr>VG_Issuer = rc_Issuer claims, VG_IssuerKey = signerKey,
                          VG_Audience = ao_ExpectedAudience opts, VG_GrantHash = agtp_IdentityGrantHash sha256 tokenString,
                          VG_Values = values, VG_ConfirmationKey = ig_ConfirmationKeyID claims,
                          VG_AuthorizedEndpointKeys = ig_AuthorizedEndpointKeys claims,
                          VG_IssuedAt = issued_at (rc_IssuedAt claims), VG_ExpiresAt = expiresAt\<rparr>))"

text \<open>The statement of a binding or an envelope, with its times.\<close>

definition statement_of ::
    "session_fields \<Rightarrow> go_time option \<Rightarrow> go_time option \<Rightarrow> string \<Rightarrow> string
     \<Rightarrow> agtp_error + VerifiedSessionBindingStatement" where
  "statement_of claims issuedAt expires signerKey audience =
     (case expires of
        None \<Rightarrow> Inl NilPointer
      | Some expiresAt \<Rightarrow>
          Inr \<lparr>VS_GrantHash = sb_GrantHash claims, VS_Audience = audience, VS_SignerKey = signerKey,
            VS_Binding = \<lparr>LeafPublicKeySHA256 = sb_LeafPublicKeySHA256 claims, TLSExporterSHA256 = sb_TLSExporterSHA256 claims,
              RequestContextSHA256 = sb_RequestContextSHA256 claims,
              AttestationBinderSHA256 = sb_AttestationBinderSHA256 claims, Nonce = sb_Nonce claims,
              IssuedAt = issued_at issuedAt, ExpiresAt = expiresAt\<rparr>\<rparr>)"

definition agtp_VerifySessionBindingJWT ::
    "(agtp_error, 'k, sessionBindingClaims) parse_with_claims \<Rightarrow> string \<Rightarrow> 'k agtp_VerifyOptions
     \<Rightarrow> agtp_error + VerifiedSessionBindingStatement" where
  "agtp_VerifySessionBindingJWT parse tokenString opts =
     (case parseJWT parse tokenString opts of
        Inl e \<Rightarrow> Inl e
      | Inr (claims, signerKey) \<Rightarrow>
          (case validateProfileClaims (bt_Profile claims) agtp_TokenTypeSessionBinding of
             Some e \<Rightarrow> Inl e
           | None \<Rightarrow>
               if TrimSpace (rc_ID claims) = [] then Inl ErrMissingJWTID
               else case validateSessionBindingClaims (bt_Session claims) of
                 Some e \<Rightarrow> Inl e
               | None \<Rightarrow>
                   statement_of (bt_Session claims) (rc_IssuedAt claims) (rc_ExpiresAt claims) signerKey
                     (ao_ExpectedAudience opts)))"

text \<open>The end both profiles share: the assertion, the local policy and the replay cache.\<close>

definition accept_session ::
    "('o, 'c) agtp_SessionOptions \<Rightarrow> go_time \<Rightarrow> VerifiedGrant \<Rightarrow> VerifiedSessionBindingStatement \<Rightarrow> 'c
     \<Rightarrow> (agtp_error + session_identity) \<times> 'c" where
  "accept_session opts now grant st c =
     (case NewAssertionFromSessionBinding grant st now of
        Inl e \<Rightarrow> (Inl (PolicyError e), c)
      | Inr assertion \<Rightarrow>
          (case ValidateAssertion (as_Policy opts) assertion (as_ExpectedBinding opts) now of
             Some e \<Rightarrow> (Inl (PolicyError e), c)
           | None \<Rightarrow>
               (case MarkSessionBindingUsed (as_ReplayCache opts) st c of
                  (Some e, c') \<Rightarrow> (Inl (PolicyError e), c')
                | (None, c') \<Rightarrow> (Inr \<lparr>si_Grant = grant, si_Statement = st, si_Assertion = assertion\<rparr>, c'))))"

definition agtp_VerifySessionIdentityJWT ::
    "(bytes \<Rightarrow> bytes) \<Rightarrow> (agtp_error, 'k, identityGrantClaims) parse_with_claims
     \<Rightarrow> (agtp_error, 'k, sessionBindingClaims) parse_with_claims \<Rightarrow> go_time \<Rightarrow> string \<Rightarrow> string
     \<Rightarrow> ('k agtp_VerifyOptions, 'c) agtp_SessionOptions \<Rightarrow> 'c \<Rightarrow> (agtp_error + session_identity) \<times> 'c" where
  "agtp_VerifySessionIdentityJWT sha256 parseG parseB clock grantToken bindingToken opts c =
     (if \<not> Policy_Enabled (as_Policy opts) then (Inl ErrMissingIdentityPolicy, c)
      else if as_ReplayCache opts = None then (Inl ErrMissingReplayCache, c)
      else
        let now = (if as_Now opts = 0 then clock else as_Now opts) in
        case agtp_VerifyIdentityGrantJWT sha256 parseG grantToken ((as_Grant opts)\<lparr>ao_Now := now\<rparr>) of
          Inl e \<Rightarrow> (Inl e, c)
        | Inr grant \<Rightarrow>
            (case agtp_VerifySessionBindingJWT parseB bindingToken ((as_SessionBinding opts)\<lparr>ao_Now := now\<rparr>) of
               Inl e \<Rightarrow> (Inl e, c)
             | Inr st \<Rightarrow> accept_session opts now grant st c))"

definition VerifySessionIdentityJWTEnvelope ::
    "(bytes \<Rightarrow> bytes) \<Rightarrow> (agtp_error, 'k, identityGrantClaims) parse_with_claims
     \<Rightarrow> (agtp_error, 'k, sessionEnvelopeClaims) parse_with_claims \<Rightarrow> go_time \<Rightarrow> string
     \<Rightarrow> ('k agtp_VerifyOptions, 'c) agtp_SessionOptions \<Rightarrow> 'c \<Rightarrow> (agtp_error + session_identity) \<times> 'c" where
  "VerifySessionIdentityJWTEnvelope sha256 parseG parseE clock envelopeToken opts c =
     (if \<not> Policy_Enabled (as_Policy opts) then (Inl ErrMissingIdentityPolicy, c)
      else if as_ReplayCache opts = None then (Inl ErrMissingReplayCache, c)
      else
        let now = (if as_Now opts = 0 then clock else as_Now opts);
            bindingOpts = (as_SessionBinding opts)\<lparr>ao_Now := now\<rparr> in
        case parseJWT parseE envelopeToken bindingOpts of
          Inl e \<Rightarrow> (Inl e, c)
        | Inr (claims, signerKey) \<Rightarrow>
            (case validateProfileClaims (se_Profile claims) TokenTypeSessionEnvelope of
               Some e \<Rightarrow> (Inl e, c)
             | None \<Rightarrow>
                 if TrimSpace (rc_ID claims) = [] then (Inl ErrMissingJWTID, c)
                 else if TrimSpace (se_IdentityGrantJWT claims) = [] then (Inl ErrMissingIdentityGrant, c)
                 else case validateSessionBindingClaims (se_Session claims) of
                   Some e \<Rightarrow> (Inl e, c)
                 | None \<Rightarrow>
                     (case agtp_VerifyIdentityGrantJWT sha256 parseG (se_IdentityGrantJWT claims)
                         ((as_Grant opts)\<lparr>ao_Now := now\<rparr>) of
                        Inl e \<Rightarrow> (Inl e, c)
                      | Inr grant \<Rightarrow>
                          (case statement_of (se_Session claims) (rc_IssuedAt claims) (rc_ExpiresAt claims) signerKey
                              (ao_ExpectedAudience bindingOpts) of
                             Inl e \<Rightarrow> (Inl e, c)
                           | Inr st \<Rightarrow> accept_session opts now grant st c))))"


section \<open>What acceptance means\<close>

lemma stringSet_iff: "k \<in> stringSet vs \<longleftrightarrow> k \<noteq> [] \<and> (\<exists>v \<in> set vs. TrimSpace v = k)"
proof -
  have "k \<in> fold (\<lambda>value out. if TrimSpace value \<noteq> [] then insert (TrimSpace value) out else out) vs A \<longleftrightarrow>
      k \<in> A \<or> k \<noteq> [] \<and> (\<exists>v \<in> set vs. TrimSpace v = k)" for A
    by (induction vs arbitrary: A) auto
  then show ?thesis by (simp add: stringSet_def)
qed

text \<open>
  The key the local configuration gives for a key id, none if the id is disabled: local keys and disabled ids are
  compared without surrounding space, a key function is given the id as it stands in the token.
\<close>

definition gives_key :: "'k agtp_VerifyOptions \<Rightarrow> string \<Rightarrow> 'k \<Rightarrow> bool" where
  "gives_key opts kid key \<longleftrightarrow> TrimSpace kid \<notin> stringSet (ao_DisabledKeyIDs opts) \<and>
     (case ao_KeyFunc opts of
        Some f \<Rightarrow> f kid = Inr key
      | None \<Rightarrow> (\<exists>lk \<in> set (ao_LocalKeys opts). TrimSpace (ak_KeyID lk) = TrimSpace kid \<and> ak_Key lk = Some key \<and> \<not> ak_Disabled lk))"

lemma gather_keys_Inr:
  "gather_keys ks keys disabled = Inr (keys', disabled') \<Longrightarrow> disabled \<subseteq> disabled' \<and>
     (\<forall>kid key. keys' kid = Some key \<longrightarrow> kid \<notin> disabled' \<longrightarrow> keys kid = Some key \<or>
        (\<exists>lk \<in> set ks. TrimSpace (ak_KeyID lk) = kid \<and> ak_Key lk = Some key \<and> \<not> ak_Disabled lk))"
proof (induction ks arbitrary: keys disabled)
  case (Cons lk ks)
  define kid where "kid = TrimSpace (ak_KeyID lk)"
  from Cons.prems obtain key where key: "ak_Key lk = Some key"
      "gather_keys ks (keys(kid \<mapsto> key)) (if ak_Disabled lk then insert kid disabled else disabled) = Inr (keys', disabled')"
    by (auto simp: Let_def kid_def split: if_splits option.splits)
  note IH = Cons.IH [OF key(2)]
  have "disabled \<subseteq> disabled'" using IH by (auto split: if_splits)
  moreover have "keys k = Some x \<or> (\<exists>lk' \<in> set (lk # ks). TrimSpace (ak_KeyID lk') = k \<and> ak_Key lk' = Some x \<and> \<not> ak_Disabled lk')"
    if k: "keys' k = Some x" "k \<notin> disabled'" for k x
  proof (cases "(keys(kid \<mapsto> key)) k = Some x")
    case True
    then show ?thesis using key(1) IH k(2) kid_def by (cases "k = kid") (auto split: if_splits)
  next
    case False
    then show ?thesis using IH k by (metis list.set_intros(2))
  qed
  ultimately show ?case by blast
qed simp

lemma keyFuncForOptions_gives:
  assumes "keyFuncForOptions opts = Inr kf" "kf kid = Inr key"
  shows "gives_key opts kid key"
proof (cases "ao_KeyFunc opts")
  case None
  with assms(1) obtain keys disabled where k: "gather_keys (ao_LocalKeys opts) Map.empty (stringSet (ao_DisabledKeyIDs opts)) = Inr (keys, disabled)"
      "kf = (\<lambda>keyID. let keyID = TrimSpace keyID in if keyID \<in> disabled then Inl ErrDisabledKeyID
         else case keys keyID of None \<Rightarrow> Inl ErrUnknownKeyID | Some key \<Rightarrow> Inr key)"
    by (auto simp: keyFuncForOptions_def split: sum.splits)
  have "TrimSpace kid \<notin> disabled" "keys (TrimSpace kid) = Some key"
    using assms(2) k(2) by (auto simp: Let_def split: if_splits option.splits)
  then show ?thesis using gather_keys_Inr [OF k(1)] None by (auto simp: gives_key_def)
next
  case (Some f)
  then show ?thesis
    using assms by (auto simp: keyFuncForOptions_def gives_key_def Let_def split: if_splits sum.splits)
qed

definition signed_under :: "(string \<Rightarrow> 'k \<Rightarrow> string \<Rightarrow> bool) \<Rightarrow> 'k agtp_VerifyOptions \<Rightarrow> string \<Rightarrow> string \<Rightarrow> bool" where
  "signed_under verifies opts kid token \<longleftrightarrow> TrimSpace kid \<noteq> [] \<and>
     (\<exists>key method. gives_key opts kid key \<and> method \<in> set (ao_ValidMethods opts)
        \<and> \<not> EqualFold method ''none'' \<and> verifies method key token)"

lemma parserOptions_Inr:
  "parserOptions opts = Inr po \<Longrightarrow>
   po = \<lparr>po_ValidMethods = ao_ValidMethods opts, po_Issuer = ao_ExpectedIssuer opts,
     po_Audience = ao_ExpectedAudience opts, po_ExpirationRequired = True, po_IssuedAt = True,
     po_TimeFunc = (if ao_Now opts \<noteq> 0 then Some (ao_Now opts) else None)\<rparr>
   \<and> (\<forall>m \<in> set (ao_ValidMethods opts). \<not> EqualFold m ''none'')"
  by (auto simp: parserOptions_def list_ex_iff split: if_splits)

lemma parseJWT_Inr:
  assumes "jwt_contract verifies parse" "parseJWT parse token opts = Inr (claims, kid)"
  shows "signed_under verifies opts kid token" "rc_Issuer claims = ao_ExpectedIssuer opts"
    "ao_Now opts \<noteq> 0 \<Longrightarrow> \<exists>e. rc_ExpiresAt claims = Some e \<and> ao_Now opts < e"
    "\<not> isListed (rc_ID claims) (ao_RevokedJWTIDs opts)"
proof -
  from assms(2) obtain po kf where po: "parserOptions opts = Inr po" "keyFuncForOptions opts = Inr kf"
      "parse po (agtp_key_callback kf) token [] = (Inr (claims, True), kid)"
      and r: "\<not> isListed (rc_ID claims) (ao_RevokedJWTIDs opts)"
    by (auto simp: parseJWT_def split: option.splits sum.splits prod.splits if_splits)
  note o = parserOptions_Inr [OF po(1)]
  from assms(1) po(3) obtain header key m where k: "agtp_key_callback kf header [] = (Inr key, kid)"
      "m \<in> set (po_ValidMethods po)" "verifies m key token"
      and c: "rc_Issuer claims = po_Issuer po"
        "\<And>now. po_TimeFunc po = Some now \<Longrightarrow> po_ExpirationRequired po \<Longrightarrow> \<exists>e. rc_ExpiresAt claims = Some e \<and> now < e"
    unfolding jwt_contract_def by metis
  from k(1) have id: "keyIDFromToken header = Inr kid" "kf kid = Inr key"
    by (auto simp: agtp_key_callback_def split: sum.splits)
  then have "TrimSpace kid \<noteq> []" by (auto simp: keyIDFromToken_def split: option.splits header_value.splits if_splits)
  moreover have "m \<in> set (ao_ValidMethods opts)" "\<not> EqualFold m ''none''" using k(2) o by auto
  ultimately show "signed_under verifies opts kid token"
    using keyFuncForOptions_gives [OF po(2) id(2)] k(3) unfolding signed_under_def by blast
  show "rc_Issuer claims = ao_ExpectedIssuer opts" using c(1) o by simp
  show "ao_Now opts \<noteq> 0 \<Longrightarrow> \<exists>e. rc_ExpiresAt claims = Some e \<and> ao_Now opts < e" using c(2) [of "ao_Now opts"] o by auto
  show "\<not> isListed (rc_ID claims) (ao_RevokedJWTIDs opts)" by fact
qed

lemma agtp_VerifyIdentityGrantJWT_Inr:
  assumes "jwt_contract verifies parse" "agtp_VerifyIdentityGrantJWT sha256 parse token opts = Inr g"
  shows "signed_under verifies opts (VG_IssuerKey g) token" "VG_Issuer g = ao_ExpectedIssuer opts"
    "VG_Audience g = ao_ExpectedAudience opts" "VG_GrantHash g = agtp_IdentityGrantHash sha256 token"
    "ao_Now opts \<noteq> 0 \<Longrightarrow> ao_Now opts < VG_ExpiresAt g"
proof -
  from assms(2) obtain claims kid e where p: "parseJWT parse token opts = Inr (claims, kid)" and e: "rc_ExpiresAt claims = Some e"
      and g: "VG_IssuerKey g = kid" "VG_Issuer g = rc_Issuer claims" "VG_Audience g = ao_ExpectedAudience opts"
        "VG_GrantHash g = agtp_IdentityGrantHash sha256 token" "VG_ExpiresAt g = e"
    by (auto simp: agtp_VerifyIdentityGrantJWT_def Let_def split: sum.splits option.splits if_splits)
  note c = parseJWT_Inr [OF assms(1) p]
  with g show "signed_under verifies opts (VG_IssuerKey g) token" "VG_Issuer g = ao_ExpectedIssuer opts"
    "VG_Audience g = ao_ExpectedAudience opts" "VG_GrantHash g = agtp_IdentityGrantHash sha256 token" by simp_all
  show "ao_Now opts \<noteq> 0 \<Longrightarrow> ao_Now opts < VG_ExpiresAt g" using c(3) e g(5) by auto
qed

lemma statement_of_Inr:
  "statement_of claims i e kid aud = Inr st \<longleftrightarrow> (\<exists>t. e = Some t \<and>
     st = \<lparr>VS_GrantHash = sb_GrantHash claims, VS_Audience = aud, VS_SignerKey = kid,
       VS_Binding = \<lparr>LeafPublicKeySHA256 = sb_LeafPublicKeySHA256 claims, TLSExporterSHA256 = sb_TLSExporterSHA256 claims,
         RequestContextSHA256 = sb_RequestContextSHA256 claims, AttestationBinderSHA256 = sb_AttestationBinderSHA256 claims,
         Nonce = sb_Nonce claims, IssuedAt = issued_at i, ExpiresAt = t\<rparr>\<rparr>)"
  by (cases e) (auto simp: statement_of_def)

lemma agtp_VerifySessionBindingJWT_Inr:
  assumes "jwt_contract verifies parse" "agtp_VerifySessionBindingJWT parse token opts = Inr st"
  shows "signed_under verifies opts (VS_SignerKey st) token" "VS_Audience st = ao_ExpectedAudience opts"
    "ao_Now opts \<noteq> 0 \<Longrightarrow> ao_Now opts < ExpiresAt (VS_Binding st)"
proof -
  from assms(2) obtain claims kid e where p: "parseJWT parse token opts = Inr (claims, kid)" and e: "rc_ExpiresAt claims = Some e"
      and g: "VS_SignerKey st = kid" "VS_Audience st = ao_ExpectedAudience opts" "ExpiresAt (VS_Binding st) = e"
    by (auto simp: agtp_VerifySessionBindingJWT_def statement_of_Inr split: sum.splits option.splits if_splits)
  note c = parseJWT_Inr [OF assms(1) p]
  with g show "signed_under verifies opts (VS_SignerKey st) token" "VS_Audience st = ao_ExpectedAudience opts" by simp_all
  show "ao_Now opts \<noteq> 0 \<Longrightarrow> ao_Now opts < ExpiresAt (VS_Binding st)" using c(3) e g(3) by auto
qed

definition session_time :: "('o, 'c) agtp_SessionOptions \<Rightarrow> go_time \<Rightarrow> go_time" where
  "session_time opts clock = (if as_Now opts = 0 then clock else as_Now opts)"

text \<open>What the shared end of the verifiers accepts.\<close>

definition session_ok :: "('o, 'c) agtp_SessionOptions \<Rightarrow> go_time \<Rightarrow> session_identity \<Rightarrow> bool" where
  "session_ok opts now s \<longleftrightarrow> statement_ok (si_Grant s) (si_Statement s) now
     \<and> si_Assertion s = \<lparr>A_Issuer = VG_Issuer (si_Grant s), A_Values = VG_Values (si_Grant s), A_Binding = VS_Binding (si_Statement s)\<rparr>
     \<and> binding_ok (VS_Binding (si_Statement s)) (as_ExpectedBinding opts) now
     \<and> policy_ok (as_Policy opts) (VG_Values (si_Grant s))"

lemma accept_session_Inr:
  assumes "as_ReplayCache opts = Some mark"
  shows "accept_session opts now g st c = (Inr s, c') \<longleftrightarrow>
    si_Grant s = g \<and> si_Statement s = st \<and> session_ok opts now s
    \<and> mark (replayKey st) (ExpiresAt (VS_Binding st)) c = (None, c')"
proof -
  have "accept_session opts now g st c = (Inr s, c') \<longleftrightarrow> (\<exists>a. NewAssertionFromSessionBinding g st now = Inr a
      \<and> ValidateAssertion (as_Policy opts) a (as_ExpectedBinding opts) now = None
      \<and> mark (replayKey st) (ExpiresAt (VS_Binding st)) c = (None, c')
      \<and> s = \<lparr>si_Grant = g, si_Statement = st, si_Assertion = a\<rparr>)"
    using assms by (auto simp: accept_session_def MarkSessionBindingUsed_def split: sum.splits option.splits prod.splits)
  also have "\<dots> \<longleftrightarrow> si_Grant s = g \<and> si_Statement s = st \<and> session_ok opts now s
      \<and> mark (replayKey st) (ExpiresAt (VS_Binding st)) c = (None, c')"
    by (cases s) (auto simp: NewAssertion_Inr session_ok_def ValidateAssertion_def policy_iff)
  finally show ?thesis .
qed

lemma agtp_VerifySessionIdentityJWT_Inr:
  "agtp_VerifySessionIdentityJWT sha256 parseG parseB clock grantToken bindingToken opts c = (Inr s, c') \<longleftrightarrow>
     Policy_Enabled (as_Policy opts) \<and>
     (\<exists>mark. as_ReplayCache opts = Some mark
        \<and> agtp_VerifyIdentityGrantJWT sha256 parseG grantToken ((as_Grant opts)\<lparr>ao_Now := session_time opts clock\<rparr>) = Inr (si_Grant s)
        \<and> agtp_VerifySessionBindingJWT parseB bindingToken ((as_SessionBinding opts)\<lparr>ao_Now := session_time opts clock\<rparr>) = Inr (si_Statement s)
        \<and> session_ok opts (session_time opts clock) s
        \<and> mark (replayKey (si_Statement s)) (ExpiresAt (VS_Binding (si_Statement s))) c = (None, c'))"
  unfolding agtp_VerifySessionIdentityJWT_def Let_def session_time_def [symmetric]
  by (auto simp: accept_session_Inr split: sum.splits)

lemma envelope_Inr:
  "VerifySessionIdentityJWTEnvelope sha256 parseG parseE clock envelopeToken opts c = (Inr s, c') \<longleftrightarrow>
     Policy_Enabled (as_Policy opts) \<and>
     (\<exists>mark claims signerKey. as_ReplayCache opts = Some mark
        \<and> parseJWT parseE envelopeToken ((as_SessionBinding opts)\<lparr>ao_Now := session_time opts clock\<rparr>) = Inr (claims, signerKey)
        \<and> validateProfileClaims (se_Profile claims) TokenTypeSessionEnvelope = None
        \<and> TrimSpace (rc_ID claims) \<noteq> [] \<and> TrimSpace (se_IdentityGrantJWT claims) \<noteq> []
        \<and> validateSessionBindingClaims (se_Session claims) = None
        \<and> agtp_VerifyIdentityGrantJWT sha256 parseG (se_IdentityGrantJWT claims)
            ((as_Grant opts)\<lparr>ao_Now := session_time opts clock\<rparr>) = Inr (si_Grant s)
        \<and> statement_of (se_Session claims) (rc_IssuedAt claims) (rc_ExpiresAt claims) signerKey
            (ao_ExpectedAudience (as_SessionBinding opts)) = Inr (si_Statement s)
        \<and> session_ok opts (session_time opts clock) s
        \<and> mark (replayKey (si_Statement s)) (ExpiresAt (VS_Binding (si_Statement s))) c = (None, c'))"
  unfolding VerifySessionIdentityJWTEnvelope_def Let_def session_time_def [symmetric]
  by (auto simp: accept_session_Inr split: sum.splits option.splits)

lemma signed_under_Now: "signed_under verifies (opts\<lparr>ao_Now := t\<rparr>) kid token = signed_under verifies opts kid token"
  by (cases "ao_KeyFunc opts") (simp_all add: signed_under_def gives_key_def)

text \<open>
  C32: what a single envelope proves. If the JWT library keeps its contract and an envelope is accepted, the
  envelope carries a grant token such that: the envelope is signed under a key the binding options give for its
  key id, the grant token under one the grant options give; the grant names the envelope's key id, which differs
  from the grant's; the envelope carries the hash of exactly that grant token; neither has expired; and the
  session and the granted values satisfy the local policy.
\<close>

theorem accepted_envelope:
  assumes "jwt_contract verifiesG parseG" "jwt_contract verifiesE parseE" and "clock \<noteq> 0"
    and "VerifySessionIdentityJWTEnvelope sha256 parseG parseE clock envelopeToken opts c = (Inr s, c')"
  shows "\<exists>grantToken. signed_under verifiesG (as_Grant opts) (VG_IssuerKey (si_Grant s)) grantToken
    \<and> signed_under verifiesE (as_SessionBinding opts) (VS_SignerKey (si_Statement s)) envelopeToken
    \<and> VS_SignerKey (si_Statement s) \<in> binding_keys (si_Grant s) - {VG_IssuerKey (si_Grant s)}
    \<and> VS_GrantHash (si_Statement s) = agtp_IdentityGrantHash sha256 grantToken
    \<and> VG_Issuer (si_Grant s) = ao_ExpectedIssuer (as_Grant opts)
    \<and> VG_Audience (si_Grant s) = ao_ExpectedAudience (as_Grant opts)
    \<and> session_time opts clock < VG_ExpiresAt (si_Grant s)
    \<and> session_time opts clock < ExpiresAt (VS_Binding (si_Statement s))
    \<and> binding_ok (VS_Binding (si_Statement s)) (as_ExpectedBinding opts) (session_time opts clock)
    \<and> policy_ok (as_Policy opts) (VG_Values (si_Grant s))"
proof -
  let ?now = "session_time opts clock"
  from assms(4) obtain claims kid where p: "parseJWT parseE envelopeToken ((as_SessionBinding opts)\<lparr>ao_Now := ?now\<rparr>) = Inr (claims, kid)"
    and g: "agtp_VerifyIdentityGrantJWT sha256 parseG (se_IdentityGrantJWT claims) ((as_Grant opts)\<lparr>ao_Now := ?now\<rparr>) = Inr (si_Grant s)"
    and st: "statement_of (se_Session claims) (rc_IssuedAt claims) (rc_ExpiresAt claims) kid
        (ao_ExpectedAudience (as_SessionBinding opts)) = Inr (si_Statement s)"
    and ok: "session_ok opts ?now s"
    unfolding envelope_Inr by (elim conjE exE)
  have now: "?now \<noteq> 0" using assms(3) by (simp add: session_time_def)
  note G = agtp_VerifyIdentityGrantJWT_Inr [OF assms(1) g, unfolded signed_under_Now]
    and E = parseJWT_Inr [OF assms(2) p, unfolded signed_under_Now]
  have "VG_IssuerKey (si_Grant s) \<noteq> []" using G(1) by (auto simp: signed_under_def)
  moreover have "VS_SignerKey (si_Statement s) = kid" "Some (ExpiresAt (VS_Binding (si_Statement s))) = rc_ExpiresAt claims"
    using st by (auto simp: statement_of_Inr)
  moreover have "?now < ExpiresAt (VS_Binding (si_Statement s))" using E(3) now calculation by auto
  ultimately show ?thesis using G E now ok by (auto simp: session_ok_def statement_ok_def)
qed

text \<open>The contract excludes the nil expiry the code dereferences.\<close>

lemma no_nil_expiry:
  assumes "jwt_contract verifies parse" "ao_Now opts \<noteq> 0"
  shows "agtp_VerifyIdentityGrantJWT sha256 parse token opts \<noteq> Inl NilPointer"
proof
  assume "agtp_VerifyIdentityGrantJWT sha256 parse token opts = Inl NilPointer"
  moreover have "parserOptions opts \<noteq> Inl NilPointer" by (simp add: parserOptions_def)
  moreover have "gather_keys ks keys d \<noteq> Inl NilPointer" for ks :: "'a agtp_LocalKey list" and keys d
    by (induction ks arbitrary: keys d) (auto simp: Let_def split: option.splits)
  then have "keyFuncForOptions opts \<noteq> Inl NilPointer"
    by (auto simp: keyFuncForOptions_def split: option.splits sum.splits)
  ultimately obtain claims kid where "parseJWT parse token opts = Inr (claims, kid)" "rc_ExpiresAt claims = None"
    by (auto simp: agtp_VerifyIdentityGrantJWT_def parseJWT_def validateProfileClaims_def Let_def
        split: sum.splits option.splits prod.splits if_splits)
  with parseJWT_Inr(3) [OF assms(1) this(1) assms(2)] show False by simp
qed

text \<open>The two profiles as one acceptor: a pair of tokens or an envelope.\<close>

definition accept_profile ::
    "(bytes \<Rightarrow> bytes) \<Rightarrow> (agtp_error, 'k, identityGrantClaims) parse_with_claims \<Rightarrow> (agtp_error, 'k, sessionBindingClaims) parse_with_claims
     \<Rightarrow> (agtp_error, 'k, sessionEnvelopeClaims) parse_with_claims \<Rightarrow> go_time
     \<Rightarrow> string \<times> string + string \<Rightarrow> ('k agtp_VerifyOptions, 'c) agtp_SessionOptions \<Rightarrow> 'c \<Rightarrow> (agtp_error + session_identity) \<times> 'c" where
  "accept_profile sha256 parseG parseB parseE clock tokens opts =
     (case tokens of
        Inl (grantToken, bindingToken) \<Rightarrow> agtp_VerifySessionIdentityJWT sha256 parseG parseB clock grantToken bindingToken opts
      | Inr envelopeToken \<Rightarrow> VerifySessionIdentityJWTEnvelope sha256 parseG parseE clock envelopeToken opts)"

interpretation agtp_jwt: session_acceptor MarkUsed_ptr "\<lambda>t m. m\<lparr>mc_now := t\<rparr>" mc_now "\<lambda>m k e. mc_seen m k = Some e"
  "\<lambda>(tokens, opts). accept_profile sha256 parseG parseB parseE clock tokens (opts\<lparr>as_ReplayCache := Some MarkUsed_ptr\<rparr>)"
  for sha256 parseG parseB parseE clock
  by unfold_locales
    (auto simp: accept_profile_def agtp_VerifySessionIdentityJWT_Inr envelope_Inr split: sum.splits prod.splits)

text \<open>
  C33: a session is accepted once across the profiles. After a pair of tokens or an envelope has been accepted
  with the in-process cache, neither a pair nor an envelope, under whatever options, is accepted for a statement
  with the same grant hash, audience, exporter, request context and nonce, whatever lies between, while no
  reading of the clock is past the expiry of the accepted binding.
\<close>

theorem accepted_once_across_profiles:
  assumes "accept_profile sha256 parseG parseB parseE clock tokens (opts\<lparr>as_ReplayCache := Some MarkUsed_ptr\<rparr>) m = (Inr s, m')"
    and "readings_live (ExpiresAt (VS_Binding (si_Statement s))) evs"
    and "session_tuple (si_Statement s') = session_tuple (si_Statement s)"
  shows "accept_profile sha256 parseG parseB parseE clock tokens' (opts'\<lparr>as_ReplayCache := Some MarkUsed_ptr\<rparr>)
      (fold (cache_step MarkUsed_ptr (\<lambda>t m. m\<lparr>mc_now := t\<rparr>)) evs m') \<noteq> (Inr s', m'')"
  using agtp_jwt.session_not_accepted_again [where r = "(tokens, opts)" and r' = "(tokens', opts')"] assms by fastforce


section \<open>Sample tokens\<close>

text \<open>
  Grants and envelopes: \<open>G\<close> names the agent's key \<open>ck\<close>, which signs the envelope \<open>E\<close>; \<open>G2\<close> names the key id
  \<open>mk\<close> of its own issuer with a space in front, and the issuer's key signs the envelope \<open>E2\<close> under that id.
\<close>

definition sample_grant_claims :: "string \<Rightarrow> identityGrantClaims" where
  "sample_grant_claims cnf = \<lparr>rc_Issuer = ''manager'', rc_Subject = ''agent'', rc_Audience = [''aud''], rc_ExpiresAt = Some 20,
     rc_IssuedAt = Some 2, rc_ID = ''g1'',
     ig_Profile = \<lparr>pc_TokenType = agtp_TokenTypeIdentityGrant, pc_ProfileVersion = ''1'', pc_LegacyTokenType = [], pc_LegacyProfileVersion = []\<rparr>,
     ig_ConfirmationKeyID = cnf, ig_AuthorizedEndpointKeys = [], ig_Values = no_values\<lparr>Service := ''svc''\<rparr>,
     ig_Scope = [], ig_Resource = []\<rparr>"

definition sample_envelope_claims :: "string \<Rightarrow> sessionEnvelopeClaims" where
  "sample_envelope_claims grantToken = \<lparr>rc_Issuer = ''agent'', rc_Subject = ''agent'', rc_Audience = [''aud''], rc_ExpiresAt = Some 10,
     rc_IssuedAt = Some 3, rc_ID = ''b1'',
     se_Profile = \<lparr>pc_TokenType = TokenTypeSessionEnvelope, pc_ProfileVersion = ''1'', pc_LegacyTokenType = [], pc_LegacyProfileVersion = []\<rparr>,
     se_IdentityGrantJWT = grantToken,
     se_Session = \<lparr>sb_GrantHash = agtp_IdentityGrantHash (\<lambda>b. b) grantToken, sb_LeafPublicKeySHA256 = ''leaf'',
       sb_TLSExporterSHA256 = ''exporter'', sb_RequestContextSHA256 = ''context'', sb_AttestationBinderSHA256 = ''binder'',
       sb_Nonce = ''n1''\<rparr>\<rparr>"

definition grant_table :: "string \<rightharpoonup> string \<times> string \<times> identityGrantClaims" where
  "grant_table = [''G'' \<mapsto> (''mk'', ''MK'', sample_grant_claims ''ck''), ''G2'' \<mapsto> (''mk'', ''MK'', sample_grant_claims '' mk'')]"

definition envelope_table :: "string \<rightharpoonup> string \<times> string \<times> sessionEnvelopeClaims" where
  "envelope_table = [''E'' \<mapsto> (''ck'', ''CK'', sample_envelope_claims ''G''), ''E2'' \<mapsto> ('' mk'', ''MK'', sample_envelope_claims ''G2'')]"

definition sample_verifier :: "string \<Rightarrow> string \<Rightarrow> string \<Rightarrow> string agtp_VerifyOptions" where
  "sample_verifier issuer kid key = \<lparr>ao_ExpectedIssuer = issuer, ao_ExpectedAudience = ''aud'', ao_ValidMethods = [''ES256''],
     ao_KeyFunc = None, ao_LocalKeys = [\<lparr>ak_KeyID = kid, ak_Key = Some key, ak_Disabled = False\<rparr>],
     ao_DisabledKeyIDs = [], ao_RevokedJWTIDs = [], ao_Now = 0\<rparr>"

definition sample_session_opts :: "string \<Rightarrow> string \<Rightarrow> (string agtp_VerifyOptions, MemoryReplayCache) agtp_SessionOptions" where
  "sample_session_opts kid key = \<lparr>as_Grant = sample_verifier ''manager'' ''mk'' ''MK'', as_SessionBinding = sample_verifier ''agent'' kid key,
     as_Policy = sample_policy, as_ExpectedBinding = sample_binding, as_ReplayCache = Some MarkUsed_ptr, as_Now = 5\<rparr>"

definition sample_identity :: "string \<Rightarrow> string \<Rightarrow> session_identity" where
  "sample_identity kid grantToken =
     (let g = sample_grant\<lparr>VG_IssuerKey := ''mk'', VG_GrantHash := agtp_IdentityGrantHash (\<lambda>b. b) grantToken, VG_ConfirmationKey := kid,
            VG_Values := no_values\<lparr>Service := ''svc'', Agent := ''agent''\<rparr>\<rparr>;
          st = sample_statement\<lparr>VS_GrantHash := agtp_IdentityGrantHash (\<lambda>b. b) grantToken, VS_SignerKey := kid\<rparr>
      in \<lparr>si_Grant = g, si_Statement = st,
          si_Assertion = \<lparr>A_Issuer = VG_Issuer g, A_Values = VG_Values g, A_Binding = VS_Binding st\<rparr>\<rparr>)"

definition sample_cache :: "string \<Rightarrow> string \<Rightarrow> MemoryReplayCache" where
  "sample_cache kid grantToken = \<lparr>mc_now = 5, mc_seen = [replayKey (si_Statement (sample_identity kid grantToken)) \<mapsto> 10]\<rparr>"

lemmas sample_token_simps = demo_strings demo_method table_parse_def parseJWT_def parserOptions_def keyFuncForOptions_def
  stringSet_def isListed_def agtp_key_callback_def keyIDFromToken_def sample_verifier_def validateProfileClaims_def
  profileTypeMatches_def agtp_profileVersionMatches_def rejectDuplicateJWTJSONMembers_def

lemma sample_hash_plain: "plain (agtp_IdentityGrantHash (\<lambda>b. b) ''G'')" "plain (agtp_IdentityGrantHash (\<lambda>b. b) ''G2'')"
  by (simp_all add: agtp_IdentityGrantHash_def domain_hash_def agtpGrantHashSeed_def EncodeToString_def
      hex_byte_def hex_digit_def plain_def MaxValueLength_def)

lemma TrimSpace_lead_space:
  assumes "TrimSpace s = s" "s \<noteq> []"
  shows "TrimSpace (CHR '' '' # s) = s"
proof -
  let ?bs = "string_bytes s"
  have len: "length ?bs = length s" by (simp add: string_bytes_def)
  have "length (take (length (trim_right_space (trim_left_space ?bs))) (drop (length s - length (trim_left_space ?bs)) s)) = length s"
    using assms(1) by (simp add: TrimSpace_def Let_def)
  then have l: "length (trim_left_space ?bs) = length s" "length s \<le> length (trim_right_space (trim_left_space ?bs))"
    using trim_left_space_length [of ?bs] len assms(2) by (auto simp: min_def split: if_splits)
  have "trim_left_space (string_bytes (CHR '' '' # s)) = trim_left_space ?bs"
    by (subst trim_left_space.simps) (simp add: string_bytes_def IsSpace_def)
  then show ?thesis using l by (simp add: TrimSpace_def Let_def)
qed

lemma padded_mk: "TrimSpace '' mk'' = ''mk''" "present '' mk''"
proof -
  show t: "TrimSpace '' mk'' = ''mk''" by (rule TrimSpace_lead_space [OF demo_strings(4)]) simp
  have "ascii '' mk''" by (simp add: ascii_def)
  then show "present '' mk''"
    using t by (simp add: present_def isEmpty_def safe_value_def MaxValueLength_def isUnsafe_def ascii_runes IsControl_def)
qed

text \<open>An envelope of the table is accepted when its key id is the one its grant names and the options know its key.\<close>

lemma sample_session_ok:
  assumes "present kid" "kid \<noteq> ''mk''" "plain (agtp_IdentityGrantHash (\<lambda>b. b) grantToken)"
  shows "session_ok (sample_session_opts k key) 5 (sample_identity kid grantToken)"
proof -
  have "present ''agent''" by (rule plain_present) (simp add: plain_def MaxValueLength_def)
  then have v: "safe_value ''svc''" "safe_value ''agent''" "\<not> isEmpty ''svc''" using sample_present(11) by (simp_all add: present_def)
  then have "statement_ok (si_Grant (sample_identity kid grantToken)) (si_Statement (sample_identity kid grantToken)) 5"
    using sample_present plain_present [OF assms(3)] assms
    by (simp add: sample_identity_def Let_def statement_ok_def sample_simps binding_keys_def grant_values_ok_def
        grantFields_def field_value_def lifetime_ok_def statement_binding_ok_def MaxSetValues_def)
  moreover have "policy_ok sample_policy (no_values\<lparr>Service := ''svc'', Agent := ''agent''\<rparr>)"
    using v by (simp add: policy_ok_def sample_policy_def no_values_def Requirements_Enabled_def layer_ok_def fieldsL3_def field_value_def)
  moreover have "binding_ok sample_binding sample_binding 5"
    using sample_present by (auto simp: binding_ok_def bindingFields_def sample_binding_def present_def safe_value_def)
  ultimately show ?thesis
    by (simp add: session_ok_def sample_session_opts_def) (simp add: sample_identity_def Let_def sample_statement_def)
qed

lemma sample_marked:
  assumes "statement_ok (si_Grant (sample_identity kid grantToken)) (si_Statement (sample_identity kid grantToken)) 5"
  shows "MarkUsed_ptr (replayKey (si_Statement (sample_identity kid grantToken))) 10 (NewMemoryReplayCacheWithClock 5)
    = (None, sample_cache kid grantToken)"
proof -
  let ?g = "si_Grant (sample_identity kid grantToken)" and ?st = "si_Statement (sample_identity kid grantToken)"
  have e: "ExpiresAt (VS_Binding ?st) = 10" by (simp add: sample_identity_def Let_def sample_statement_def sample_binding_def)
  have "ValidateSessionBindingStatementWithOptions ?g ?st 5 (Some MarkUsed_ptr) (NewMemoryReplayCacheWithClock 5)
      = (None, sample_cache kid grantToken)"
    using memory_accepts_valid [OF assms, of "NewMemoryReplayCacheWithClock 5"]
    by (simp add: sample_cache_def NewMemoryReplayCacheWithClock_def live_at_def prune_def e)
  from mem.binding_accept [OF this] show ?thesis by (simp add: e)
qed

lemma sample_verified:
  "agtp_VerifyIdentityGrantJWT (\<lambda>b. b) (table_parse grant_table) ''G''
     ((sample_verifier ''manager'' ''mk'' ''MK'')\<lparr>ao_Now := 5\<rparr>) = Inr (si_Grant (sample_identity ''ck'' ''G''))"
  "agtp_VerifyIdentityGrantJWT (\<lambda>b. b) (table_parse grant_table) ''G2''
     ((sample_verifier ''manager'' ''mk'' ''MK'')\<lparr>ao_Now := 5\<rparr>) = Inr (si_Grant (sample_identity '' mk'' ''G2''))"
  by (simp_all add: agtp_VerifyIdentityGrantJWT_def sample_token_simps grant_table_def sample_grant_claims_def
      appendScopeValues_def issued_at_def sample_identity_def sample_grant_def no_values_def padded_mk Let_def)

lemma sample_parsed:
  "parseJWT (table_parse envelope_table) ''E'' ((sample_verifier ''agent'' ''ck'' ''CK'')\<lparr>ao_Now := 5\<rparr>)
     = Inr (sample_envelope_claims ''G'', ''ck'')"
  "parseJWT (table_parse envelope_table) ''E2'' ((sample_verifier ''agent'' ''mk'' ''MK'')\<lparr>ao_Now := 5\<rparr>)
     = Inr (sample_envelope_claims ''G2'', '' mk'')"
  by (simp_all add: sample_token_simps envelope_table_def sample_envelope_claims_def padded_mk)

text \<open>An envelope of the table is accepted when its key id is the one its grant names and the options know its key.\<close>

lemma sample_envelope_accepted:
  assumes kid: "present kid" "kid \<noteq> ''mk''" and hash: "plain (agtp_IdentityGrantHash (\<lambda>b. b) grantToken)"
    and g: "TrimSpace grantToken \<noteq> []" "agtp_VerifyIdentityGrantJWT (\<lambda>b. b) (table_parse grant_table) grantToken
      ((sample_verifier ''manager'' ''mk'' ''MK'')\<lparr>ao_Now := 5\<rparr>) = Inr (si_Grant (sample_identity kid grantToken))"
    and p: "parseJWT (table_parse envelope_table) envelopeToken ((sample_verifier ''agent'' k key)\<lparr>ao_Now := 5\<rparr>)
      = Inr (sample_envelope_claims grantToken, kid)"
  shows "VerifySessionIdentityJWTEnvelope (\<lambda>b. b) (table_parse grant_table) (table_parse envelope_table) 5 envelopeToken
    (sample_session_opts k key) (NewMemoryReplayCacheWithClock 5) = (Inr (sample_identity kid grantToken), sample_cache kid grantToken)"
proof -
  let ?st = "si_Statement (sample_identity kid grantToken)"
  have ok: "session_ok (sample_session_opts k key) 5 (sample_identity kid grantToken)" by (rule sample_session_ok [OF kid hash])
  have "validateSessionBindingClaims (se_Session (sample_envelope_claims grantToken)) = None"
    using plain_TrimSpace [OF hash] hash
    by (simp add: validateSessionBindingClaims_def sample_envelope_claims_def demo_strings plain_def)
  moreover have "validateProfileClaims (se_Profile (sample_envelope_claims grantToken)) TokenTypeSessionEnvelope = None"
    by (simp add: sample_token_simps sample_envelope_claims_def)
  moreover have "statement_of (se_Session (sample_envelope_claims grantToken)) (Some 3) (Some 10) kid ''aud'' = Inr ?st"
    by (simp add: statement_of_def sample_envelope_claims_def sample_identity_def Let_def sample_statement_def sample_binding_def issued_at_def)
  moreover have "MarkUsed_ptr (replayKey ?st) 10 (NewMemoryReplayCacheWithClock 5) = (None, sample_cache kid grantToken)"
    using ok by (intro sample_marked) (simp add: session_ok_def)
  moreover have "ExpiresAt (VS_Binding ?st) = 10" by (simp add: sample_identity_def Let_def sample_statement_def sample_binding_def)
  moreover have "session_time (sample_session_opts k key) 5 = 5" "as_Grant (sample_session_opts k key) = sample_verifier ''manager'' ''mk'' ''MK''"
      "as_SessionBinding (sample_session_opts k key) = sample_verifier ''agent'' k key"
      "as_ReplayCache (sample_session_opts k key) = Some MarkUsed_ptr" "Policy_Enabled (as_Policy (sample_session_opts k key))"
      "ao_ExpectedAudience (sample_verifier ''agent'' k key) = ''aud''"
    by (simp_all add: session_time_def sample_session_opts_def Policy_Enabled_def sample_policy_def sample_verifier_def)
  moreover have "rc_IssuedAt (sample_envelope_claims grantToken) = Some 3" "rc_ExpiresAt (sample_envelope_claims grantToken) = Some 10"
      "se_IdentityGrantJWT (sample_envelope_claims grantToken) = grantToken" "TrimSpace (rc_ID (sample_envelope_claims grantToken)) \<noteq> []"
    by (simp_all add: sample_envelope_claims_def demo_strings)
  ultimately show ?thesis
    using g p ok unfolding envelope_Inr by simp
qed

lemma TrimSpace_tokens: "TrimSpace ''G'' \<noteq> []" "TrimSpace ''G2'' \<noteq> []"
  by (rule TrimSpace_ascii_head; simp add: IsSpace_def)+

lemmas sample_accepted_E =
  sample_envelope_accepted [OF sample_present(4) _ sample_hash_plain(1) TrimSpace_tokens(1) sample_verified(1) sample_parsed(1), simplified]

theorem accepted_envelope_witness:
  "\<exists>grantToken. signed_under (table_verifies grant_table) (sample_verifier ''manager'' ''mk'' ''MK'') ''mk'' grantToken
   \<and> signed_under (table_verifies envelope_table) (sample_verifier ''agent'' ''ck'' ''CK'') ''ck'' ''E''
   \<and> VS_GrantHash (si_Statement (sample_identity ''ck'' ''G'')) = agtp_IdentityGrantHash (\<lambda>b. b) grantToken"
  using accepted_envelope [OF table_contract table_contract _ sample_accepted_E]
  by (auto simp: sample_session_opts_def sample_identity_def Let_def sample_statement_def)

theorem accepted_once_across_profiles_witness:
  "\<forall>m. accept_profile (\<lambda>b. b) (table_parse grant_table) (table_parse (\<lambda>_. None)) (table_parse envelope_table) 5 (Inr ''E'')
     (sample_session_opts ''ck'' ''CK'') (sample_cache ''ck'' ''G'') \<noteq> (Inr (sample_identity ''ck'' ''G''), m)"
proof
  fix m
  have o: "sample_session_opts k key\<lparr>as_ReplayCache := Some MarkUsed_ptr\<rparr> = sample_session_opts k key" for k key
    by (simp add: sample_session_opts_def)
  show "accept_profile (\<lambda>b. b) (table_parse grant_table) (table_parse (\<lambda>_. None)) (table_parse envelope_table) 5 (Inr ''E'')
     (sample_session_opts ''ck'' ''CK'') (sample_cache ''ck'' ''G'') \<noteq> (Inr (sample_identity ''ck'' ''G''), m)"
    using accepted_once_across_profiles [of "\<lambda>b. b" "table_parse grant_table" "table_parse (\<lambda>_. None)" "table_parse envelope_table" 5
        "Inr ''E''" "sample_session_opts ''ck'' ''CK''" "NewMemoryReplayCacheWithClock 5" "sample_identity ''ck'' ''G''"
        "sample_cache ''ck'' ''G''" "[]" "sample_identity ''ck'' ''G''" "Inr ''E''" "sample_session_opts ''ck'' ''CK''" m]
      sample_accepted_E by (simp add: o accept_profile_def)
qed

text \<open>
  C34: a key id with a space in front escapes the rule that the issuer's key signs no session. Both verifiers
  below trust one key only, the issuer's \<open>MK\<close> under the id \<open>mk\<close>. The grant names the key id \<open>mk\<close> with a leading
  space, the envelope is signed by \<open>MK\<close> with that id in its header, and it is accepted: the key is looked up under
  the trimmed id, the rule compares the ids as they stand.
\<close>

theorem issuer_key_signs_padded:
  "ao_LocalKeys (as_Grant (sample_session_opts ''mk'' ''MK'')) = ao_LocalKeys (as_SessionBinding (sample_session_opts ''mk'' ''MK''))
   \<and> map ak_Key (ao_LocalKeys (as_Grant (sample_session_opts ''mk'' ''MK''))) = [Some ''MK'']
   \<and> fst (VerifySessionIdentityJWTEnvelope (\<lambda>b. b) (table_parse grant_table) (table_parse envelope_table) 5 ''E2''
       (sample_session_opts ''mk'' ''MK'') (NewMemoryReplayCacheWithClock 5)) = Inr (sample_identity '' mk'' ''G2'')"
  using sample_envelope_accepted [OF padded_mk(2) _ sample_hash_plain(2) TrimSpace_tokens(2) sample_verified(2) sample_parsed(2)]
  by (simp add: sample_session_opts_def sample_verifier_def)

end
