(* ===== verification/Gateway_Route.thy ===== *)
theory Gateway_Route
  imports Session_Binding
begin

text \<open>
  The route policy of the gateway adapter, \<open>pkg/agtp/gatewayroute/route.go\<close>: a verified Gateway Route Assertion is
  checked against local expectations and, where demanded, the final agent's proof of its key, and recorded in a
  replay cache. An error is the list of the fields at fault, or comes from the cache.
\<close>

datatype route_sentinel = Route_MissingExpected | Route_MissingObserved | Route_Mismatch | Route_Expired | Route_Future
  | Route_UnsafeValue

datatype route_error =
    FieldErrors "(string \<times> route_sentinel) list" \<comment> \<open>\<open>errors.Join\<close> of the field errors\<close>
  | Route_ReplayDetected
  | CacheError go_error

abbreviation (input) AssertionType :: string where "AssertionType \<equiv> ''ai2ai.gateway-route-assertion''"
abbreviation (input) AssertionVersion :: int where "AssertionVersion \<equiv> 1"

record route_Assertion =
  ra_Type :: string
  ra_Version :: int
  ra_Issuer :: string
  ra_Audience :: string
  ra_ID :: string
  ra_IssuedAt :: go_time
  ra_ExpiresAt :: go_time
  ra_Nonce :: string
  ra_GrantHash :: string
  ra_GatewaySessionBindingSHA256 :: string
  ra_RouteID :: string
  ra_NextHop :: string
  ra_Tenant :: string
  ra_Principal :: string
  ra_AuthorityScope :: string
  ra_PolicyID :: string
  ra_TargetAgent :: string
  ra_TargetWorkload :: string
  ra_TargetAgentKeyThumbprint :: string
  ra_UpstreamAuthn :: string
  ra_UpstreamPeer :: string
  ra_RequestContextSHA256 :: string
  ra_TaskID :: string
  ra_ContextID :: string
  ra_SessionID :: string
  ra_AuditHash :: string
  ra_AgentHolderOfKeyProofSHA256 :: string

record HolderOfKeyProof =
  hp_AgentID :: string
  hp_WorkloadID :: string
  hp_KeyThumbprint :: string
  hp_GrantHash :: string
  hp_RouteID :: string
  hp_TaskID :: string
  hp_ContextID :: string
  hp_Nonce :: string
  hp_IssuedAt :: go_time
  hp_ExpiresAt :: go_time

record ExpectedRoute =
  er_Issuer :: string
  er_Audience :: string
  er_Tenant :: string
  er_AuthorityScope :: string
  er_RouteID :: string
  er_PolicyID :: string
  er_TargetAgent :: string
  er_TargetWorkload :: string
  er_TargetAgentKeyThumbprint :: string
  er_RequestContextSHA256 :: string
  er_TaskID :: string
  er_ContextID :: string
  er_AuditHash :: string
  er_RequireAgentHolderOfKeyProof :: bool

record 'c route_Options =
  rt_Now :: go_time
  rt_ReplayCache :: "'c replay_cache"

text \<open>\<open>isEmpty\<close> is that of the identity policy; \<open>isUnsafe\<close> looks for four characters only.\<close>

definition route_isUnsafe :: "string \<Rightarrow> bool" where
  "route_isUnsafe value = list_ex (\<lambda>c. c \<in> {CHR 0x0D, CHR 0x0A, CHR ''<'', CHR ''>''}) value"

definition validateObserved :: "string \<times> string \<Rightarrow> (string \<times> route_sentinel) list" where
  "validateObserved f =
     (if isEmpty (snd f) then [(fst f, Route_MissingObserved)]
      else if route_isUnsafe (snd f) then [(fst f, Route_UnsafeValue)]
      else [])"

definition core_fields :: "route_Assertion \<Rightarrow> (string \<times> string) list" where
  "core_fields a =
     [(''gta_type'', ra_Type a), (''iss'', ra_Issuer a), (''aud'', ra_Audience a), (''jti'', ra_ID a), (''nonce'', ra_Nonce a),
      (''grant_hash'', ra_GrantHash a), (''gateway_session_binding_sha256'', ra_GatewaySessionBindingSHA256 a),
      (''route_id'', ra_RouteID a), (''next_hop'', ra_NextHop a), (''policy_id'', ra_PolicyID a),
      (''target_agent'', ra_TargetAgent a), (''upstream_authn'', ra_UpstreamAuthn a), (''upstream_peer'', ra_UpstreamPeer a),
      (''request_context_sha256'', ra_RequestContextSHA256 a)]"

definition validateCore :: "route_Assertion \<Rightarrow> go_time \<Rightarrow> (string \<times> route_sentinel) list" where
  "validateCore a now =
     concat (map validateObserved (core_fields a))
     @ (if ra_Type a \<noteq> [] \<and> ra_Type a \<noteq> AssertionType then [(''gta_type'', Route_Mismatch)] else [])
     @ (if ra_Version a \<noteq> AssertionVersion then [(''gta_version'', Route_Mismatch)] else [])
     @ (if ra_IssuedAt a = 0 then [(''iat'', Route_MissingObserved)]
        else if ra_IssuedAt a > now then [(''iat'', Route_Future)] else [])
     @ (if ra_ExpiresAt a = 0 then [(''exp'', Route_MissingObserved)]
        else if now > ra_ExpiresAt a then [(''exp'', Route_Expired)] else [])"

definition expected_fields :: "route_Assertion \<Rightarrow> ExpectedRoute \<Rightarrow> (string \<times> string \<times> string) list" where
  "expected_fields a expected =
     [(''iss'', er_Issuer expected, ra_Issuer a), (''aud'', er_Audience expected, ra_Audience a),
      (''tenant'', er_Tenant expected, ra_Tenant a), (''authority_scope'', er_AuthorityScope expected, ra_AuthorityScope a),
      (''route_id'', er_RouteID expected, ra_RouteID a), (''policy_id'', er_PolicyID expected, ra_PolicyID a),
      (''target_agent'', er_TargetAgent expected, ra_TargetAgent a),
      (''target_workload'', er_TargetWorkload expected, ra_TargetWorkload a),
      (''target_agent_key_thumbprint'', er_TargetAgentKeyThumbprint expected, ra_TargetAgentKeyThumbprint a),
      (''request_context_sha256'', er_RequestContextSHA256 expected, ra_RequestContextSHA256 a),
      (''task_id'', er_TaskID expected, ra_TaskID a), (''context_id'', er_ContextID expected, ra_ContextID a),
      (''audit_hash'', er_AuditHash expected, ra_AuditHash a)]"

definition compare_field :: "string \<times> string \<times> string \<Rightarrow> (string \<times> route_sentinel) list" where
  "compare_field f =
     (case f of (name, want, got) \<Rightarrow>
        if isEmpty want then []
        else if route_isUnsafe want then [(name, Route_UnsafeValue)]
        else if isEmpty got then [(name, Route_MissingObserved)]
        else if route_isUnsafe got then [(name, Route_UnsafeValue)]
        else if want \<noteq> got then [(name, Route_Mismatch)]
        else [])"

definition compareExpected :: "route_Assertion \<Rightarrow> ExpectedRoute \<Rightarrow> (string \<times> route_sentinel) list" where
  "compareExpected a expected =
     concat (map compare_field (expected_fields a expected))
     @ (if isEmpty (er_Issuer expected) \<or> isEmpty (er_Audience expected) \<or> isEmpty (er_RouteID expected)
          \<or> isEmpty (er_PolicyID expected) \<or> isEmpty (er_TargetAgent expected) \<or> isEmpty (er_RequestContextSHA256 expected)
        then [(''*'', Route_MissingExpected)] else [])"

definition holderKeyThumbprint :: "route_Assertion \<Rightarrow> ExpectedRoute \<Rightarrow> string" where
  "holderKeyThumbprint a expected =
     (if er_TargetAgentKeyThumbprint expected \<noteq> [] then er_TargetAgentKeyThumbprint expected
      else ra_TargetAgentKeyThumbprint a)"

definition holder_fields :: "route_Assertion \<Rightarrow> HolderOfKeyProof \<Rightarrow> ExpectedRoute \<Rightarrow> (string \<times> string \<times> string) list" where
  "holder_fields a p expected =
     [(''holder.agent'', ra_TargetAgent a, hp_AgentID p), (''holder.workload'', ra_TargetWorkload a, hp_WorkloadID p),
      (''holder.key_thumbprint'', holderKeyThumbprint a expected, hp_KeyThumbprint p),
      (''grant_hash'', ra_GrantHash a, hp_GrantHash p), (''route_id'', ra_RouteID a, hp_RouteID p),
      (''task_id'', ra_TaskID a, hp_TaskID p), (''context_id'', ra_ContextID a, hp_ContextID p),
      (''holder.nonce'', ra_Nonce a, hp_Nonce p)]"

definition compare_holder_field :: "string \<times> string \<times> string \<Rightarrow> (string \<times> route_sentinel) list" where
  "compare_holder_field f =
     (case f of (name, want, got) \<Rightarrow>
        if isEmpty want then []
        else if isEmpty got then [(name, Route_MissingObserved)]
        else if route_isUnsafe got then [(name, Route_UnsafeValue)]
        else if want \<noteq> got then [(name, Route_Mismatch)]
        else [])"

definition validateHolderProof ::
    "route_Assertion \<Rightarrow> HolderOfKeyProof option \<Rightarrow> ExpectedRoute \<Rightarrow> go_time \<Rightarrow> (string \<times> route_sentinel) list" where
  "validateHolderProof a pf expected now =
     (case pf of
        None \<Rightarrow> [(''agent_hok_proof_sha256'', Route_MissingObserved)]
      | Some p \<Rightarrow>
          concat (map compare_holder_field (holder_fields a p expected))
          @ (if hp_IssuedAt p > now then [(''iat'', Route_Future)] else [])
          @ (if hp_ExpiresAt p = 0 then [(''exp'', Route_MissingObserved)]
             else if now > hp_ExpiresAt p then [(''exp'', Route_Expired)] else [])
          @ (if isEmpty (ra_AgentHolderOfKeyProofSHA256 a) then [(''agent_hok_proof_sha256'', Route_MissingObserved)] else []))"

definition route_replayKey :: "route_Assertion \<Rightarrow> string" where
  "route_replayKey a = ra_Issuer a @ [CHR 0x00] @ ra_Audience a @ [CHR 0x00] @ ra_Tenant a @ [CHR 0x00]
     @ ra_AuthorityScope a @ [CHR 0x00] @ ra_RouteID a @ [CHR 0x00] @ ra_GrantHash a @ [CHR 0x00] @ ra_Nonce a"

definition route_Validate ::
    "go_time \<Rightarrow> route_Assertion \<Rightarrow> HolderOfKeyProof option \<Rightarrow> ExpectedRoute \<Rightarrow> 'c route_Options \<Rightarrow> 'c
     \<Rightarrow> route_error option \<times> 'c" where
  "route_Validate clock assertion pf expected opts c =
     (let now = (if rt_Now opts = 0 then clock else rt_Now opts);
          errs = validateCore assertion now @ compareExpected assertion expected
            @ (if er_RequireAgentHolderOfKeyProof expected then validateHolderProof assertion pf expected now else [])
      in if length errs > 0 then (Some (FieldErrors errs), c)
         else case rt_ReplayCache opts of
           None \<Rightarrow> (None, c)
         | Some mark \<Rightarrow>
             (case mark (route_replayKey assertion) (ra_ExpiresAt assertion) c of
                (None, c') \<Rightarrow> (None, c')
              | (Some e, c') \<Rightarrow>
                  (Some (if errors_is e ErrReplayDetected then Route_ReplayDetected else CacheError e), c')))"


section \<open>What the policy means\<close>

definition route_present :: "string \<Rightarrow> bool" where
  "route_present v \<longleftrightarrow> \<not> isEmpty v \<and> \<not> route_isUnsafe v"

text \<open>The assertion itself: of the right type and version, complete, and in its lifetime.\<close>

definition route_core_ok :: "route_Assertion \<Rightarrow> go_time \<Rightarrow> bool" where
  "route_core_ok a now \<longleftrightarrow> ra_Type a = AssertionType \<and> ra_Version a = 1
     \<and> (\<forall>(name, v) \<in> set (core_fields a). route_present v)
     \<and> ra_IssuedAt a \<noteq> 0 \<and> ra_IssuedAt a \<le> now \<and> ra_ExpiresAt a \<noteq> 0 \<and> now \<le> ra_ExpiresAt a"

text \<open>It is the expected route: the six mandatory expectations are set, and every expectation that is set is met.\<close>

definition route_expected_ok :: "route_Assertion \<Rightarrow> ExpectedRoute \<Rightarrow> bool" where
  "route_expected_ok a e \<longleftrightarrow>
     (\<forall>v \<in> {er_Issuer e, er_Audience e, er_RouteID e, er_PolicyID e, er_TargetAgent e, er_RequestContextSHA256 e}. \<not> isEmpty v)
     \<and> (\<forall>(name, want, got) \<in> set (expected_fields a e). \<not> isEmpty want \<longrightarrow> \<not> route_isUnsafe want \<and> got = want)"

text \<open>The holder's proof is for this route and its final agent, and in its lifetime.\<close>

definition holder_ok :: "route_Assertion \<Rightarrow> HolderOfKeyProof \<Rightarrow> ExpectedRoute \<Rightarrow> go_time \<Rightarrow> bool" where
  "holder_ok a p e now \<longleftrightarrow>
     (\<forall>(name, want, got) \<in> set (holder_fields a p e). \<not> isEmpty want \<longrightarrow> \<not> route_isUnsafe want \<and> got = want)
     \<and> hp_IssuedAt p \<le> now \<and> hp_ExpiresAt p \<noteq> 0 \<and> now \<le> hp_ExpiresAt p \<and> \<not> isEmpty (ra_AgentHolderOfKeyProofSHA256 a)"

definition route_ok :: "route_Assertion \<Rightarrow> HolderOfKeyProof option \<Rightarrow> ExpectedRoute \<Rightarrow> go_time \<Rightarrow> bool" where
  "route_ok a pf e now \<longleftrightarrow> route_core_ok a now \<and> route_expected_ok a e
     \<and> (er_RequireAgentHolderOfKeyProof e \<longrightarrow> (\<exists>p. pf = Some p \<and> holder_ok a p e now))"

lemma AssertionType_present: "route_present AssertionType"
  by (simp add: route_present_def isEmpty_def route_isUnsafe_def TrimSpace_ascii_head IsSpace_def)

lemma validateObserved_Nil: "validateObserved (name, v) = [] \<longleftrightarrow> route_present v"
  by (simp add: validateObserved_def route_present_def)

lemma compare_field_Nil: "compare_field (name, want, got) = [] \<longleftrightarrow> (\<not> isEmpty want \<longrightarrow> \<not> route_isUnsafe want \<and> got = want)"
  by (auto simp: compare_field_def)

lemma compare_holder_field_Nil:
  "compare_holder_field (name, want, got) = [] \<longleftrightarrow> (\<not> isEmpty want \<longrightarrow> \<not> route_isUnsafe want \<and> got = want)"
  by (auto simp: compare_holder_field_def)

lemma validateCore_Nil: "validateCore a now = [] \<longleftrightarrow> route_core_ok a now"
proof -
  have "concat (map validateObserved (core_fields a)) = [] \<longleftrightarrow> (\<forall>(name, v) \<in> set (core_fields a). route_present v)"
    using validateObserved_Nil by fastforce
  moreover have "ra_Type a \<noteq> []" if "\<forall>(name, v) \<in> set (core_fields a). route_present v"
    using that by (auto simp: core_fields_def route_present_def isEmpty_def)
  ultimately show ?thesis by (auto simp: validateCore_def route_core_ok_def)
qed

lemma compareExpected_Nil: "compareExpected a e = [] \<longleftrightarrow> route_expected_ok a e"
proof -
  have "concat (map compare_field (expected_fields a e)) = [] \<longleftrightarrow>
      (\<forall>(name, want, got) \<in> set (expected_fields a e). \<not> isEmpty want \<longrightarrow> \<not> route_isUnsafe want \<and> got = want)"
    using compare_field_Nil by fastforce
  then show ?thesis by (auto simp: compareExpected_def route_expected_ok_def)
qed

lemma validateHolderProof_Nil: "validateHolderProof a pf e now = [] \<longleftrightarrow> (\<exists>p. pf = Some p \<and> holder_ok a p e now)"
proof (cases pf)
  case (Some p)
  have "concat (map compare_holder_field (holder_fields a p e)) = [] \<longleftrightarrow>
      (\<forall>(name, want, got) \<in> set (holder_fields a p e). \<not> isEmpty want \<longrightarrow> \<not> route_isUnsafe want \<and> got = want)"
    using compare_holder_field_Nil by fastforce
  then show ?thesis using Some by (auto simp: validateHolderProof_def holder_ok_def)
qed (simp add: validateHolderProof_def)


end
