(* ===== verification/ATLS_Frame.thy ===== *)
theory ATLS_Frame
  imports EA_Codec
begin

text \<open>
  Frames of the aTLS transport, \<open>pkg/atls/internal_transport/protocol.go\<close>: one type byte, the length of the
  payload in four bytes and the payload. Connections are parameters: a write returns the number of bytes taken
  and maybe an error, a read the bytes read and maybe an error; both return the connection after the call.
  \<open>writer_contract\<close> and \<open>reader_contract\<close> state what \<open>io.Writer\<close> and \<open>io.Reader\<close> promise. The loops may not end on a
  connection that makes no progress; \<open>None\<close> is a call that does not return.
\<close>

datatype io_error = EOF | ErrUnexpectedEOF | IOError string

datatype frame_error = PayloadTooLarge nat | InvalidFrameType | FrameIO io_error | SliceOutOfRange

abbreviation (input) frameTypeRequest :: byte where "frameTypeRequest \<equiv> 1"
abbreviation (input) frameTypeAuthenticator :: byte where "frameTypeAuthenticator \<equiv> 2"

definition maxFramePayloadLen :: nat where
  "maxFramePayloadLen = 16 * 2 ^ 20"

text \<open>\<open>binary.BigEndian.PutUint32\<close> and \<open>Uint32\<close>\<close>

definition putUint32 :: "32 word \<Rightarrow> bytes" where
  "putUint32 v = [ucast (drop_bit 24 v), ucast (drop_bit 16 v), ucast (drop_bit 8 v), ucast v]"

definition Uint32 :: "bytes \<Rightarrow> 32 word" where
  "Uint32 b = ucast (b ! 3) OR push_bit 8 (ucast (b ! 2)) OR push_bit 16 (ucast (b ! 1)) OR push_bit 24 (ucast (b ! 0))"

type_synonym 'w writer = "bytes \<Rightarrow> 'w \<Rightarrow> (nat \<times> io_error option) \<times> 'w"
type_synonym 'r reader = "nat \<Rightarrow> 'r \<Rightarrow> (bytes \<times> io_error option) \<times> 'r"

partial_function (option) writeAll :: "'w writer \<Rightarrow> bytes \<Rightarrow> 'w \<Rightarrow> (frame_error option \<times> 'w) option" where
  "writeAll write b w =
     (if length b > 0
      then (case write b w of
              ((n, Some e), w') \<Rightarrow> Some (Some (FrameIO e), w')
            | ((n, None), w') \<Rightarrow>
                if n > length b then Some (Some SliceOutOfRange, w') else writeAll write (drop n b) w')
      else Some (None, w))"

definition writeFrame :: "'w writer \<Rightarrow> byte \<Rightarrow> bytes \<Rightarrow> 'w \<Rightarrow> (frame_error option \<times> 'w) option" where
  "writeFrame write typ payload w =
     (if length payload > maxFramePayloadLen then Some (Some (PayloadTooLarge (length payload)), w)
      else let header = typ # putUint32 (word_of_nat (length payload)) in
        case writeAll write header w of
          None \<Rightarrow> None
        | Some (Some e, w') \<Rightarrow> Some (Some e, w')
        | Some (None, w') \<Rightarrow>
            if length payload = 0 then Some (None, w') else writeAll write payload w')"

text \<open>
  \<open>io.ReadFull\<close> into a buffer of \<open>k\<close> bytes, of which \<open>acc\<close> are filled: it reads while no error is reported; an
  error is dropped if the buffer is full, and \<open>EOF\<close> after some bytes is \<open>ErrUnexpectedEOF\<close>.
\<close>

partial_function (option) read_full :: "'r reader \<Rightarrow> nat \<Rightarrow> bytes \<Rightarrow> 'r \<Rightarrow> ((io_error + bytes) \<times> 'r) option" where
  "read_full read k acc r =
     (if length acc < k
      then (case read (k - length acc) r of
              ((bs, None), r') \<Rightarrow> read_full read k (acc @ bs) r'
            | ((bs, Some e), r') \<Rightarrow>
                if length (acc @ bs) \<ge> k then Some (Inr (acc @ bs), r')
                else if length (acc @ bs) > 0 \<and> e = EOF then Some (Inl ErrUnexpectedEOF, r')
                else Some (Inl e, r'))
      else Some (Inr acc, r))"

definition readFrame :: "'r reader \<Rightarrow> 'r \<Rightarrow> ((frame_error + byte \<times> bytes) \<times> 'r) option" where
  "readFrame read r =
     (case read_full read 5 [] r of
        None \<Rightarrow> None
      | Some (Inl e, r') \<Rightarrow> Some (Inl (FrameIO e), r')
      | Some (Inr header, r') \<Rightarrow>
          if header ! 0 = 0 then Some (Inl InvalidFrameType, r')
          else let n = Uint32 (drop 1 header) in
            if n > word_of_nat maxFramePayloadLen then Some (Inl (PayloadTooLarge (unat n)), r')
            else (case read_full read (unat n) [] r' of
                    None \<Rightarrow> None
                  | Some (Inl e, r'') \<Rightarrow> Some (Inl (FrameIO e), r'')
                  | Some (Inr payload, r'') \<Rightarrow> Some (Inr (header ! 0, payload), r'')))"


section \<open>What the connections promise\<close>

text \<open>
  A write of a non-empty slice without error takes at least one byte and at most all, and those are sent. (The
  documented promise is stronger: without error it takes all.) \<open>sent\<close> is the byte stream written so far.
\<close>

definition writer_contract :: "'w writer \<Rightarrow> ('w \<Rightarrow> bytes) \<Rightarrow> bool" where
  "writer_contract write sent \<longleftrightarrow>
     (\<forall>b w n w'. write b w = ((n, None), w') \<longrightarrow> b \<noteq> [] \<longrightarrow> 0 < n \<and> n \<le> length b \<and> sent w' = sent w @ take n b)"

text \<open>
  A read of at most \<open>k > 0\<close> bytes returns at most \<open>k\<close> bytes, the next ones of the stream; without error at least
  one, and with an error none are left. \<open>incoming\<close> is the byte stream still to be read.
\<close>

definition reader_contract :: "'r reader \<Rightarrow> ('r \<Rightarrow> bytes) \<Rightarrow> bool" where
  "reader_contract read incoming \<longleftrightarrow>
     (\<forall>k r bs e r'. read k r = ((bs, e), r') \<longrightarrow> 0 < k \<longrightarrow> length bs \<le> k \<and> incoming r = bs @ incoming r'
        \<and> (if e = None then bs \<noteq> [] else incoming r' = []))"

definition frame_bytes :: "byte \<Rightarrow> bytes \<Rightarrow> bytes" where
  "frame_bytes typ payload = typ # putUint32 (word_of_nat (length payload)) @ payload"


section \<open>Lengths\<close>

lemma Uint32_put [simp]: "Uint32 (putUint32 v @ r) = v"
proof (rule bit_word_eqI)
  fix n
  assume "n < LENGTH(32)"
  then show "bit (Uint32 (putUint32 v @ r)) n = bit v n"
    by (cases "n < 8"; cases "n < 16"; cases "n < 24") (auto simp: Uint32_def putUint32_def bit_simps)
qed

lemma putUint32_read: "putUint32 (Uint32 (a # b # c # d # r)) = [a, b, c, d]"
proof -
  have "ucast (drop_bit 24 (Uint32 (a # b # c # d # r))) = a" "ucast (drop_bit 16 (Uint32 (a # b # c # d # r))) = b"
    "ucast (drop_bit 8 (Uint32 (a # b # c # d # r))) = c" "ucast (Uint32 (a # b # c # d # r)) = d"
    by (rule bit_word_eqI, auto simp: Uint32_def bit_simps dest: bit_imp_le_length)+
  then show ?thesis by (simp add: putUint32_def)
qed

lemma putUint32_length [simp]: "length (putUint32 v) = 4"
  by (simp add: putUint32_def)


section \<open>Writing\<close>

lemma writeAll_returns:
  assumes "writer_contract write sent"
  shows "\<exists>e w'. writeAll write b w = Some (e, w') \<and> (e = None \<longrightarrow> sent w' = sent w @ b)"
proof (induction b arbitrary: w rule: length_induct)
  case (1 b)
  show ?case
  proof (cases "b = []")
    case True
    then show ?thesis by (subst writeAll.simps) simp
  next
    case False
    obtain n e w' where wr: "write b w = ((n, e), w')" by (metis surj_pair)
    show ?thesis
    proof (cases e)
      case (Some x)
      then show ?thesis using False wr by (subst writeAll.simps) simp
    next
      case None
      with assms wr False have n: "0 < n" "n \<le> length b" "sent w' = sent w @ take n b"
        by (auto simp: writer_contract_def)
      then have "length (drop n b) < length b" using False by simp
      with "1.IH" obtain e' w'' where "writeAll write (drop n b) w' = Some (e', w'')" "e' = None \<longrightarrow> sent w'' = sent w' @ drop n b"
        by metis
      moreover have "writeAll write b w = writeAll write (drop n b) w'"
        using False wr None n by (subst writeAll.simps) simp
      ultimately show ?thesis using n(3) by simp
    qed
  qed
qed

lemma writeFrame_returns:
  assumes "writer_contract write sent"
  shows "\<exists>e w'. writeFrame write typ payload w = Some (e, w')
    \<and> (e = None \<longrightarrow> length payload \<le> maxFramePayloadLen \<and> sent w' = sent w @ frame_bytes typ payload)"
proof (cases "length payload > maxFramePayloadLen")
  case True
  then show ?thesis by (simp add: writeFrame_def)
next
  case False
  obtain e w1 where h: "writeAll write (typ # putUint32 (word_of_nat (length payload))) w = Some (e, w1)"
      "e = None \<longrightarrow> sent w1 = sent w @ (typ # putUint32 (word_of_nat (length payload)))"
    using writeAll_returns [OF assms] by blast
  obtain e' w2 where p: "writeAll write payload w1 = Some (e', w2)" "e' = None \<longrightarrow> sent w2 = sent w1 @ payload"
    using writeAll_returns [OF assms] by blast
  show ?thesis
    using False h p by (cases e; cases "payload = []") (auto simp: writeFrame_def Let_def frame_bytes_def)
qed


section \<open>Reading\<close>

text \<open>\<open>io.ReadFull\<close> returns; it succeeds exactly when the stream has the bytes, and then takes just those.\<close>

lemma read_full_returns:
  assumes "reader_contract read incoming" "length acc \<le> k"
  shows "\<exists>res r'. read_full read k acc r = Some (res, r') \<and> (\<exists>taken. incoming r = taken @ incoming r' \<and> length acc + length taken \<le> k
    \<and> (case res of Inl e \<Rightarrow> length (acc @ incoming r) < k | Inr bs \<Rightarrow> bs = acc @ taken \<and> length bs = k))"
  using assms(2)
proof (induction "k - length acc" arbitrary: acc r rule: less_induct)
  case less
  show ?case
  proof (cases "length acc < k")
    case False
    then show ?thesis using less.prems by (subst read_full.simps) simp
  next
    case True
    obtain bs e r' where rd: "read (k - length acc) r = ((bs, e), r')" by (metis surj_pair)
    with assms(1) True have c: "length bs \<le> k - length acc" "incoming r = bs @ incoming r'"
        "if e = None then bs \<noteq> [] else incoming r' = []"
      unfolding reader_contract_def by (metis zero_less_diff)+
    show ?thesis
    proof (cases e)
      case (Some x)
      then show ?thesis
        using True rd c less.prems by (subst read_full.simps) (auto intro!: exI [of _ bs])
    next
      case None
      then have "k - length (acc @ bs) < k - length acc" "length (acc @ bs) \<le> k"
        using c True by (cases bs; simp)+
      from less.hyps [OF this] obtain res r'' taken where IH: "read_full read k (acc @ bs) r' = Some (res, r'')"
          "incoming r' = taken @ incoming r''" "length (acc @ bs) + length taken \<le> k"
          "case res of Inl e \<Rightarrow> length ((acc @ bs) @ incoming r') < k | Inr bs' \<Rightarrow> bs' = (acc @ bs) @ taken \<and> length bs' = k"
        by blast
      have "read_full read k acc r = read_full read k (acc @ bs) r'"
        using True rd None by (subst read_full.simps) simp
      with IH c(2) show ?thesis
        by (intro exI [of _ res] exI [of _ r''] conjI exI [of _ "bs @ taken"]) (auto split: sum.splits)
    qed
  qed
qed

lemma read_full_iff:
  assumes "reader_contract read incoming"
  shows "(\<exists>r'. read_full read k [] r = Some (Inr bs, r') \<and> incoming r' = rest) \<longleftrightarrow> length bs = k \<and> incoming r = bs @ rest"
proof -
  obtain res r' taken where R: "read_full read k [] r = Some (res, r')" "incoming r = taken @ incoming r'" "length taken \<le> k"
      "case res of Inl e \<Rightarrow> length (incoming r) < k | Inr bs \<Rightarrow> bs = taken \<and> length bs = k"
    using read_full_returns [OF assms, of "[]" k r] unfolding append_Nil list.size add_0 by blast
  show ?thesis
  proof (cases res)
    case (Inl e)
    then have "length (incoming r) < k" using R(4) by simp
    then show ?thesis using R(1) Inl by auto
  next
    case (Inr b)
    from R(4) have "b = taken \<and> length b = k" unfolding Inr sum.case .
    then have b: "b = taken" "length taken = k" by auto
    have "bs = taken \<and> incoming r' = rest \<longleftrightarrow> length bs = k \<and> incoming r = bs @ rest"
      unfolding R(2) using b(2) by (cases "length bs = k") (auto simp: append_eq_append_conv)
    then show ?thesis using R(1) Inr b(1) by auto
  qed
qed


lemma unat_max: "unat (word_of_nat maxFramePayloadLen :: 32 word) = maxFramePayloadLen"
  by (simp add: maxFramePayloadLen_def)

lemma length_word:
  assumes "n \<le> maxFramePayloadLen"
  shows "unat (word_of_nat n :: 32 word) = n" "\<not> word_of_nat n > (word_of_nat maxFramePayloadLen :: 32 word)"
proof -
  have "n < 2 ^ LENGTH(32)" using assms by (simp add: maxFramePayloadLen_def)
  then show u: "unat (word_of_nat n :: 32 word) = n" by (simp add: unat_of_nat)
  show "\<not> word_of_nat n > (word_of_nat maxFramePayloadLen :: 32 word)"
    using assms by (simp add: word_less_nat_alt u unat_max)
qed

lemma readFrame_Some:
  "readFrame read r = Some (Inr (typ, payload), r') \<longleftrightarrow>
     (\<exists>header r1. read_full read 5 [] r = Some (Inr header, r1) \<and> header ! 0 = typ \<and> typ \<noteq> 0
        \<and> \<not> Uint32 (drop 1 header) > word_of_nat maxFramePayloadLen
        \<and> read_full read (unat (Uint32 (drop 1 header))) [] r1 = Some (Inr payload, r'))"
  by (auto simp: readFrame_def Let_def split: option.splits sum.splits if_splits)

text \<open>
  \<open>readFrame\<close> returns type and payload, leaving \<open>rest\<close> unread, exactly when the stream starts with the encoding of a
  frame of that type, not zero, and payload, of at most 16 MiB, followed by \<open>rest\<close>.
\<close>

lemma readFrame_iff:
  assumes "reader_contract read incoming"
  shows "(\<exists>r'. readFrame read r = Some (Inr (typ, payload), r') \<and> incoming r' = rest) \<longleftrightarrow>
    typ \<noteq> 0 \<and> length payload \<le> maxFramePayloadLen \<and> incoming r = frame_bytes typ payload @ rest" (is "?L \<longleftrightarrow> ?R")
proof
  assume ?L
  then obtain r' header r1 where a: "read_full read 5 [] r = Some (Inr header, r1)" "header ! 0 = typ" "typ \<noteq> 0"
      "\<not> Uint32 (drop 1 header) > word_of_nat maxFramePayloadLen"
      "read_full read (unat (Uint32 (drop 1 header))) [] r1 = Some (Inr payload, r')" "incoming r' = rest"
    unfolding readFrame_Some by blast
  let ?n = "Uint32 (drop 1 header)"
  have h: "length header = 5" "incoming r = header @ incoming r1"
    using read_full_iff [OF assms, of 5 r header "incoming r1"] a(1) by auto
  have p: "length payload = unat ?n" "incoming r1 = payload @ rest"
    using read_full_iff [OF assms, of "unat ?n" r1 payload rest] a(5,6) by auto
  obtain t b c d e where hd: "header = [t, b, c, d, e]" using h(1) by (auto simp: numeral_eq_Suc length_Suc_conv)
  have "word_of_nat (length payload) = ?n" using p(1) by simp
  then have "header = typ # putUint32 (word_of_nat (length payload))"
    using hd a(2) putUint32_read [of b c d e "[]"] by simp
  moreover have "length payload \<le> maxFramePayloadLen" using a(4) p(1) by (simp add: word_less_nat_alt unat_max)
  ultimately show ?R using a(3) h(2) p(2) by (simp add: frame_bytes_def)
next
  assume R: ?R
  let ?header = "typ # putUint32 (word_of_nat (length payload))"
  obtain r1 where h: "read_full read 5 [] r = Some (Inr ?header, r1)" "incoming r1 = payload @ rest"
    using read_full_iff [OF assms, of 5 r ?header "payload @ rest"] R by (auto simp: frame_bytes_def)
  obtain r' where p: "read_full read (length payload) [] r1 = Some (Inr payload, r')" "incoming r' = rest"
    using read_full_iff [OF assms, of "length payload" r1 payload rest] h(2) by auto
  have "Uint32 (drop 1 ?header) = word_of_nat (length payload)" using Uint32_put [of _ "[]"] by simp
  then show ?L unfolding readFrame_Some using h p R length_word [of "length payload"] by auto
qed

text \<open>Reading returns on every stream, and takes no more than a header and the largest payload.\<close>

lemma readFrame_returns:
  assumes "reader_contract read incoming"
  shows "\<exists>res r' taken. readFrame read r = Some (res, r') \<and> incoming r = taken @ incoming r' \<and> length taken \<le> 5 + maxFramePayloadLen"
proof -
  obtain res r1 t1 where h: "read_full read 5 [] r = Some (res, r1)" "incoming r = t1 @ incoming r1" "length t1 \<le> 5"
    using read_full_returns [OF assms, of "[]" 5 r] unfolding append_Nil list.size add_0 by blast
  show ?thesis
  proof (cases res)
    case (Inl e)
    then show ?thesis using h by (intro exI [of _ "Inl (FrameIO e)"] exI [of _ r1] exI [of _ t1]) (simp add: readFrame_def)
  next
    case (Inr header)
    let ?n = "Uint32 (drop 1 header)"
    obtain res' r2 t2 where p: "read_full read (unat ?n) [] r1 = Some (res', r2)" "incoming r1 = t2 @ incoming r2" "length t2 \<le> unat ?n"
      using read_full_returns [OF assms, of "[]" "unat ?n" r1] unfolding append_Nil list.size add_0 by blast
    show ?thesis
    proof (cases "header ! 0 = 0 \<or> ?n > word_of_nat maxFramePayloadLen")
      case True
      then have "\<exists>res. readFrame read r = Some (res, r1)" using h(1) Inr by (auto simp: readFrame_def Let_def)
      then show ?thesis using h(2,3) by (metis trans_le_add1)
    next
      case False
      then have "unat ?n \<le> maxFramePayloadLen" by (simp add: word_less_nat_alt unat_max)
      then have "length (t1 @ t2) \<le> 5 + maxFramePayloadLen" using h(3) p(3) by simp
      moreover have "\<exists>res. readFrame read r = Some (res, r2)"
        using False h Inr p by (cases res') (simp_all add: readFrame_def Let_def)
      moreover have "incoming r = (t1 @ t2) @ incoming r2" using h(2) p(2) by simp
      ultimately show ?thesis by blast
    qed
  qed
qed


text \<open>Reading a frame keeps whatever single reads keep.\<close>

lemma read_full_keeps:
  assumes "read_full read k acc r = Some (res, r')" "\<forall>k r. keep (snd (read k r)) = keep r"
  shows "keep r' = keep r"
proof -
  have "(\<forall>k r. keep (snd (read k r)) = keep r) \<longrightarrow> keep (snd (res, r')) = keep r"
  proof (rule read_full.raw_induct [where P = "\<lambda>read k acc r y. (\<forall>k r. keep (snd (read k r)) = keep r) \<longrightarrow> keep (snd y) = keep r", OF _ assms(1)])
  qed (auto split: if_splits prod.splits option.splits, (metis snd_conv)+)
  then show ?thesis using assms(2) by simp
qed

lemma readFrame_keeps:
  assumes "readFrame read r = Some (Inr (t, payload), r')" "\<forall>k r. keep (snd (read k r)) = keep r"
  shows "keep r' = keep r"
  using assms read_full_keeps [OF _ assms(2)] unfolding readFrame_Some by metis


section \<open>Round trip and bounds\<close>

text \<open>
  C38: a frame arrives as it was sent. If a frame of a type other than zero has been written without error, a
  reader whose stream continues with what the writer sent returns that type and payload and stands right behind
  the frame.
\<close>

theorem frame_round_trip:
  assumes "writer_contract write sent" "reader_contract read incoming"
    and "writeFrame write typ payload w = Some (None, w')" "typ \<noteq> 0" "sent w @ incoming r = sent w' @ rest"
  shows "\<exists>r'. readFrame read r = Some (Inr (typ, payload), r') \<and> incoming r' = rest"
proof -
  have "length payload \<le> maxFramePayloadLen" "sent w' = sent w @ frame_bytes typ payload"
    using writeFrame_returns [OF assms(1), of "typ" payload w] assms(3) by auto
  then show ?thesis using assms(4,5) unfolding readFrame_iff [OF assms(2)] by simp
qed

text \<open>
  C39: framing ends, whatever the peer sends. On connections that make progress, writing a frame returns, refusing
  a payload of more than 16 MiB before any byte is sent, and reading a frame returns, having taken at most the five
  bytes of a header and 16 MiB from the stream, whatever length the header announces.
\<close>

theorem frames_end_and_are_bounded:
  assumes "writer_contract write sent" "reader_contract read incoming"
  shows "(\<exists>e w'. writeFrame write typ payload w = Some (e, w')
        \<and> (length payload > 16 * 2 ^ 20 \<longrightarrow> e = Some (PayloadTooLarge (length payload)) \<and> w' = w))
    \<and> (\<exists>res r' taken. readFrame read r = Some (res, r') \<and> incoming r = taken @ incoming r' \<and> length taken \<le> 5 + 16 * 2 ^ 20)"
proof -
  obtain e w' where "writeFrame write typ payload w = Some (e, w')" using writeFrame_returns [OF assms(1)] by blast
  moreover have "e = Some (PayloadTooLarge (length payload)) \<and> w' = w" if "length payload > 16 * 2 ^ 20"
    using calculation that by (simp add: writeFrame_def maxFramePayloadLen_def)
  ultimately show ?thesis using readFrame_returns [OF assms(2), of r] unfolding maxFramePayloadLen_def by blast
qed

text \<open>A connection that carries one byte per call.\<close>

definition byte_write :: "bytes writer" where
  "byte_write b w = ((if b = [] then 0 else 1, None), w @ take 1 b)"

definition byte_read :: "bytes reader" where
  "byte_read k r = (if r = [] then (([], Some EOF), []) else ((take (min 1 k) r, None), drop (min 1 k) r))"

lemma byte_contracts: "writer_contract byte_write (\<lambda>w. w)" "reader_contract byte_read (\<lambda>r. r)"
  by (auto simp: writer_contract_def byte_write_def Suc_le_eq)
    (auto simp: reader_contract_def byte_read_def split: if_splits)

lemma byte_written: "writeFrame byte_write 1 [7] [] = Some (None, [1, 0, 0, 0, 1, 7])"
  by (simp add: writeFrame_def maxFramePayloadLen_def putUint32_def byte_write_def writeAll.simps)

theorem frame_round_trip_witness: "\<exists>r'. readFrame byte_read [1, 0, 0, 0, 1, 7, 9] = Some (Inr (1, [7]), r') \<and> r' = [9]"
  by (rule frame_round_trip [OF byte_contracts byte_written]) simp_all

theorem frames_end_and_are_bounded_witness:
  "(\<exists>e w'. writeFrame byte_write 1 (replicate (2 ^ 24 + 1) 0) [] = Some (e, w') \<and> w' = [])
   \<and> (\<exists>res r' taken. readFrame byte_read [1, 255, 255, 255, 255, 7] = Some (res, r') \<and> [1, 255, 255, 255, 255, 7] = taken @ r'
       \<and> length taken \<le> 5 + 16 * 2 ^ 20)"
  using frames_end_and_are_bounded [OF byte_contracts, of 1 "replicate (2 ^ 24 + 1) 0" "[]" "[1, 255, 255, 255, 255, 7]"]
  by (elim conjE exE) (rule conjI; intro exI conjI; simp?)

end
