(* ===== verification/ATLS_Transport.thy ===== *)
theory ATLS_Transport
  imports ATLS_Frame EA_Authenticator Session_Binding
begin

text \<open>
  The aTLS transport, \<open>pkg/atls/internal_transport\<close> (\<open>conn.go\<close>, \<open>listener.go\<close>) and \<open>pkg/atls/identity_binding.go\<close>: the
  client asks for an authenticator on an established TLS connection, validates it with its attestation and checks
  the identity policy; the server answers. A TLS connection is the record of operations \<open>tls_conn\<close> on a
  connection state; a call that never returns is \<open>None\<close>. The state a call works on, \<open>world\<close>, is the connection,
  the authenticator session (\<open>None\<close> when nil) and the content of the replay cache.
\<close>


section \<open>Connections and configurations\<close>

datatype source_error = ErrMissingObservedIdentity | SourceError string | GrantError go_error

datatype transport_error = MissingClientConfig | MissingClientContext | MissingServerConfig | MissingTLSConfig
  | ConnError string | FrameError frame_error | AuthError auth_error | UnexpectedFrameType byte
  | TrailingRequestBytes | CMWNotOffered | MissingServerIdentity | MissingServerLeaf
  | CallbackError string \<comment> \<open>an error of a callback of the configuration\<close>
  | ObservedIdentityFailed source_error | MissingValidation | MissingValidatedLeaf | MissingRequestContext
  | BindingFailed att_error | IdentityRejected go_error | IdentityReplayed go_error
  | ContextError string | NilRequest
  | MissingConnectionState | HandshakeIncomplete | NotTLS13

text \<open>
  The operations of \<open>*tls.Conn\<close>; the deadline 0 is the zero time, which clears it. Cancelling a context without
  deadline sets a deadline from another goroutine: for the code that runs, reads and writes that fail.
\<close>

record 'n tls_conn =
  tc_Handshake :: "'n \<Rightarrow> string option \<times> 'n"
  tc_Read :: "'n reader"
  tc_Write :: "'n writer"
  tc_State :: "'n \<Rightarrow> tls_state"
  tc_SetDeadline :: "go_time \<Rightarrow> 'n \<Rightarrow> string option \<times> 'n"
  tc_Close :: "'n \<Rightarrow> 'n"

record 'n go_context =
  ctx_Deadline :: "go_time option"
  ctx_Err :: "'n \<Rightarrow> string option" \<comment> \<open>read when the call is over\<close>

record ('n, 'c) world =
  w_Net :: 'n
  w_Session :: "Session option"
  w_Replay :: 'c

type_synonym ('n, 'c, 'a) run = "((transport_error + 'a) \<times> ('n, 'c) world) option"

record Conn =
  cn_Request :: AuthenticatorRequest
  cn_ValidationResult :: "ValidationResult option"

record ('o, 'c) ClientConfig =
  cc_VerifyOptions :: "'o option"
  cc_AttestationPolicy :: VerificationPolicy
  cc_IdentityPolicy :: Policy
  cc_ObservedIdentity :: "(tls_state \<Rightarrow> ValidationResult \<Rightarrow> string + Assertion) option"
  cc_IdentityGrant :: "VerifiedGrant option"
  cc_IdentityBinding :: "VerifiedSessionBindingStatement option"
  cc_IdentityReplay :: "'c replay_cache"
  cc_Request :: "AuthenticatorRequest option"
  cc_RequestBuilder :: "(string + AuthenticatorRequest option) option" \<comment> \<open>what the builder returns\<close>

record ServerConfig =
  sc_Certificates :: "tls_identity list" \<comment> \<open>\<open>TLSConfig.Certificates\<close>, empty when there is no \<open>TLSConfig\<close>\<close>
  sc_Identity :: tls_identity
  sc_BuildLeafExtensions :: "(tls_state \<Rightarrow> AuthenticatorRequest \<Rightarrow> key certificate \<Rightarrow> string + Extension list) option"


section \<open>The identity policy\<close>

definition ExpectedIdentityBinding :: "'o crypto_env \<Rightarrow> ValidationResult option \<Rightarrow> transport_error + Binding" where
  "ExpectedIdentityBinding env validation =
     (case validation of
        None \<Rightarrow> Inl MissingValidation
      | Some v \<Rightarrow>
          if length (VR_Chain v) = 0 then Inl MissingValidatedLeaf
          else if length (VR_Context v) = 0 then Inl MissingRequestContext
          else case PublicKeyBytes (MarshalPKIXPublicKey env) (Some (VR_Chain v ! 0)) of
            Inl e \<Rightarrow> Inl (BindingFailed e)
          | Inr pub \<Rightarrow>
              let hash = (\<lambda>b. EncodeToString (digest (prim env) SHA256 b));
                  binding = \<lparr>LeafPublicKeySHA256 = hash pub, TLSExporterSHA256 = [], RequestContextSHA256 = hash (VR_Context v),
                    AttestationBinderSHA256 = [], Nonce = [], IssuedAt = 0, ExpiresAt = 0\<rparr>
              in Inr (case VR_Attestation v of
                   None \<Rightarrow> binding
                 | Some att \<Rightarrow>
                     if BindingVerified att
                     then (if length (ExportedValue (VP_Binding att)) > 0
                           then binding\<lparr>TLSExporterSHA256 := hash (ExportedValue (VP_Binding att))\<rparr> else binding)
                         \<lparr>AttestationBinderSHA256 := hash (BinderBinding (Binder (VP_Payload att)))\<rparr>
                     else binding))"

definition observedIdentityAssertion ::
    "('o, 'c) ClientConfig \<Rightarrow> tls_state \<Rightarrow> ValidationResult \<Rightarrow> go_time
     \<Rightarrow> source_error + Assertion \<times> VerifiedSessionBindingStatement option" where
  "observedIdentityAssertion cfg st validation now =
     (case cc_ObservedIdentity cfg of
        Some f \<Rightarrow> (case f st validation of Inl e \<Rightarrow> Inl (SourceError e) | Inr a \<Rightarrow> Inr (a, None))
      | None \<Rightarrow>
          (case (cc_IdentityGrant cfg, cc_IdentityBinding cfg) of
             (Some grant, Some statement) \<Rightarrow>
               (case NewAssertionFromSessionBinding grant statement now of
                  Inl e \<Rightarrow> Inl (GrantError e)
                | Inr a \<Rightarrow> Inr (a, Some statement))
           | _ \<Rightarrow> Inl ErrMissingObservedIdentity))"

definition validateIdentityPolicy ::
    "'o crypto_env \<Rightarrow> ('o, 'c) ClientConfig \<Rightarrow> tls_state \<Rightarrow> ValidationResult \<Rightarrow> go_time \<Rightarrow> 'c
     \<Rightarrow> transport_error option \<times> 'c" where
  "validateIdentityPolicy env cfg st validation now c =
     (if \<not> Policy_Enabled (cc_IdentityPolicy cfg) then (None, c)
      else case observedIdentityAssertion cfg st validation now of
        Inl e \<Rightarrow> (Some (ObservedIdentityFailed e), c)
      | Inr (assertion, statement) \<Rightarrow>
          (case ExpectedIdentityBinding env (Some validation) of
             Inl e \<Rightarrow> (Some e, c)
           | Inr expectedBinding \<Rightarrow>
               (case ValidateAssertion (cc_IdentityPolicy cfg) assertion expectedBinding now of
                  Some e \<Rightarrow> (Some (IdentityRejected e), c)
                | None \<Rightarrow>
                    (case statement of
                       None \<Rightarrow> (None, c)
                     | Some s \<Rightarrow>
                         (case MarkSessionBindingUsed (cc_IdentityReplay cfg) s c of
                            (Some e, c') \<Rightarrow> (Some (IdentityReplayed e), c')
                          | (None, c') \<Rightarrow> (None, c'))))))"

text \<open>\<open>tls.ConnectionState\<close> with its flag \<open>HandshakeComplete\<close>.\<close>

definition IdentityBindingFromConnectionState ::
    "'o crypto_env \<Rightarrow> (tls_state \<times> bool) option \<Rightarrow> ValidationResult option \<Rightarrow> transport_error + Binding" where
  "IdentityBindingFromConnectionState env state validation =
     (case state of
        None \<Rightarrow> Inl MissingConnectionState
      | Some (st, handshakeComplete) \<Rightarrow>
          if \<not> handshakeComplete then Inl HandshakeIncomplete
          else if Version st \<noteq> VersionTLS13 then Inl NotTLS13
          else case ExpectedIdentityBinding env validation of
            Inl e \<Rightarrow> Inl e
          | Inr binding \<Rightarrow>
              (case ExportAttestationValue st ExporterLabelAttestation (VR_Context (the validation)) of
                 Inl e \<Rightarrow> Inl (BindingFailed e)
               | Inr (exported, _) \<Rightarrow>
                   Inr (binding\<lparr>TLSExporterSHA256 := EncodeToString (digest (prim env) SHA256 exported)\<rparr>)))"


section \<open>The client\<close>

definition buildRequest :: "'o crypto_env \<Rightarrow> ('o, 'c) ClientConfig \<Rightarrow> transport_error + AuthenticatorRequest option" where
  "buildRequest env cfg =
     (case cc_RequestBuilder cfg of
        Some result \<Rightarrow> (case result of Inl e \<Rightarrow> Inl (CallbackError e) | Inr req \<Rightarrow> Inr req)
      | None \<Rightarrow>
          (case cc_Request cfg of
             Some req \<Rightarrow> Inr (Some req)
           | None \<Rightarrow>
               (case NewRandomContext env 32 of
                  Inl e \<Rightarrow> Inl (AuthError e)
                | Inr ctx \<Rightarrow>
                    (case SignatureAlgorithmsExtension [ECDSAWithP256AndSHA256] of
                       Inl e \<Rightarrow> Inl (AuthError (EAErr e))
                     | Inr sigExt \<Rightarrow>
                         Inr (Some \<lparr>req_Type = HandshakeTypeClientCertificateRequest, req_Context = ctx,
                           req_Extensions = [sigExt, CMWAttestationOfferExtension]\<rparr>)))))"

text \<open>What is done with the authenticator of the server: validation, then the identity policy.\<close>

definition check_authenticator ::
    "'o crypto_env \<Rightarrow> ('o, 'c) ClientConfig \<Rightarrow> tls_state \<Rightarrow> AuthenticatorRequest \<Rightarrow> bytes \<Rightarrow> go_time \<Rightarrow> ('n, 'c) world
     \<Rightarrow> (transport_error + Conn) \<times> ('n, 'c) world" where
  "check_authenticator env cfg st req authBytes now w =
     (case (case w_Session w of
              Some _ \<Rightarrow> Session_ValidateAuthenticatorWithAttestation env (w_Session w) st RoleServer (Some req) authBytes
                 (cc_VerifyOptions cfg) (cc_AttestationPolicy cfg)
            | None \<Rightarrow> (ValidateAuthenticatorWithAttestation env st RoleServer (Some req) authBytes
                 (cc_VerifyOptions cfg) (cc_AttestationPolicy cfg), None)) of
        (Inl e, session) \<Rightarrow> (Inl (AuthError e), w\<lparr>w_Session := session\<rparr>)
      | (Inr validation, session) \<Rightarrow>
          (case validateIdentityPolicy env cfg st validation now (w_Replay w) of
             (Some e, c) \<Rightarrow> (Inl e, w\<lparr>w_Session := session, w_Replay := c\<rparr>)
           | (None, c) \<Rightarrow>
               (Inr \<lparr>cn_Request = req, cn_ValidationResult = Some validation\<rparr>, w\<lparr>w_Session := session, w_Replay := c\<rparr>)))"

definition client_session ::
    "'o crypto_env \<Rightarrow> 'n tls_conn \<Rightarrow> ('o, 'c) ClientConfig \<Rightarrow> go_time \<Rightarrow> ('n, 'c) world \<Rightarrow> ('n, 'c, Conn) run" where
  "client_session env conn cfg now w =
     (case tc_Handshake conn (w_Net w) of
        (Some e, n) \<Rightarrow> Some (Inl (ConnError e), w\<lparr>w_Net := n\<rparr>)
      | (None, n) \<Rightarrow>
     (case buildRequest env cfg of
        Inl e \<Rightarrow> Some (Inl e, w\<lparr>w_Net := n\<rparr>)
      | Inr None \<Rightarrow> Some (Inl NilRequest, w\<lparr>w_Net := n\<rparr>)
      | Inr (Some req) \<Rightarrow>
     (case AuthenticatorRequest_Marshal req of
        Inl e \<Rightarrow> Some (Inl (AuthError (EAErr e)), w\<lparr>w_Net := n\<rparr>)
      | Inr reqBytes \<Rightarrow>
     (case writeFrame (tc_Write conn) frameTypeRequest reqBytes n of
        None \<Rightarrow> None
      | Some (Some e, n) \<Rightarrow> Some (Inl (FrameError e), w\<lparr>w_Net := n\<rparr>)
      | Some (None, n) \<Rightarrow>
     (case readFrame (tc_Read conn) n of
        None \<Rightarrow> None
      | Some (Inl e, n) \<Rightarrow> Some (Inl (FrameError e), w\<lparr>w_Net := n\<rparr>)
      | Some (Inr (frameType, authBytes), n) \<Rightarrow>
          if frameType \<noteq> frameTypeAuthenticator then Some (Inl (UnexpectedFrameType frameType), w\<lparr>w_Net := n\<rparr>)
          else Some (check_authenticator env cfg (tc_State conn n) req authBytes now (w\<lparr>w_Net := n\<rparr>)))))))"

definition withConnContext ::
    "'n tls_conn \<Rightarrow> 'n go_context option \<Rightarrow> (('n, 'c) world \<Rightarrow> ('n, 'c, 'a) run) \<Rightarrow> ('n, 'c) world \<Rightarrow> ('n, 'c, 'a) run" where
  "withConnContext conn ctx fn w =
     (case ctx of
        None \<Rightarrow> fn w
      | Some c \<Rightarrow>
          (case (case ctx_Deadline c of Some deadline \<Rightarrow> tc_SetDeadline conn deadline (w_Net w) | None \<Rightarrow> (None, w_Net w)) of
             (Some e, n) \<Rightarrow> Some (Inl (ConnError e), w\<lparr>w_Net := n\<rparr>)
           | (None, n) \<Rightarrow>
               (case fn (w\<lparr>w_Net := n\<rparr>) of
                  None \<Rightarrow> None
                | Some (res, w') \<Rightarrow>
                    Some (case ctx_Err c (w_Net w') of Some e \<Rightarrow> Inl (ContextError e) | None \<Rightarrow> res,
                      w'\<lparr>w_Net := snd (tc_SetDeadline conn 0 (w_Net w'))\<rparr>))))"

definition ClientContext ::
    "'o crypto_env \<Rightarrow> 'n go_context option \<Rightarrow> 'n tls_conn \<Rightarrow> ('o, 'c) ClientConfig option \<Rightarrow> go_time \<Rightarrow> ('n, 'c) world
     \<Rightarrow> ('n, 'c, Conn) run" where
  "ClientContext env ctx conn cfg now w =
     (case cfg of
        None \<Rightarrow> Some (Inl MissingClientConfig, w)
      | Some cfg \<Rightarrow>
          if ctx = None then Some (Inl MissingClientContext, w)
          else withConnContext conn ctx (client_session env conn cfg now) w)"

definition Background :: "'n go_context" where
  "Background = \<lparr>ctx_Deadline = None, ctx_Err = (\<lambda>_. None)\<rparr>"

definition Client ::
    "'o crypto_env \<Rightarrow> 'n tls_conn \<Rightarrow> ('o, 'c) ClientConfig option \<Rightarrow> go_time \<Rightarrow> ('n, 'c) world \<Rightarrow> ('n, 'c, Conn) run" where
  "Client env conn cfg now w = ClientContext env (Some Background) conn cfg now w"


section \<open>The server\<close>

definition resolveIdentity :: "ServerConfig \<Rightarrow> transport_error + tls_identity" where
  "resolveIdentity cfg =
     (if length (id_Certificate (sc_Identity cfg)) > 0 \<and> id_PrivateKey (sc_Identity cfg) \<noteq> None then Inr (sc_Identity cfg)
      else if length (sc_Certificates cfg) > 0 then Inr (sc_Certificates cfg ! 0)
      else Inl MissingServerIdentity)"

definition buildServerExtensions ::
    "'o crypto_env \<Rightarrow> ServerConfig \<Rightarrow> tls_state \<Rightarrow> AuthenticatorRequest \<Rightarrow> tls_identity \<Rightarrow> transport_error + Extension list" where
  "buildServerExtensions env cfg st req identity =
     (case sc_BuildLeafExtensions cfg of
        None \<Rightarrow> Inr []
      | Some build \<Rightarrow>
          if length (id_Certificate identity) = 0 then Inl MissingServerLeaf
          else case ParseCertificate env (id_Certificate identity ! 0) of
            Inl e \<Rightarrow> Inl (CallbackError e)
          | Inr leaf \<Rightarrow> (case build st req leaf of Inl e \<Rightarrow> Inl (CallbackError e) | Inr exts \<Rightarrow> Inr exts))"

text \<open>The answer of the server to a request: the authenticator to send.\<close>

definition answer_request ::
    "'o crypto_env \<Rightarrow> ServerConfig \<Rightarrow> tls_state \<Rightarrow> bytes \<Rightarrow> Session option
     \<Rightarrow> (transport_error + AuthenticatorRequest \<times> bytes) \<times> Session option" where
  "answer_request env cfg st reqBytes session =
     (case UnmarshalAuthenticatorRequest reqBytes of
        Inl e \<Rightarrow> (Inl (AuthError (EAErr e)), session)
      | Inr (req, rest) \<Rightarrow>
          if length rest \<noteq> 0 then (Inl TrailingRequestBytes, session)
          else if sc_BuildLeafExtensions cfg \<noteq> None \<and> \<not> RequestPermitsCertificateExtension (Some req) CMWAttestationExtensionType
          then (Inl CMWNotOffered, session)
          else case resolveIdentity cfg of
            Inl e \<Rightarrow> (Inl e, session)
          | Inr identity \<Rightarrow>
              (case buildServerExtensions env cfg st req identity of
                 Inl e \<Rightarrow> (Inl e, session)
               | Inr exts \<Rightarrow>
                   (case (case session of
                            Some _ \<Rightarrow> Session_CreateAuthenticator env session st RoleServer (Some req) identity exts
                          | None \<Rightarrow> (CreateAuthenticator env st RoleServer (Some req) identity exts, None)) of
                      (Inl e, session') \<Rightarrow> (Inl (AuthError e), session')
                    | (Inr authBytes, session') \<Rightarrow> (Inr (req, authBytes), session'))))"

definition Server ::
    "'o crypto_env \<Rightarrow> 'n tls_conn \<Rightarrow> ServerConfig option \<Rightarrow> ('n, 'c) world \<Rightarrow> ('n, 'c, Conn) run" where
  "Server env conn cfg w =
     (case cfg of
        None \<Rightarrow> Some (Inl MissingServerConfig, w)
      | Some cfg \<Rightarrow>
     (case tc_Handshake conn (w_Net w) of
        (Some e, n) \<Rightarrow> Some (Inl (ConnError e), w\<lparr>w_Net := n\<rparr>)
      | (None, n) \<Rightarrow>
     (case readFrame (tc_Read conn) n of
        None \<Rightarrow> None
      | Some (Inl e, n) \<Rightarrow> Some (Inl (FrameError e), w\<lparr>w_Net := n\<rparr>)
      | Some (Inr (frameType, reqBytes), n) \<Rightarrow>
          if frameType \<noteq> frameTypeRequest then Some (Inl (UnexpectedFrameType frameType), w\<lparr>w_Net := n\<rparr>)
          else case answer_request env cfg (tc_State conn n) reqBytes (w_Session w) of
            (Inl e, session) \<Rightarrow> Some (Inl e, w\<lparr>w_Net := n, w_Session := session\<rparr>)
          | (Inr (req, authBytes), session) \<Rightarrow>
              (case writeFrame (tc_Write conn) frameTypeAuthenticator authBytes n of
                 None \<Rightarrow> None
               | Some (Some e, n) \<Rightarrow> Some (Inl (FrameError e), w\<lparr>w_Net := n, w_Session := session\<rparr>)
               | Some (None, n) \<Rightarrow>
                   Some (Inr \<lparr>cn_Request = req, cn_ValidationResult = None\<rparr>, w\<lparr>w_Net := n, w_Session := session\<rparr>)))))"

text \<open>
  \<open>DialContextWithDialer\<close> and \<open>Listener.Accept\<close> run them on a new connection, which an error closes. \<open>raw\<close> is the
  result of dialling or accepting: an error or the state of the new TLS connection.
\<close>

definition closing :: "'n tls_conn \<Rightarrow> ('n, 'c, 'a) run \<Rightarrow> ('n, 'c, 'a) run" where
  "closing conn r =
     (case r of
        None \<Rightarrow> None
      | Some (Inl e, w) \<Rightarrow> Some (Inl e, w\<lparr>w_Net := tc_Close conn (w_Net w)\<rparr>)
      | Some (Inr x, w) \<Rightarrow> Some (Inr x, w))"

definition DialContextWithDialer ::
    "'o crypto_env \<Rightarrow> 'n go_context option \<Rightarrow> 'n tls_conn \<Rightarrow> string + 'n \<Rightarrow> ('o, 'c) ClientConfig option \<Rightarrow> bool \<Rightarrow> go_time
     \<Rightarrow> ('n, 'c) world \<Rightarrow> ('n, 'c, Conn) run" where
  "DialContextWithDialer env ctx conn raw cfg hasTLSConfig now w =
     (if cfg = None \<or> \<not> hasTLSConfig then Some (Inl MissingTLSConfig, w)
      else if ctx = None then Some (Inl MissingClientContext, w)
      else case raw of
        Inl e \<Rightarrow> Some (Inl (ConnError e), w)
      | Inr n \<Rightarrow> closing conn (ClientContext env ctx conn cfg now (w\<lparr>w_Net := n\<rparr>)))"

definition Accept ::
    "'o crypto_env \<Rightarrow> 'n tls_conn \<Rightarrow> string + 'n \<Rightarrow> ServerConfig \<Rightarrow> ('n, 'c) world \<Rightarrow> ('n, 'c, Conn) run" where
  "Accept env conn raw cfg w =
     (case raw of
        Inl e \<Rightarrow> Some (Inl (ConnError e), w)
      | Inr n \<Rightarrow> closing conn (Server env conn (Some cfg) (w\<lparr>w_Net := n\<rparr>)))"


section \<open>What the client accepts\<close>

lemma hash_not_empty:
  assumes "bs \<noteq> []"
  shows "\<not> isEmpty (EncodeToString bs)"
proof -
  obtain b r where b: "bs = b # r" using assms by (cases bs) auto
  let ?n = "unat b div 16"
  have "unat b < 2 ^ LENGTH(8)" by (rule unsigned_less)
  then have "?n < 16" by simp
  then have "hex_digit ?n \<in> set ''0123456789abcdef''" unfolding hex_digit_def by (intro nth_mem) simp
  then have "(of_char (hex_digit ?n) :: nat) < 0x80" "\<not> IsSpace (of_char (hex_digit ?n))" by (auto simp: IsSpace_def)
  then show ?thesis
    unfolding isEmpty_def b EncodeToString_def by (simp add: hex_byte_def TrimSpace_ascii_head)
qed

text \<open>
  A session binding belongs to a validated session: it carries the hashes of the leaf key and of the request
  context and, if the session is attested, of the exported value and of the attestation binder.
\<close>

definition bound_to_session :: "'o crypto_env \<Rightarrow> ValidationResult \<Rightarrow> Binding \<Rightarrow> bool" where
  "bound_to_session env v b \<longleftrightarrow>
     (let hash = (\<lambda>x. EncodeToString (digest (prim env) SHA256 x)) in
      VR_Chain v \<noteq> [] \<and> VR_Context v \<noteq> [] \<and> RequestContextSHA256 b = hash (VR_Context v)
      \<and> (\<exists>pub. PublicKeyBytes (MarshalPKIXPublicKey env) (Some (hd (VR_Chain v))) = Inr pub \<and> LeafPublicKeySHA256 b = hash pub)
      \<and> (\<forall>att. VR_Attestation v = Some att \<longrightarrow> BindingVerified att \<longrightarrow>
           AttestationBinderSHA256 b = hash (BinderBinding (Binder (VP_Payload att)))
           \<and> (ExportedValue (VP_Binding att) \<noteq> [] \<longrightarrow> TLSExporterSHA256 b = hash (ExportedValue (VP_Binding att)))))"

lemma expected_binding_bound:
  assumes "ExpectedIdentityBinding env (Some v) = Inr expected" "binding_ok observed expected now"
    and "\<And>b. digest (prim env) SHA256 b \<noteq> []"
  shows "bound_to_session env v observed"
proof -
  have m: "\<forall>get \<in> {LeafPublicKeySHA256, TLSExporterSHA256, RequestContextSHA256, AttestationBinderSHA256}.
      \<not> isEmpty (get expected) \<longrightarrow> get observed = get expected"
    using assms(2) by (simp add: binding_ok_def bindingFields_def)
  note h = hash_not_empty [OF assms(3)]
  from assms(1) show ?thesis
    using m h
    by (auto simp: ExpectedIdentityBinding_def bound_to_session_def Let_def hd_conv_nth split: if_splits sum.splits option.splits)
qed

lemma validateIdentityPolicy_None:
  assumes "Policy_Enabled (cc_IdentityPolicy cfg)" "cc_ObservedIdentity cfg = None"
  shows "validateIdentityPolicy env cfg st v now c = (None, c') \<longleftrightarrow>
    (\<exists>g s expected. cc_IdentityGrant cfg = Some g \<and> cc_IdentityBinding cfg = Some s \<and> statement_ok g s now
       \<and> ExpectedIdentityBinding env (Some v) = Inr expected \<and> binding_ok (VS_Binding s) expected now
       \<and> policy_ok (cc_IdentityPolicy cfg) (VG_Values g) \<and> MarkSessionBindingUsed (cc_IdentityReplay cfg) s c = (None, c'))"
proof -
  have "validateIdentityPolicy env cfg st v now c = (None, c') \<longleftrightarrow>
    (\<exists>g s a expected. cc_IdentityGrant cfg = Some g \<and> cc_IdentityBinding cfg = Some s \<and> NewAssertionFromSessionBinding g s now = Inr a
       \<and> ExpectedIdentityBinding env (Some v) = Inr expected
       \<and> ValidateAssertion (cc_IdentityPolicy cfg) a expected now = None
       \<and> MarkSessionBindingUsed (cc_IdentityReplay cfg) s c = (None, c'))"
    using assms by (auto simp: validateIdentityPolicy_def observedIdentityAssertion_def split: option.splits sum.splits prod.splits)
  then show ?thesis by (simp add: NewAssertion_Inr ValidateAssertion_def policy_iff)
qed

lemma check_authenticator_Inr:
  "check_authenticator env cfg st req auth now w = (Inr c, w') \<longleftrightarrow>
     (\<exists>res session cache. validateAuthenticator env (w_Session w) st RoleServer (Some req) None (Some (cc_AttestationPolicy cfg)) auth
          (cc_VerifyOptions cfg) = (Inr res, session)
        \<and> validateIdentityPolicy env cfg st res now (w_Replay w) = (None, cache)
        \<and> c = \<lparr>cn_Request = req, cn_ValidationResult = Some res\<rparr> \<and> w' = w\<lparr>w_Session := session, w_Replay := cache\<rparr>)"
proof -
  have "snd (validateAuthenticator env None st RoleServer (Some req) None p auth opts) = None" for p opts
    by (auto simp: validateAuthenticator_def MarkContextUsed_def split: sum.splits)
  then have "(case w_Session w of
       Some _ \<Rightarrow> Session_ValidateAuthenticatorWithAttestation env (w_Session w) st RoleServer (Some req) auth
          (cc_VerifyOptions cfg) (cc_AttestationPolicy cfg)
     | None \<Rightarrow> (ValidateAuthenticatorWithAttestation env st RoleServer (Some req) auth
          (cc_VerifyOptions cfg) (cc_AttestationPolicy cfg), None)) =
     validateAuthenticator env (w_Session w) st RoleServer (Some req) None (Some (cc_AttestationPolicy cfg)) auth (cc_VerifyOptions cfg)"
    by (simp add: Session_ValidateAuthenticatorWithAttestation_def ValidateAuthenticatorWithAttestation_def prod_eq_iff split: option.splits)
  then show ?thesis unfolding check_authenticator_def by (auto split: sum.splits prod.splits option.splits)
qed

lemma client_session_Inr:
  "client_session env conn cfg now w = Some (Inr c, w') \<longleftrightarrow>
     (\<exists>n1 req reqBytes n2 auth n3. tc_Handshake conn (w_Net w) = (None, n1) \<and> buildRequest env cfg = Inr (Some req)
        \<and> AuthenticatorRequest_Marshal req = Inr reqBytes \<and> writeFrame (tc_Write conn) frameTypeRequest reqBytes n1 = Some (None, n2)
        \<and> readFrame (tc_Read conn) n2 = Some (Inr (frameTypeAuthenticator, auth), n3)
        \<and> check_authenticator env cfg (tc_State conn n3) req auth now (w\<lparr>w_Net := n3\<rparr>) = (Inr c, w'))"
  unfolding client_session_def by (auto split: sum.splits prod.splits option.splits if_splits)

lemma ClientContext_Inr:
  assumes "ClientContext env ctx conn (Some cfg) now w = Some (Inr c, w')"
  shows "\<exists>w0 w''. client_session env conn cfg now w0 = Some (Inr c, w'')"
  using assms by (auto simp: ClientContext_def withConnContext_def split: option.splits prod.splits if_splits)


text \<open>
  C35: what an accepted aTLS connection means under an identity policy. If the client returns a connection and the
  identity comes from a grant and a session binding, then the server's authenticator is a full one for this TLS
  session and this request, with the attestation the policy demands; the grant authorises the binding; the binding
  carries the hashes of the validated leaf key and of the request context and, if the session is attested, of the
  exported value and of the attestation binder; and the granted values satisfy the policy. In particular an empty
  authenticator is not accepted.
\<close>

theorem client_accepts_bound_identity:
  assumes "ClientContext env ctx conn (Some cfg) now w = Some (Inr c, w')"
    and "Policy_Enabled (cc_IdentityPolicy cfg)" "cc_ObservedIdentity cfg = None"
    and "\<And>b. digest (prim env) SHA256 b \<noteq> []"
  shows "\<exists>n auth res certMsg extracted grant statement. cn_ValidationResult c = Some res
    \<and> full_authenticator env (tc_State conn n) RoleServer (Some (cn_Request c)) None (cc_VerifyOptions cfg) auth certMsg (VR_Chain res) extracted
    \<and> VR_Context res = req_Context (cn_Request c)
    \<and> attestation_part env (tc_State conn n) (Some (cc_AttestationPolicy cfg)) (VR_Context res) (hd (VR_Chain res)) extracted (VR_Attestation res)
    \<and> cc_IdentityGrant cfg = Some grant \<and> cc_IdentityBinding cfg = Some statement \<and> statement_ok grant statement now
    \<and> bound_to_session env res (VS_Binding statement)
    \<and> policy_ok (cc_IdentityPolicy cfg) (VG_Values grant)"
proof -
  obtain n3 auth res session cache s0 c0 where v: "validateAuthenticator env s0 (tc_State conn n3) RoleServer (Some (cn_Request c)) None
      (Some (cc_AttestationPolicy cfg)) auth (cc_VerifyOptions cfg) = (Inr res, session)"
      and p: "validateIdentityPolicy env cfg (tc_State conn n3) res now c0 = (None, cache)"
      and c: "cn_ValidationResult c = Some res"
    using ClientContext_Inr [OF assms(1)] unfolding client_session_Inr check_authenticator_Inr by fastforce
  obtain g s expected where i: "cc_IdentityGrant cfg = Some g" "cc_IdentityBinding cfg = Some s" "statement_ok g s now"
      "ExpectedIdentityBinding env (Some res) = Inr expected" "binding_ok (VS_Binding s) expected now"
      "policy_ok (cc_IdentityPolicy cfg) (VG_Values g)"
    using p unfolding validateIdentityPolicy_None [OF assms(2,3)] by blast
  have b: "bound_to_session env res (VS_Binding s)" by (rule expected_binding_bound [OF i(4,5) assms(4)])
  have "\<not> VR_Empty res"
  proof
    assume e: "VR_Empty res"
    from v obtain ch where "validate_attestation env (tc_State conn n3) (Some (cc_AttestationPolicy cfg)) ch = Inr res"
      unfolding validateAuthenticator_Inr by blast
    with e have "VR_Chain res = []" by (cases ch) (auto simp: validate_attestation_Full, auto simp: validate_attestation_def)
    then show False using b by (simp add: bound_to_session_def Let_def)
  qed
  from accepted_full [OF v this] obtain certMsg extracted where a:
      "full_authenticator env (tc_State conn n3) RoleServer (Some (cn_Request c)) None (cc_VerifyOptions cfg) auth certMsg (VR_Chain res) extracted"
      "VR_Context res = cm_Context certMsg"
      "attestation_part env (tc_State conn n3) (Some (cc_AttestationPolicy cfg)) (VR_Context res) (hd (VR_Chain res)) extracted (VR_Attestation res)"
    by blast
  have "VR_Context res = req_Context (cn_Request c)"
    using a(1,2) by (auto simp: full_authenticator_def certificate_part_def)
  with a b c i show ?thesis by blast
qed




section \<open>What the server answers is accepted\<close>

lemma answer_request_Inr:
  "answer_request env cfg st reqBytes session = (Inr (req, auth), session') \<longleftrightarrow>
     (\<exists>identity exts. UnmarshalAuthenticatorRequest reqBytes = Inr (req, [])
        \<and> (sc_BuildLeafExtensions cfg = None \<or> RequestPermitsCertificateExtension (Some req) CMWAttestationExtensionType)
        \<and> resolveIdentity cfg = Inr identity \<and> buildServerExtensions env cfg st req identity = Inr exts
        \<and> createAuthenticator env session st RoleServer (Some req) None identity exts = (Inr auth, session'))"
proof -
  have s: "snd (createAuthenticator env None st RoleServer req None identity exts) = None" for req identity exts
    by (auto simp: createAuthenticator_def MarkContextUsed_def split: sum.splits)
  have "(case session of Some _ \<Rightarrow> Session_CreateAuthenticator env session st RoleServer (Some req) identity exts
      | None \<Rightarrow> (CreateAuthenticator env st RoleServer (Some req) identity exts, None)) =
      createAuthenticator env session st RoleServer (Some req) None identity exts" for req identity exts
    using s [of "Some req" identity exts]
    by (simp add: Session_CreateAuthenticator_def CreateAuthenticator_def prod_eq_iff split: option.splits)
  then show ?thesis unfolding answer_request_def by (auto split: sum.splits prod.splits)
qed

lemma Server_Inr:
  "Server env conn (Some cfg) w = Some (Inr c, w') \<longleftrightarrow>
     (\<exists>n1 reqBytes n2 req auth session n3. tc_Handshake conn (w_Net w) = (None, n1)
        \<and> readFrame (tc_Read conn) n1 = Some (Inr (frameTypeRequest, reqBytes), n2)
        \<and> answer_request env cfg (tc_State conn n2) reqBytes (w_Session w) = (Inr (req, auth), session)
        \<and> writeFrame (tc_Write conn) frameTypeAuthenticator auth n2 = Some (None, n3)
        \<and> c = \<lparr>cn_Request = req, cn_ValidationResult = None\<rparr> \<and> w' = w\<lparr>w_Net := n3, w_Session := session\<rparr>)"
  unfolding Server_def by (auto split: sum.splits prod.splits option.splits if_splits)




section \<open>A sample connection\<close>

text \<open>A connection as a pair of the bytes sent and the bytes still to be read.\<close>

definition pipe :: "(bytes \<times> bytes) tls_conn" where
  "pipe = \<lparr>tc_Handshake = (\<lambda>n. (None, n)),
     tc_Read = (\<lambda>k (s, i). (fst (byte_read k i), (s, snd (byte_read k i)))),
     tc_Write = (\<lambda>b (s, i). ((length b, None), (s @ b, i))),
     tc_State = (\<lambda>_. sample_tls), tc_SetDeadline = (\<lambda>d n. (None, n)), tc_Close = (\<lambda>n. n)\<rparr>"

lemma pipe_ops:
  "tc_Write pipe b (s, i) = ((length b, None), (s @ b, i))"
  "tc_Read pipe k (s, i) = (fst (byte_read k i), (s, snd (byte_read k i)))"
  by (simp_all add: pipe_def)

lemma pipe_contracts: "writer_contract (tc_Write pipe) fst" "reader_contract (tc_Read pipe) snd"
proof -
  show "writer_contract (tc_Write pipe) fst"
    unfolding writer_contract_def
  proof (intro allI impI)
    fix b n and w w' :: "bytes \<times> bytes"
    assume "tc_Write pipe b w = ((n, None), w')" "b \<noteq> []"
    then show "0 < n \<and> n \<le> length b \<and> fst w' = fst w @ take n b"
      by (cases w) (auto simp: pipe_ops)
  qed
  show "reader_contract (tc_Read pipe) snd"
    unfolding reader_contract_def
  proof (intro allI impI)
    fix k bs e and r r' :: "bytes \<times> bytes"
    assume r: "tc_Read pipe k r = ((bs, e), r')" "0 < k"
    then have "byte_read k (snd r) = ((bs, e), snd r')" by (cases r) (auto simp: pipe_ops prod_eq_iff)
    then show "length bs \<le> k \<and> snd r = bs @ snd r' \<and> (if e = None then bs \<noteq> [] else snd r' = [])"
      using byte_contracts(2) r(2) unfolding reader_contract_def by blast
  qed
qed

lemma pipe_written:
  assumes "length payload \<le> maxFramePayloadLen"
  shows "writeFrame (tc_Write pipe) t payload (s, i) = Some (None, (s @ frame_bytes t payload, i))"
proof -
  have w: "writeAll (tc_Write pipe) b (s, i) = Some (None, (s @ b, i))" for b s
    by (cases "b = []"; subst writeAll.simps) (simp_all add: pipe_ops writeAll.simps [of _ "[]"])
  show ?thesis using assms by (simp add: writeFrame_def w frame_bytes_def Let_def)
qed

definition sample_session_statement :: VerifiedSessionBindingStatement where
  "sample_session_statement = sample_statement\<lparr>VS_Binding := sample_binding\<lparr>LeafPublicKeySHA256 := ''01'', RequestContextSHA256 := ''01''\<rparr>\<rparr>"

definition sample_client :: "Policy \<Rightarrow> (unit, MemoryReplayCache) ClientConfig" where
  "sample_client policy = \<lparr>cc_VerifyOptions = Some (), cc_AttestationPolicy = \<lparr>EvidenceVerifier = None, ResultsVerifier = None\<rparr>,
     cc_IdentityPolicy = policy, cc_ObservedIdentity = None, cc_IdentityGrant = Some sample_grant,
     cc_IdentityBinding = Some sample_session_statement, cc_IdentityReplay = None,
     cc_Request = Some sample_request, cc_RequestBuilder = None\<rparr>"

definition sample_server :: ServerConfig where
  "sample_server = \<lparr>sc_Certificates = [], sc_Identity = sample_identity, sc_BuildLeafExtensions = None\<rparr>"

definition sample_result :: ValidationResult where
  "sample_result = \<lparr>VR_Context = [1, 2], VR_Chain = sample_chain, VR_CMWAttestation = [], VR_Attestation = None, VR_Empty = False\<rparr>"

lemma sample_hash: "EncodeToString (digest (prim sample_env) SHA256 b) = ''01''"
  by (simp add: sample_env_def EncodeToString_def hex_byte_def hex_digit_def)

lemma sample_client_ok:
  "statement_ok sample_grant sample_session_statement 5"
  "ExpectedIdentityBinding sample_env (Some sample_result) = Inr \<lparr>LeafPublicKeySHA256 = ''01'', TLSExporterSHA256 = [],
     RequestContextSHA256 = ''01'', AttestationBinderSHA256 = [], Nonce = [], IssuedAt = 0, ExpiresAt = 0\<rparr>"
  "binding_ok (VS_Binding sample_session_statement) \<lparr>LeafPublicKeySHA256 = ''01'', TLSExporterSHA256 = [],
     RequestContextSHA256 = ''01'', AttestationBinderSHA256 = [], Nonce = [], IssuedAt = 0, ExpiresAt = 0\<rparr> 5"
  "policy_ok sample_policy (VG_Values sample_grant)"
proof -
  have p: "present ''01''" by (rule plain_present) (simp add: plain_def MaxValueLength_def)
  have v: "safe_value ''svc''" "\<not> isEmpty ''svc''" using sample_present(11) by (simp_all add: present_def)
  show "statement_ok sample_grant sample_session_statement 5"
    using sample_present p v
    by (simp add: sample_session_statement_def statement_ok_def sample_simps binding_keys_def grant_values_ok_def
        grantFields_def field_value_def lifetime_ok_def statement_binding_ok_def MaxSetValues_def)
  show "ExpectedIdentityBinding sample_env (Some sample_result) = Inr \<lparr>LeafPublicKeySHA256 = ''01'', TLSExporterSHA256 = [],
     RequestContextSHA256 = ''01'', AttestationBinderSHA256 = [], Nonce = [], IssuedAt = 0, ExpiresAt = 0\<rparr>"
    by (simp add: ExpectedIdentityBinding_def sample_result_def sample_chain_def PublicKeyBytes_def sample_hash Let_def)
  show "binding_ok (VS_Binding sample_session_statement) \<lparr>LeafPublicKeySHA256 = ''01'', TLSExporterSHA256 = [],
     RequestContextSHA256 = ''01'', AttestationBinderSHA256 = [], Nonce = [], IssuedAt = 0, ExpiresAt = 0\<rparr> 5"
    using p by (simp add: binding_ok_def bindingFields_def sample_session_statement_def sample_statement_def sample_binding_def
        present_def safe_value_def isEmpty_def)
  show "policy_ok sample_policy (VG_Values sample_grant)"
    using v by (simp add: policy_ok_def sample_policy_def sample_grant_def no_values_def Requirements_Enabled_def layer_ok_def fieldsL3_def field_value_def)
qed

lemma sample_policy_enabled: "Policy_Enabled sample_policy"
  by (simp add: Policy_Enabled_def sample_policy_def)

lemma sample_authenticator:
  "\<exists>auth. length auth \<le> 100 \<and> createAuthenticator sample_env (Some NewSession) sample_tls RoleServer (Some sample_request) None
       sample_identity [] = (Inr auth, Some \<lparr>used = {[1, 2]}\<rparr>)
     \<and> validateAuthenticator sample_env None sample_tls RoleServer (Some sample_request) None
         (Some \<lparr>EvidenceVerifier = None, ResultsVerifier = None\<rparr>) auth (Some ()) = (Inr sample_result, None)"
proof -
  obtain auth where a: "createAuthenticator sample_env (Some NewSession) sample_tls RoleServer (Some sample_request) None
       sample_identity [] = (Inr auth, Some \<lparr>used = {[1, 2]}\<rparr>)" "length auth \<le> 100" using sample_create by blast
  have "validateAuthenticator sample_env None sample_tls RoleServer (Some sample_request) None
         (Some \<lparr>EvidenceVerifier = None, ResultsVerifier = None\<rparr>) auth (Some ())
       = (Inr \<lparr>VR_Context = req_Context sample_request, VR_Chain = hd sample_chain # [],
            VR_CMWAttestation = (case None of None \<Rightarrow> [] | Some cmw \<Rightarrow> cmw), VR_Attestation = None, VR_Empty = False\<rparr>, None)"
    by (rule created_validates [OF a(1) [unfolded sample_identity_def] sample_sign_verifies])
       (simp_all add: sample_env_def sample_chain_def ExtractCMWAttestationFromExtensions_def first_extension_def
          attestation_part_def policy_or_default_def RequiresAttestation_def)
  then show ?thesis using a by (auto simp: sample_request_def sample_chain_def sample_result_def)
qed

lemma sample_request_marshal: "AuthenticatorRequest_Marshal sample_request = Inr (request_bytes sample_request)"
    "length (request_bytes sample_request) \<le> maxFramePayloadLen"
  using sample_request_ok
  by (simp_all add: AuthenticatorRequest_Marshal_Inr)
    (simp add: request_bytes_def handshake_bytes_def ctx_bytes_def extensions_bytes_def extension_bytes_def sample_request_def maxFramePayloadLen_def)

theorem client_accepts_bound_identity_witness:
  "\<exists>auth w' res. length auth \<le> 100
     \<and> Client sample_env pipe (Some (sample_client sample_policy)) 5
         \<lparr>w_Net = ([], frame_bytes frameTypeAuthenticator auth), w_Session = None, w_Replay = NewMemoryReplayCacheWithClock 5\<rparr>
       = Some (Inr \<lparr>cn_Request = sample_request, cn_ValidationResult = Some sample_result\<rparr>, w')
     \<and> bound_to_session sample_env sample_result (VS_Binding sample_session_statement)"
proof -
  obtain auth where a: "length auth \<le> 100" "validateAuthenticator sample_env None sample_tls RoleServer (Some sample_request) None
         (Some \<lparr>EvidenceVerifier = None, ResultsVerifier = None\<rparr>) auth (Some ()) = (Inr sample_result, None)"
    using sample_authenticator by blast
  let ?w = "\<lparr>w_Net = ([], frame_bytes frameTypeAuthenticator auth), w_Session = None, w_Replay = NewMemoryReplayCacheWithClock 5\<rparr>"
  let ?sent = "frame_bytes frameTypeRequest (request_bytes sample_request)"
  have "length auth \<le> maxFramePayloadLen" using a(1) by (simp add: maxFramePayloadLen_def)
  then have "\<exists>r'. readFrame (tc_Read pipe) (?sent, frame_bytes frameTypeAuthenticator auth) = Some (Inr (frameTypeAuthenticator, auth), r') \<and> snd r' = []"
    unfolding readFrame_iff [OF pipe_contracts(2)] by simp
  then obtain r where r: "readFrame (tc_Read pipe) (?sent, frame_bytes frameTypeAuthenticator auth) = Some (Inr (frameTypeAuthenticator, auth), r)" by blast
  have "validateIdentityPolicy sample_env (sample_client sample_policy) sample_tls sample_result 5 (NewMemoryReplayCacheWithClock 5)
      = (None, NewMemoryReplayCacheWithClock 5)"
    using sample_client_ok sample_policy_enabled
    by (simp add: validateIdentityPolicy_None MarkSessionBindingUsed_def sample_client_def)
  then have "\<exists>w'. client_session sample_env pipe (sample_client sample_policy) 5 ?w
      = Some (Inr \<lparr>cn_Request = sample_request, cn_ValidationResult = Some sample_result\<rparr>, w')"
    unfolding client_session_Inr check_authenticator_Inr
    using r a(2) sample_request_marshal(1) pipe_written [OF sample_request_marshal(2), of frameTypeRequest "[]" "frame_bytes frameTypeAuthenticator auth"]
    by (auto simp: sample_client_def buildRequest_def) (simp_all add: pipe_def)
  then obtain w' where c: "Client sample_env pipe (Some (sample_client sample_policy)) 5 ?w
      = Some (Inr \<lparr>cn_Request = sample_request, cn_ValidationResult = Some sample_result\<rparr>, w')"
    by (auto simp: Client_def ClientContext_def withConnContext_def Background_def)
  from client_accepts_bound_identity [OF c [unfolded Client_def]]
  have "bound_to_session sample_env sample_result (VS_Binding sample_session_statement)"
    using sample_policy_enabled by (auto simp: sample_client_def sample_env_def)
  with a(1) c show ?thesis by blast
qed




end
