(* ===== verification/Spec2Isabelle.thy ===== *)
theory Spec2Isabelle
  imports EA_Authenticator Agent_Runs JSON_Grammar Binding_JWT AGTP_JWT Gateway_Route ATLS_Transport
begin

text \<open>
  \<^bold>\<open>A verification of the session-bound agent identity runtime.\<close>

  The program lets a client accept an agent that runs in a confidential virtual machine: the agent proves over a
  TLS 1.3 session which key it holds, that the key is attested, and which identity a manager has granted it; then
  it takes a computation manifest, receives the algorithm and datasets the manifest declares, and runs them.
  This development models those parts as HOL functions and step relations, translated from the Go sources under
  \<open>src/\<close>, and proves what makes them correct.

  \<^bold>\<open>Parts and how they interact.\<close>

  \<^item> Identity policy (\<open>pkg/atls/identitypolicy\<close>): a local policy, a session binding and a verified assertion are
    compared field by field; a replay cache makes an accepted session binding unusable afterwards.
  \<^item> Exported authenticators (\<open>pkg/atls/ea\<close>, RFC 9261) and the attestation payload they carry
    (\<open>pkg/atls/eaattestation\<close>): the messages by which the agent proves its key inside the TLS session.
  \<^item> The aTLS transport (\<open>pkg/atls/internal_transport\<close>) carries authenticators as frames over the connection and asks
    the identity policy before a connection is handed to the caller.
  \<^item> Token verifiers (\<open>pkg/clients/identity_jwt.go\<close>, \<open>pkg/agtp\<close>) turn signed grants, session bindings and gateway
    routes into the verified values the policies compare.
  \<^item> The agent (\<open>agent/service.go\<close>, \<open>agent/statemachine\<close>) with the archive code it unpacks uploads with
    (\<open>internal/zip.go\<close>, \<open>internal/file.go\<close>).

  \<^bold>\<open>Theories.\<close>

  \<^item> \<open>Go_Base\<close>: strings, UTF-8, \<open>strings.TrimSpace\<close>, time, the rules for early returns; the prelude.
  \<^item> \<open>Identity_Policy\<close>, \<open>Session_Binding\<close>, \<open>Replay_Cache\<close>: the package \<open>identitypolicy\<close>. The validators are shown
    to decide declarative conditions; the locale \<open>one_shot\<close> is the contract of a replay cache, interpreted on the
    in-process cache and on the SetNX cache, and gives that a session is accepted at most once.
  \<^item> \<open>EA_Codec\<close>: marshalling and parsing of all authenticator messages; the locale \<open>prefix_codec\<close> is the contract of
    a codec that leaves the rest of its input, interpreted on the message formats.
  \<^item> \<open>TLS_Base\<close>, \<open>EA_Attestation\<close>, \<open>EA_Authenticator\<close>: creation and validation of authenticators and of the
    attestation payload over abstract cryptographic primitives.
  \<^item> \<open>Go_Path\<close>, \<open>Archive\<close>: paths, a file system with failing calls, zip packing and unpacking.
  \<^item> \<open>State_Machine\<close>, \<open>Agent_Service\<close>, \<open>Agent_Invariants\<close>, \<open>Agent_Runs\<close>: the state machine, the handlers of the
    agent on one system state, the invariants of every reachable state, and the properties of runs. Handler bodies
    that hold the mutex are one step; what happens before the mutex is taken is a step of its own.
  \<^item> \<open>JSON_Members\<close>, \<open>JSON_Grammar\<close>, \<open>AGTP_Members\<close>: the two duplicate-member checks for tokens over the token stream of
    \<open>json.Decoder\<close>; the reference is a grammar of JSON texts, and the two checks give the same verdict.
  \<^item> \<open>Token_Base\<close>: what the token verifiers share: the documented behaviour of the JWT library (\<open>jwt_contract\<close>) and the
    locales \<open>acceptor\<close> (an extension of \<open>one_shot\<close>) and \<open>session_acceptor\<close>, the contract of an entry point that records
    what it accepted.
  \<^item> \<open>Binding_JWT\<close> (\<open>pkg/clients/identity_jwt.go\<close>) and \<open>AGTP_JWT\<close> (\<open>pkg/agtp/jwt.go\<close>): the verifiers of identity grants
    and session bindings, the single envelope included; each interprets \<open>session_acceptor\<close>.
  \<^item> \<open>Gateway_Route\<close> (\<open>pkg/agtp/gatewayroute/route.go\<close>): the policy that accepts a gateway's route assertion.
  \<^item> \<open>ATLS_Frame\<close>, \<open>ATLS_Transport\<close> (\<open>pkg/atls/internal_transport\<close>, \<open>pkg/atls/identity_binding.go\<close>): frames on a
    connection, and the exchange by which a client gets, validates and accepts the authenticator of a server.

  \<^bold>\<open>What the theorems show.\<close> Each property is stated in the theory of the component it is about, under its
  claim number. The groups are: acceptance conditions of the validators as equivalences; uniqueness of replay keys
  and one-time acceptance, sequentially and under interleaving; exactness of the codecs (parsing inverts
  marshalling and accepts nothing else); what an accepted authenticator proves and that an honest one is accepted;
  confinement of unpacking and that it restores what was packed; the life cycle of a computation (inputs complete,
  algorithm as declared, no transition back); and the places where the code deviates from what it means to do,
  each with the run that shows it. The token verifiers and the transport add: what an accepted pair of tokens or envelope
  proves and that it is accepted once, also across the two profiles; that a client which accepts a connection has
  checked the identity policy on the validated leaf; that an honest server's answer is accepted; and that frames are
  read back as written, on any connection that makes progress.

  \<^bold>\<open>Bounds, fuel and parameters.\<close> No theorem depends on a fuel argument: loops over bytes and paths
  recurse on the input they consume. The loops that read and write a connection may not end; they are partial
  functions whose value is \<open>None\<close> when a call does not return, with a theorem that they return on every connection
  that makes progress. Lengths are those of the code
  (\<open>MaxValueLength\<close>, 24-bit and 16-bit length fields, 64-bit integers where they can wrap). Code that is not in the
  repository is a parameter of the definitions that call it: hash functions, HMAC, signatures, X.509 parsing and
  chain building, the TLS exporter, the shared store of the SetNX cache, the runner of algorithms, skopeo, the
  attestation service, the JWT library, TLS connections and the callbacks of a configuration. Theorems about them name what they assume (collision freedom on the inputs
  that occur, a store whose SetNX is atomic, a signature scheme that verifies what it signs).

  \<^bold>\<open>Not modelled.\<close> The CWT adapter and the token adapters of gateway routes, which decode COSE, CBOR and JWTs
  into dynamically typed claims with third-party libraries; the diversion and response cache policies of
  \<open>pkg/agtp\<close>, on which no runtime path depends. Generated protocol buffers and mocks; the binaries under \<open>cmd\<close> and the
  command line under \<open>cli\<close>, which wire services and print; logging, metrics and tracing decorators; process, container
  and virtual machine control (\<open>agent/algorithm\<close>, \<open>manager/qemu\<close>), proxies and OCI fetching, which are input and
  output through third-party tools; the attestation back ends, which call vendor libraries. The extension for OID
  filters in \<open>ea/request.go\<close> has no caller and needs ASN.1.
\<close>

end
